(* ===== verification/Prelude.thy ===== *)
theory Prelude
  imports
    Main
    "HOL-Library.Word"
    "HOL-Library.Char_ord"
    "HOL-Library.List_Lexorder"
    "HOL-Library.Sublist"
    "HOL-Library.Multiset"
begin

text \<open>
  Shared vocabulary of the development.

  Go strings are byte sequences; \<open>string\<close> (a list of 8-bit \<open>char\<close>) is used
  for them throughout, so lengths, comparisons and searches are bytewise as in Go.
  This theory holds the parts of the packages \<open>strings\<close>, \<open>strconv\<close>,
  \<open>fmt\<close> and \<open>errors\<close> that the program uses, the error values, and the facts on
  lists and splitting that the components share.
\<close>

subsection \<open>Collections of facts\<close>

named_theorems string_simps \<open>equations of the string helpers\<close>
named_theorems res_simps \<open>equations of the error-carrying results\<close>

subsection \<open>Errors\<close>

text \<open>
  A Go \<open>error\<close> is a message together with the chain of errors it wraps.
  \<open>Errorf\<close> is \<open>fmt.Errorf\<close> or \<open>errors.New\<close> without \<open>%w\<close>; \<open>Wrapf\<close> is a
  format that ends in \<open>%w\<close>, and \<open>Bothf\<close> one that starts and ends with it. A
  message is a list of fragments: literal text (and \<open>%s\<close> arguments) or a \<open>%q\<close> argument, which is quoted only when the message is
  rendered. \<open>Api_Error\<close> is an error of the Kubernetes API machinery with its status
  reason, \<open>Exit_Error\<close> is \<open>shell.ExitError\<close>, and \<open>Lib_Error\<close> is any other error
  that comes from code outside the repository.
\<close>

datatype frag = Txt string | Quo string

datatype api_reason = Already_Exists | Invalid_Object | Other_Reason

datatype goerr =
    Errorf "frag list"
  | Wrapf "frag list" goerr
  | Bothf goerr "frag list" goerr
  | Api_Error api_reason string
  | Exit_Error string string int goerr
  | Lib_Error string

type_synonym 'a res = "goerr + 'a"

primrec frag_text :: "(string \<Rightarrow> string) \<Rightarrow> frag \<Rightarrow> string" where
  "frag_text q (Txt s) = s"
| "frag_text q (Quo s) = q s"

text \<open>The \<open>Error()\<close> method; the argument is \<open>strconv.Quote\<close>, used for \<open>%q\<close>.\<close>

primrec err_text :: "(string \<Rightarrow> string) \<Rightarrow> goerr \<Rightarrow> string" where
  "err_text q (Errorf fs) = concat (map (frag_text q) fs)"
| "err_text q (Wrapf fs e) = concat (map (frag_text q) fs) @ err_text q e"
| "err_text q (Bothf e fs e') = err_text q e @ concat (map (frag_text q) fs) @ err_text q e'"
| "err_text q (Api_Error r msg) = msg"
| "err_text q (Exit_Error out er code e) = err_text q e"
| "err_text q (Lib_Error msg) = msg"

text \<open>\<open>apierrors.ReasonForError\<close> looks through wrapped errors.\<close>

primrec api_reason_of :: "goerr \<Rightarrow> api_reason option" where
  "api_reason_of (Errorf fs) = None"
| "api_reason_of (Wrapf fs e) = api_reason_of e"
| "api_reason_of (Bothf e fs e') = (case api_reason_of e of None \<Rightarrow> api_reason_of e' | Some r \<Rightarrow> Some r)"
| "api_reason_of (Api_Error r msg) = Some r"
| "api_reason_of (Exit_Error out er code e) = api_reason_of e"
| "api_reason_of (Lib_Error msg) = None"

subsection \<open>Results\<close>

definition res_bind :: "'a res \<Rightarrow> ('a \<Rightarrow> 'b res) \<Rightarrow> 'b res" where
  "res_bind r f = (case r of Inl e \<Rightarrow> Inl e | Inr a \<Rightarrow> f a)"

lemma res_bind_Inl [simp, res_simps]: "res_bind (Inl e) f = Inl e"
  by (simp add: res_bind_def)

lemma res_bind_Inr [simp, res_simps]: "res_bind (Inr a) f = f a"
  by (simp add: res_bind_def)

lemma res_bind_eq_Inr [res_simps]:
  "res_bind r f = Inr b \<longleftrightarrow> (\<exists>a. r = Inr a \<and> f a = Inr b)"
  by (cases r) auto

primrec res_map_list :: "('a \<Rightarrow> 'b res) \<Rightarrow> 'a list \<Rightarrow> 'b list res" where
  "res_map_list f [] = Inr []"
| "res_map_list f (x # xs) =
     res_bind (f x) (\<lambda>y. res_bind (res_map_list f xs) (\<lambda>ys. Inr (y # ys)))"

lemma res_map_list_Inr:
  "res_map_list f xs = Inr ys \<longleftrightarrow> list_all2 (\<lambda>x y. f x = Inr y) xs ys"
proof (induction xs arbitrary: ys)
  case Nil
  then show ?case by auto
next
  case (Cons x xs)
  then show ?case by (auto simp: res_bind_eq_Inr list_all2_Cons1)
qed

lemma res_map_list_Inl:
  "res_map_list f xs = Inl e \<Longrightarrow> \<exists>x \<in> set xs. f x = Inl e"
  by (induction xs) (auto simp: res_bind_def split: sum.splits)

subsection \<open>Splitting and joining\<close>

text \<open>\<open>strings.Split\<close> with a one-byte separator and \<open>strings.Join\<close>.\<close>

fun split_on :: "char \<Rightarrow> string \<Rightarrow> string list" where
  "split_on c [] = [[]]"
| "split_on c (x # xs) =
     (if x = c then [] # split_on c xs
      else (case split_on c xs of [] \<Rightarrow> [[x]] | y # ys \<Rightarrow> (x # y) # ys))"

fun go_join :: "string \<Rightarrow> string list \<Rightarrow> string" where
  "go_join sep [] = []"
| "go_join sep [x] = x"
| "go_join sep (x # y # zs) = x @ sep @ go_join sep (y # zs)"

lemma split_on_not_Nil [simp]: "split_on c s \<noteq> []"
  by (induction s) (auto split: list.splits)

lemma go_join_Cons:
  "xs \<noteq> [] \<Longrightarrow> go_join sep (x # xs) = x @ sep @ go_join sep xs"
  by (cases xs) auto

lemma split_on_no_sep [simp]: "c \<notin> set s \<Longrightarrow> split_on c s = [s]"
  by (induction s) auto

lemma split_on_append_sep: "split_on c (a @ c # b) = split_on c a @ split_on c b"
  by (induction a) (auto split: list.splits)

lemma split_on_parts_no_sep: "p \<in> set (split_on c s) \<Longrightarrow> c \<notin> set p"
  by (induction s arbitrary: p) (auto split: list.splits if_splits)

lemma length_split_on: "length (split_on c s) = Suc (count_list s c)"
  by (induction s) (auto split: list.splits)

lemma go_join_split_on [simp]: "go_join [c] (split_on c s) = s"
proof (induction s)
  case Nil
  then show ?case by simp
next
  case (Cons x xs)
  obtain y ys where split: "split_on c xs = y # ys"
    by (cases "split_on c xs") auto
  with Cons show ?case by (cases ys) auto
qed

lemma split_on_go_join:
  "xs \<noteq> [] \<Longrightarrow> \<forall>p \<in> set xs. c \<notin> set p \<Longrightarrow> split_on c (go_join [c] xs) = xs"
proof (induction xs)
  case Nil
  then show ?case by simp
next
  case (Cons x xs)
  show ?case
  proof (cases "xs = []")
    case True
    with Cons.prems show ?thesis by simp
  next
    case False
    with Cons show ?thesis
      by (simp add: go_join_Cons split_on_append_sep)
  qed
qed

lemma set_go_join_sep: "c \<in> set (go_join [c] xs) \<longleftrightarrow> 2 \<le> length xs \<or> (\<exists>p \<in> set xs. c \<in> set p)"
proof (induction xs)
  case Nil
  then show ?case by simp
next
  case (Cons x xs)
  then show ?case by (cases xs) auto
qed

text \<open>Cutting at the first or the last separator is unambiguous.\<close>

lemma append_sep_eq_first:
  "c \<notin> set a \<Longrightarrow> c \<notin> set a' \<Longrightarrow> a @ c # b = a' @ c # b' \<longleftrightarrow> a = a' \<and> b = b'"
proof (induction a arbitrary: a')
  case Nil
  then show ?case by (cases a') auto
next
  case (Cons x a)
  then show ?case by (cases a') auto
qed

lemma append_sep_eq_last:
  assumes "c \<notin> set b" "c \<notin> set b'"
  shows "a @ c # b = a' @ c # b' \<longleftrightarrow> a = a' \<and> b = b'"
proof -
  have "a @ c # b = a' @ c # b' \<longleftrightarrow> rev b @ c # rev a = rev b' @ c # rev a'"
    by (metis append.assoc append_Cons append_Nil rev.simps(2) rev_append rev_rev_ident)
  also have "\<dots> \<longleftrightarrow> rev b = rev b' \<and> rev a = rev a'"
    using assms by (intro append_sep_eq_first) auto
  finally show ?thesis by auto
qed

subsection \<open>Substrings, trimming, numbers\<close>

text \<open>\<open>strings.Contains\<close>.\<close>

fun contains_str :: "string \<Rightarrow> string \<Rightarrow> bool" where
  "contains_str pat [] = (pat = [])"
| "contains_str pat (x # xs) = (prefix pat (x # xs) \<or> contains_str pat xs)"

lemma contains_str_iff: "contains_str pat s \<longleftrightarrow> sublist pat s"
proof (induction s)
  case Nil
  then show ?case by simp
next
  case (Cons x xs)
  then show ?case by (simp add: sublist_Cons_right)
qed

text \<open>
  \<open>strings.TrimSpace\<close> removes the Unicode white space from both ends; here are the UTF-8
  encodings of exactly those characters.
\<close>

definition utf8 :: "nat list \<Rightarrow> string" where
  "utf8 ns = map char_of ns"

definition space_seqs :: "string list" where
  "space_seqs = map utf8
     ([[9], [10], [11], [12], [13], [32], [194, 133], [194, 160], [225, 154, 128]]
      @ map (\<lambda>b. [226, 128, b]) ([128..<139] @ [168, 169, 175])
      @ [[226, 129, 159], [227, 128, 128]])"

lemma space_seqs_nonempty: "w \<in> set space_seqs \<Longrightarrow> w \<noteq> []"
  by (auto simp: space_seqs_def utf8_def)

definition starts_with_space :: "string \<Rightarrow> string option" where
  "starts_with_space s = find (\<lambda>w. prefix w s) space_seqs"

lemma find_SomeD: "find P xs = Some x \<Longrightarrow> x \<in> set xs \<and> P x"
  by (induction xs) (auto split: if_splits)

lemma starts_with_space_shorter:
  assumes "starts_with_space s = Some w"
  shows "length (drop (length w) s) < length s"
proof -
  from assms have "w \<in> set space_seqs" "prefix w s"
    unfolding starts_with_space_def by (auto dest!: find_SomeD)
  then show ?thesis using space_seqs_nonempty [of w] by (cases w; cases s) auto
qed

function trim_left :: "string \<Rightarrow> string" where
  "trim_left s = (case starts_with_space s of None \<Rightarrow> s | Some w \<Rightarrow> trim_left (drop (length w) s))"
  by pat_completeness auto
termination
  by (relation "measure length") (auto dest: starts_with_space_shorter)

definition ends_with_space :: "string \<Rightarrow> string option" where
  "ends_with_space s = find (\<lambda>w. suffix w s) space_seqs"

lemma ends_with_space_shorter:
  assumes "ends_with_space s = Some w"
  shows "length (take (length s - length w) s) < length s"
proof -
  from assms have w: "w \<in> set space_seqs" "suffix w s"
    unfolding ends_with_space_def by (auto dest!: find_SomeD)
  then have "w \<noteq> []" by (simp add: space_seqs_nonempty)
  with w show ?thesis by (auto simp: suffix_def)
qed

function trim_right :: "string \<Rightarrow> string" where
  "trim_right s =
     (case ends_with_space s of None \<Rightarrow> s | Some w \<Rightarrow> trim_right (take (length s - length w) s))"
  by pat_completeness auto
termination
  by (relation "measure length") (auto dest: ends_with_space_shorter)

declare trim_left.simps [simp del] trim_right.simps [simp del]

definition trim_space :: "string \<Rightarrow> string" where
  "trim_space s = trim_right (trim_left s)"

text \<open>Printable ASCII without the blank is never trimmed.\<close>

definition graphic :: "char \<Rightarrow> bool" where
  "graphic c \<longleftrightarrow> 33 \<le> (of_char c :: nat) \<and> (of_char c :: nat) \<le> 126"

lemma space_seqs_not_graphic: "w \<in> set space_seqs \<Longrightarrow> c \<in> set w \<Longrightarrow> \<not> graphic c"
  by (auto simp: space_seqs_def utf8_def graphic_def)

lemma trim_space_graphic:
  assumes "list_all graphic s"
  shows "trim_space s = s"
proof -
  have no: "\<not> prefix w s" "\<not> suffix w s" if "w \<in> set space_seqs" for w
  proof -
    from space_seqs_nonempty [OF that] obtain c where c: "c \<in> set w" by (cases w) auto
    then have "c \<notin> set s" using space_seqs_not_graphic [OF that c] assms by (auto simp: list_all_iff)
    then show "\<not> prefix w s" "\<not> suffix w s"
      using c by (auto dest: set_mono_prefix set_mono_suffix)
  qed
  then have "starts_with_space s = None" "ends_with_space s = None"
    by (auto simp: starts_with_space_def ends_with_space_def find_None_iff)
  then show ?thesis by (simp add: trim_space_def trim_left.simps [of s] trim_right.simps [of s])
qed

text \<open>\<open>strconv.Itoa\<close> and the \<open>%d\<close> verb.\<close>

fun digits10 :: "nat \<Rightarrow> string" where
  "digits10 n = (if n < 10 then [char_of (48 + n)] else digits10 (n div 10) @ [char_of (48 + n mod 10)])"

declare digits10.simps [simp del]

definition itoa :: "int \<Rightarrow> string" where
  "itoa i = (if i < 0 then CHR ''-'' # digits10 (nat (- i)) else digits10 (nat i))"

text \<open>
  \<open>strconv.Atoi\<close>: \<open>parse_digits\<close> is the loop of \<open>ParseUint\<close> for base 10, with the early
  exits of its overflow checks.
\<close>

datatype num_error = Syntax_Error | Range_Error

definition max_uint64 :: nat where
  "max_uint64 = 18446744073709551615"

definition is_digit :: "char \<Rightarrow> bool" where
  "is_digit c \<longleftrightarrow> 48 \<le> (of_char c :: nat) \<and> (of_char c :: nat) \<le> 57"

primrec parse_digits :: "nat \<Rightarrow> string \<Rightarrow> num_error + nat" where
  "parse_digits n [] = Inr n"
| "parse_digits n (c # cs) =
     (if \<not> is_digit c then Inl Syntax_Error
      else if n \<ge> max_uint64 div 10 + 1 then Inl Range_Error
      else let n1 = n * 10 + (of_char c - 48) in
           if n1 > max_uint64 then Inl Range_Error else parse_digits n1 cs)"

definition split_sign :: "string \<Rightarrow> bool \<times> string" where
  "split_sign s =
     (case s of
        c # cs \<Rightarrow> if c = CHR ''-'' then (True, cs) else if c = CHR ''+'' then (False, cs) else (False, s)
      | [] \<Rightarrow> (False, s))"

definition parse_int :: "string \<Rightarrow> num_error + int" where
  "parse_int s =
     (case split_sign s of
        (neg, ds) \<Rightarrow>
          if ds = [] then Inl Syntax_Error
          else (case parse_digits 0 ds of
                  Inl e \<Rightarrow> Inl e
                | Inr n \<Rightarrow>
                    if \<not> neg \<and> n \<ge> 9223372036854775808 then Inl Range_Error
                    else if neg \<and> n > 9223372036854775808 then Inl Range_Error
                    else Inr (if neg then - int n else int n)))"

definition Atoi :: "string \<Rightarrow> int res" where
  "Atoi s =
     (case parse_int s of
        Inr i \<Rightarrow> Inr i
      | Inl Syntax_Error \<Rightarrow> Inl (Errorf [Txt ''strconv.Atoi: parsing '', Quo s, Txt '': invalid syntax''])
      | Inl Range_Error \<Rightarrow> Inl (Errorf [Txt ''strconv.Atoi: parsing '', Quo s, Txt '': value out of range'']))"

lemma parse_digits_append:
  "parse_digits n (xs @ ys) = (case parse_digits n xs of Inl e \<Rightarrow> Inl e | Inr m \<Rightarrow> parse_digits m ys)"
  by (induction xs arbitrary: n) (auto simp: Let_def)

lemma digit_char: "d < 10 \<Longrightarrow> is_digit (char_of (48 + d)) \<and> of_char (char_of (48 + d) :: char) - 48 = (d :: nat)"
  by (simp add: is_digit_def)

lemma digit_char_inj:
  assumes "a < (10 :: nat)" "b < (10 :: nat)"
  shows "(char_of (48 + a) :: char) = char_of (48 + b) \<longleftrightarrow> a = b"
proof
  assume "(char_of (48 + a) :: char) = char_of (48 + b)"
  then have "of_char (char_of (48 + a) :: char) - (48 :: nat) = of_char (char_of (48 + b) :: char) - 48" by (simp only:)
  then show "a = b" using assms by (simp only: digit_char)
qed simp

lemma parse_digits_digits10: "m \<le> max_uint64 \<Longrightarrow> parse_digits 0 (digits10 m) = Inr m"
proof (induction m rule: digits10.induct)
  case (1 m)
  show ?case
  proof (cases "m < 10")
    case True
    with digit_char [of m] show ?thesis by (subst digits10.simps) (simp add: max_uint64_def)
  next
    case False
    with "1.IH" "1.prems" have "parse_digits 0 (digits10 (m div 10)) = Inr (m div 10)" by simp
    with False "1.prems" digit_char [of "m mod 10"] show ?thesis
      by (subst digits10.simps) (simp add: parse_digits_append Let_def not_le div_le_mono less_Suc_eq_le)
  qed
qed

lemma parse_digits_overflow: "m > max_uint64 \<Longrightarrow> parse_digits 0 (digits10 m) = Inl Range_Error"
proof (induction m rule: digits10.induct)
  case (1 m)
  then have big: "\<not> m < 10" by (simp add: max_uint64_def)
  show ?case
  proof (cases "m div 10 > max_uint64")
    case True
    with big "1.IH" have "parse_digits 0 (digits10 (m div 10)) = Inl Range_Error" by simp
    with big show ?thesis by (subst digits10.simps) (simp add: parse_digits_append)
  next
    case False
    then have "parse_digits 0 (digits10 (m div 10)) = Inr (m div 10)" by (simp add: parse_digits_digits10)
    with big "1.prems" digit_char [of "m mod 10"] show ?thesis
      by (subst digits10.simps) (simp add: parse_digits_append Let_def)
  qed
qed

lemma digits10_digits: "c \<in> set (digits10 m) \<Longrightarrow> is_digit c"
proof (induction m rule: digits10.induct)
  case (1 m)
  with digit_char [of "m mod 10"] digit_char [of m] show ?case
    by (cases "m < 10") (auto simp: digits10.simps [of m])
qed

lemma digits10_nonempty [simp]: "digits10 m \<noteq> []"
  by (simp add: digits10.simps [of m])

lemma split_sign_digits: "split_sign (digits10 m) = (False, digits10 m)"
proof -
  obtain c cs where d: "digits10 m = c # cs" by (cases "digits10 m") auto
  then have "is_digit c" using digits10_digits [of c m] by simp
  then have "c \<noteq> CHR ''-''" "c \<noteq> CHR ''+''" by (auto simp: is_digit_def)
  with d show ?thesis by (simp add: split_sign_def)
qed

lemma itoa_nonempty: "itoa i \<noteq> ''''"
  by (simp add: itoa_def)

lemma Atoi_itoa:
  assumes "- (2 ^ 63) \<le> i" "i < 2 ^ 63"
  shows "Atoi (itoa i) = Inr i"
proof (cases "i < 0")
  case True
  then have "split_sign (itoa i) = (True, digits10 (nat (- i)))" by (simp add: itoa_def split_sign_def)
  with True assms parse_digits_digits10 [of "nat (- i)"] show ?thesis
    by (simp add: Atoi_def parse_int_def max_uint64_def)
next
  case False
  with assms parse_digits_digits10 [of "nat i"] show ?thesis
    by (simp add: Atoi_def parse_int_def itoa_def split_sign_digits max_uint64_def)
qed

lemma Atoi_itoa_overflow:
  assumes "i < - (2 ^ 63) \<or> 2 ^ 63 \<le> i"
  shows "Atoi (itoa i) = Inl (Errorf [Txt ''strconv.Atoi: parsing '', Quo (itoa i), Txt '': value out of range''])"
proof -
  have ds: "parse_digits 0 (digits10 m) = Inr m \<or> parse_digits 0 (digits10 m) = Inl Range_Error" for m
    using parse_digits_digits10 [of m] parse_digits_overflow [of m] by (cases "m \<le> max_uint64") auto
  have sign: "split_sign (itoa i) = (i < 0, digits10 (nat \<bar>i\<bar>))"
    by (simp add: itoa_def split_sign_digits) (simp add: split_sign_def)
  have big: "if i < 0 then nat \<bar>i\<bar> > 9223372036854775808 else nat \<bar>i\<bar> \<ge> 9223372036854775808"
    using assms by auto
  from ds [of "nat \<bar>i\<bar>"] have "parse_int (itoa i) = Inl Range_Error"
  proof
    assume "parse_digits 0 (digits10 (nat \<bar>i\<bar>)) = Inr (nat \<bar>i\<bar>)"
    with big show ?thesis by (cases "i < 0") (simp_all add: parse_int_def sign)
  qed (simp add: parse_int_def sign)
  then show ?thesis by (simp add: Atoi_def)
qed

lemma digits10_inj: "digits10 m = digits10 n \<longleftrightarrow> m = n"
proof
  have "0 < length (digits10 k)" for k by simp
  assume "digits10 m = digits10 n"
  then show "m = n"
  proof (induction m arbitrary: n rule: digits10.induct)
    case (1 m)
    have len: "length (digits10 k) = 1 \<longleftrightarrow> k < 10" for k by (simp add: digits10.simps [of k])
    show ?case
    proof (cases "m < 10")
      case True
      with 1(2) len [of m] len [of n] have "n < 10" by simp
      with True 1(2) digit_char [of m] digit_char [of n] show ?thesis
        by (simp add: digits10.simps [of m] digits10.simps [of n])
    next
      case False
      with 1(2) len [of m] len [of n] have n: "\<not> n < 10" by simp
      with False 1(2) have "digits10 (m div 10) = digits10 (n div 10)"
        and "(char_of (48 + m mod 10) :: char) = char_of (48 + n mod 10)"
        by (simp_all add: digits10.simps [of m] digits10.simps [of n])
      then have "m div 10 = n div 10" "m mod 10 = n mod 10"
        using 1(1) [OF False] digit_char_inj [of "m mod 10" "n mod 10"] by simp_all
      then show ?thesis by (metis div_mult_mod_eq)
    qed
  qed
qed simp

lemma itoa_inj: "itoa i = itoa j \<longleftrightarrow> i = j"
proof -
  have "hd (digits10 m) \<noteq> CHR ''-''" for m
    using digits10_digits [of "hd (digits10 m)" m] by (auto simp: is_digit_def)
  then show ?thesis
    by (auto simp: itoa_def digits10_inj dest: arg_cong [where f = hd])
       (metis list.sel(1))+
qed

subsection \<open>Paths\<close>

text \<open>\<open>filepath.Clean\<close> and \<open>filepath.Join\<close> on a Unix system.\<close>

definition clean_step :: "bool \<Rightarrow> string \<Rightarrow> string list \<Rightarrow> string list" where
  "clean_step rooted part out =
     (if part = '''' \<or> part = ''.'' then out
      else if part = ''..'' then
        (if out \<noteq> [] \<and> last out \<noteq> ''..'' then butlast out
         else if rooted then out else out @ [part])
      else out @ [part])"

definition filepath_clean :: "string \<Rightarrow> string" where
  "filepath_clean p =
     (let rooted = (case p of c # _ \<Rightarrow> c = CHR ''/'' | [] \<Rightarrow> False);
          out = fold (clean_step rooted) (split_on CHR ''/'' p) []
      in if rooted then CHR ''/'' # go_join ''/'' out
         else if out = [] then ''.'' else go_join ''/'' out)"

definition filepath_join :: "string list \<Rightarrow> string" where
  "filepath_join elems =
     (let parts = dropWhile (\<lambda>e. e = '''') elems
      in if parts = [] then '''' else filepath_clean (go_join ''/'' parts))"

subsection \<open>Go maps\<close>

text \<open>
  A Go map is kept as an association list with distinct keys. Its order is the order in
  which one particular \<open>range\<close> loop visits it, which Go leaves open; a lookup is
  \<^term>\<open>map_of\<close>. Two lists stand for the same map when their lookups agree.
\<close>

type_synonym 'v gomap = "(string \<times> 'v) list"

definition gomap_ok :: "'v gomap \<Rightarrow> bool" where
  "gomap_ok m = distinct (map fst m)"

definition same_gomap :: "'v gomap \<Rightarrow> 'v gomap \<Rightarrow> bool" where
  "same_gomap m m' \<longleftrightarrow> gomap_ok m \<and> gomap_ok m' \<and> map_of m = map_of m'"

lemma same_gomap_set:
  assumes "same_gomap m m'"
  shows "set m = set m'"
proof -
  have "(k, v) \<in> set m \<longleftrightarrow> (k, v) \<in> set m'" for k v
    using assms map_of_eq_Some_iff [of m k v] map_of_eq_Some_iff [of m' k v]
    by (simp add: same_gomap_def gomap_ok_def)
  then show ?thesis by auto
qed

lemma same_gomap_keys:
  assumes "same_gomap m m'"
  shows "sort (map fst m) = sort (map fst m')"
proof (rule properties_for_sort)
  from assms have "mset (map fst m) = mset (map fst m')"
    by (intro set_eq_iff_mset_eq_distinct [THEN iffD1])
       (auto simp: same_gomap_set [OF assms] same_gomap_def gomap_ok_def)
  then show "mset (sort (map fst m')) = mset (map fst m)" by simp
  show "sorted (sort (map fst m'))" by simp
qed

end
