(* ===== verification/Effects.thy ===== *)
theory Effects
  imports Prelude
begin

text \<open>
  Stateful and concurrent code.

  A goroutine is a \<open>prog\<close>: a sequence of atomic steps on the shared state that ends in
  a value. One atomic step is what the code does without giving another goroutine a
  chance to see an intermediate state: a critical section of a mutex, or one call of an
  external service. A step updates the state and chooses the rest of the program from the
  state it found, so a \<open>prog\<close> is a deterministic program, and all nondeterminism is
  in the order of the steps of different goroutines.

  \<open>run\<close> executes a program alone. \<open>par sched ps\<close> is the fork/join of the code
  (a \<open>sync.WaitGroup\<close> and one goroutine for each element of a slice): the schedule
  names the goroutine that moves next, and when it is used up the remaining work is done
  from left to right. \<open>par\<close> with all schedules is exactly the set of all interleavings
  (\<open>par_interleavings\<close>). \<open>holds I p Q\<close> says that every step of \<open>p\<close> keeps the
  invariant \<open>I\<close> and that the result satisfies \<open>Q\<close>, whatever other goroutines that
  keep \<open>I\<close> do between the steps.
\<close>

named_theorems run_simps \<open>execution of programs, step by step\<close>
named_theorems holds_intros \<open>rules of the invariant calculus\<close>

subsection \<open>Programs\<close>

datatype ('s, 'a) prog = Done 'a | Atom "'s \<Rightarrow> 's" "'s \<Rightarrow> ('s, 'a) prog"

primrec pbind :: "('s, 'a) prog \<Rightarrow> ('a \<Rightarrow> ('s, 'b) prog) \<Rightarrow> ('s, 'b) prog" where
  "pbind (Done a) k = k a"
| "pbind (Atom u c) k = Atom u (\<lambda>s. pbind (c s) k)"

definition call :: "('s \<Rightarrow> 'a \<times> 's) \<Rightarrow> ('s, 'a) prog" where
  "call f = Atom (\<lambda>s. snd (f s)) (\<lambda>s. Done (fst (f s)))"

primrec run :: "('s, 'a) prog \<Rightarrow> 's \<Rightarrow> 'a \<times> 's" where
  "run (Done a) s = (a, s)"
| "run (Atom u c) s = run (c s) (u s)"

text \<open>Go's \<open>if err != nil { return err }\<close>: the rest runs only after a success.\<close>

definition ebind :: "('s, 'a res) prog \<Rightarrow> ('a \<Rightarrow> ('s, 'b res) prog) \<Rightarrow> ('s, 'b res) prog" where
  "ebind p k = pbind p (\<lambda>r. case r of Inl e \<Rightarrow> Done (Inl e) | Inr a \<Rightarrow> k a)"

text \<open>A loop over a slice whose body may return an error from the enclosing function.\<close>

primrec eloop :: "('x \<Rightarrow> ('s, 'a res) prog) \<Rightarrow> 'x list \<Rightarrow> ('s, 'a list res) prog" where
  "eloop f [] = Done (Inr [])"
| "eloop f (x # xs) =
     ebind (f x) (\<lambda>y. ebind (eloop f xs) (\<lambda>ys. Done (Inr (y # ys))))"

text \<open>\<open>return fmt.Errorf("...: %w", err)\<close> around one call.\<close>

definition wrap_err :: "frag list \<Rightarrow> ('s, 'a res) prog \<Rightarrow> ('s, 'a res) prog" where
  "wrap_err fs p = pbind p (\<lambda>r. Done (case r of Inl e \<Rightarrow> Inl (Wrapf fs e) | Inr a \<Rightarrow> Inr a))"

definition wrap_res :: "frag list \<Rightarrow> 'a res \<Rightarrow> 'a res" where
  "wrap_res fs r = (case r of Inl e \<Rightarrow> Inl (Wrapf fs e) | Inr a \<Rightarrow> Inr a)"

lemma pbind_assoc: "pbind (pbind p f) g = pbind p (\<lambda>a. pbind (f a) g)"
  by (induction p) auto

lemma pbind_Done [simp]: "pbind p Done = p"
  by (induction p) auto

lemma ebind_assoc: "ebind (ebind p f) g = ebind p (\<lambda>a. ebind (f a) g)"
  by (auto simp: ebind_def pbind_assoc fun_eq_iff intro!: arg_cong [of _ _ "pbind p"] split: sum.split)

lemma run_pbind [run_simps]:
  "run (pbind p k) s = (let (a, s') = run p s in run (k a) s')"
  by (induction p arbitrary: s) auto

lemma run_call [run_simps, simp]: "run (call f) s = f s"
  by (simp add: call_def)

lemma run_ebind [run_simps]:
  "run (ebind p k) s =
     (case run p s of (Inl e, s') \<Rightarrow> (Inl e, s') | (Inr a, s') \<Rightarrow> run (k a) s')"
  by (auto simp: ebind_def run_pbind split: prod.splits sum.splits)

lemma wrap_res_simps [simp]:
  "wrap_res fs (Inl e) = Inl (Wrapf fs e)" "wrap_res fs (Inr a) = Inr a"
  "wrap_res fs r = Inr a \<longleftrightarrow> r = Inr a"
  by (auto simp: wrap_res_def split: sum.splits)

lemma run_wrap_err [run_simps]:
  "run (wrap_err fs p) s = (case run p s of (r, s') \<Rightarrow> (wrap_res fs r, s'))"
  by (auto simp: wrap_err_def run_pbind wrap_res_def split: prod.splits sum.splits)

lemma ebind_Done_Inl [simp]: "ebind (Done (Inl e)) k = Done (Inl e)"
  by (simp add: ebind_def)

lemma ebind_Done_Inr [simp]: "ebind (Done (Inr a)) k = k a"
  by (simp add: ebind_def)

subsection \<open>Fork and join\<close>

primrec pseq :: "('s, 'a) prog list \<Rightarrow> ('s, 'a list) prog" where
  "pseq [] = Done []"
| "pseq (p # ps) = pbind p (\<lambda>a. pbind (pseq ps) (\<lambda>as. Done (a # as)))"

fun par :: "nat list \<Rightarrow> ('s, 'a) prog list \<Rightarrow> ('s, 'a list) prog" where
  "par [] ps = pseq ps"
| "par (i # sched) ps =
     (if i < length ps
      then (case ps ! i of
              Done a \<Rightarrow> par sched ps
            | Atom u c \<Rightarrow> Atom u (\<lambda>s. par sched (ps[i := c s])))
      else par sched ps)"

text \<open>One step of one goroutine of a pool; the pool is finished when all are \<open>Done\<close>.\<close>

inductive pool_step :: "'s \<times> ('s, 'a) prog list \<Rightarrow> 's \<times> ('s, 'a) prog list \<Rightarrow> bool" where
  step: "i < length ps \<Longrightarrow> ps ! i = Atom u c \<Longrightarrow> pool_step (s, ps) (u s, ps[i := c s])"

inductive_cases pool_stepE: "pool_step (s, ps) t"

abbreviation pool_steps ::
    "'s \<times> ('s, 'a) prog list \<Rightarrow> 's \<times> ('s, 'a) prog list \<Rightarrow> bool" where
  "pool_steps \<equiv> pool_step\<^sup>*\<^sup>*"

lemma pool_step_Cons:
  "pool_step (s, ps) (s', ps') \<Longrightarrow> pool_step (s, p # ps) (s', p # ps')"
proof (erule pool_stepE)
  fix i u c
  assume "i < length ps" "ps ! i = Atom u c" "(s', ps') = (u s, ps[i := c s])"
  then show "pool_step (s, p # ps) (s', p # ps')"
    using pool_step.step [of "Suc i" "p # ps" u c s] by simp
qed

lemma pool_steps_Cons:
  assumes "pool_steps (s, ps) (s', ps')"
  shows "pool_steps (s, p # ps) (s', p # ps')"
  using assms
proof (induction rule: rtranclp_induct2)
  case refl
  then show ?case by simp
next
  case (step s1 ps1 s2 ps2)
  then show ?case by (meson pool_step_Cons rtranclp.rtrancl_into_rtrancl)
qed

lemma pool_steps_run_head:
  "run p s = (a, s') \<Longrightarrow> pool_steps (s, p # ps) (s', Done a # ps)"
proof (induction p arbitrary: s)
  case (Done b)
  then show ?case by simp
next
  case (Atom u c)
  have "pool_step (s, Atom u c # ps) (u s, c s # ps)"
    using pool_step.step [of 0 "Atom u c # ps" u c s] by simp
  moreover have "pool_steps (u s, c s # ps) (s', Done a # ps)"
    using Atom by simp
  ultimately show ?case by (rule converse_rtranclp_into_rtranclp)
qed

lemma pool_steps_pseq:
  "run (pseq ps) s = (rs, s') \<Longrightarrow> pool_steps (s, ps) (s', map Done rs)"
proof (induction ps arbitrary: s s' rs)
  case Nil
  then show ?case by simp
next
  case (Cons p ps)
  obtain a s1 where p: "run p s = (a, s1)" by (cases "run p s")
  obtain as s2 where ps: "run (pseq ps) s1 = (as, s2)" by (cases "run (pseq ps) s1")
  have res: "rs = a # as" "s2 = s'"
    using Cons.prems p ps by (auto simp: run_simps)
  have "pool_steps (s, p # ps) (s1, Done a # ps)"
    using p by (rule pool_steps_run_head)
  also have "pool_steps (s1, Done a # ps) (s2, Done a # map Done as)"
    by (intro pool_steps_Cons Cons.IH [OF ps])
  finally show ?case using res by simp
qed

lemma pool_steps_par:
  "run (par sched ps) s = (rs, s') \<Longrightarrow> pool_steps (s, ps) (s', map Done rs)"
proof (induction sched ps arbitrary: s rule: par.induct)
  case (1 ps)
  then show ?case by (simp add: pool_steps_pseq)
next
  case (2 i sched ps)
  show ?case
  proof (cases "\<exists>u c. i < length ps \<and> ps ! i = Atom u c")
    case True
    then obtain u c where at: "i < length ps" "ps ! i = Atom u c" by blast
    then have "pool_steps (u s, ps[i := c s]) (s', map Done rs)"
      using 2 by simp
    with pool_step.step [OF at] show ?thesis
      by (rule converse_rtranclp_into_rtranclp)
  next
    case False
    then have "run (par sched ps) s = (rs, s')"
      using "2.prems" by (auto split: if_splits prog.splits)
    then show ?thesis
      using "2.IH" False by (cases "i < length ps"; cases "ps ! i") auto
  qed
qed

lemma run_pseq_Done: "run (pseq (map Done rs)) s = (rs, s)"
  by (induction rs) (auto simp: run_simps)

text \<open>Every complete interleaving of the goroutines is a run of \<open>par\<close>, and back.\<close>

lemma par_interleavings:
  "pool_steps (s, ps) (s', map Done rs) \<longleftrightarrow> (\<exists>sched. run (par sched ps) s = (rs, s'))"
proof
  assume "pool_steps (s, ps) (s', map Done rs)"
  then show "\<exists>sched. run (par sched ps) s = (rs, s')"
  proof (induction rule: converse_rtranclp_induct2)
    case refl
    have "run (par [] (map Done rs)) s' = (rs, s')" by (simp add: run_pseq_Done)
    then show ?case by blast
  next
    case (step s1 ps1 s2 ps2)
    then obtain sched where sched: "run (par sched ps2) s2 = (rs, s')" by blast
    from step(1) obtain i u c where
      "i < length ps1" "ps1 ! i = Atom u c" "s2 = u s1" "ps2 = ps1[i := c s1]"
      by (auto elim!: pool_stepE)
    with sched have "run (par (i # sched) ps1) s1 = (rs, s')" by simp
    then show ?case by blast
  qed
next
  assume "\<exists>sched. run (par sched ps) s = (rs, s')"
  then show "pool_steps (s, ps) (s', map Done rs)" by (auto intro: pool_steps_par)
qed

subsection \<open>Invariants that survive every interleaving\<close>

primrec holds :: "('s \<Rightarrow> bool) \<Rightarrow> ('s, 'a) prog \<Rightarrow> ('a \<Rightarrow> bool) \<Rightarrow> bool" where
  "holds I (Done a) Q = Q a"
| "holds I (Atom u c) Q = (\<forall>s. I s \<longrightarrow> I (u s) \<and> holds I (c s) Q)"

definition on_ok :: "('a \<Rightarrow> bool) \<Rightarrow> 'a res \<Rightarrow> bool" where
  "on_ok Q r = (case r of Inl e \<Rightarrow> True | Inr a \<Rightarrow> Q a)"

lemma on_ok_simps [simp]: "on_ok Q (Inl e)" "on_ok Q (Inr a) = Q a"
  by (simp_all add: on_ok_def)

lemma holds_conseq: "holds I p Q \<Longrightarrow> (\<And>a. Q a \<Longrightarrow> Q' a) \<Longrightarrow> holds I p Q'"
  by (induction p) auto

lemma holds_conj:
  "holds I p Q \<Longrightarrow> holds I' p Q' \<Longrightarrow> holds (\<lambda>s. I s \<and> I' s) p (\<lambda>a. Q a \<and> Q' a)"
  by (induction p) auto

lemma holds_call [holds_intros]:
  "(\<And>s. I s \<Longrightarrow> I (snd (f s)) \<and> Q (fst (f s))) \<Longrightarrow> holds I (call f) Q"
  by (simp add: call_def)

lemma holds_pbind [holds_intros]:
  "holds I p Q' \<Longrightarrow> (\<And>a. Q' a \<Longrightarrow> holds I (k a) Q) \<Longrightarrow> holds I (pbind p k) Q"
  by (induction p) auto

lemma holds_ebind [holds_intros]:
  assumes "holds I p (on_ok Q')" and "\<And>a. Q' a \<Longrightarrow> holds I (k a) (on_ok Q)"
  shows "holds I (ebind p k) (on_ok Q)"
  unfolding ebind_def
  by (rule holds_pbind [OF assms(1)]) (auto split: sum.splits intro: assms(2))

lemma holds_eloop:
  assumes "\<And>x. x \<in> set xs \<Longrightarrow> holds I (f x) (on_ok (Q x))"
  shows "holds I (eloop f xs) (on_ok (\<lambda>ys. list_all2 Q xs ys))"
  using assms
proof (induction xs)
  case Nil
  then show ?case by simp
next
  case (Cons x xs)
  have "holds I (eloop f xs) (on_ok (\<lambda>ys. list_all2 Q xs ys))"
    using Cons by simp
  then have "holds I (ebind (eloop f xs) (\<lambda>ys. Done (Inr (y # ys))))
      (on_ok (\<lambda>ys. list_all2 Q (x # xs) ys))" if "Q x y" for y
    using that by (rule_tac holds_ebind) auto
  with Cons.prems show ?case
    by (simp, rule_tac holds_ebind [where Q' = "Q x"]) auto
qed

lemma holds_run: "holds I p Q \<Longrightarrow> I s \<Longrightarrow> I (snd (run p s)) \<and> Q (fst (run p s))"
  by (induction p arbitrary: s) auto

lemma holds_wrap_err [holds_intros]:
  "holds I p (on_ok Q) \<Longrightarrow> holds I (wrap_err fs p) (on_ok Q)"
  unfolding wrap_err_def by (erule holds_pbind) (auto split: sum.splits)

text \<open>\<open>yields p a\<close>: some behaviour of its surroundings makes \<open>p\<close> return \<open>a\<close>.\<close>

primrec yields :: "('s, 'a) prog \<Rightarrow> 'a \<Rightarrow> bool" where
  "yields (Done a) b = (a = b)"
| "yields (Atom u c) b = (\<exists>s. yields (c s) b)"

lemma yields_holds: "holds (\<lambda>_. True) p (yields p)"
proof (induction p)
  case (Atom u c)
  have "holds (\<lambda>_. True) (c s) (yields (Atom u c))" for s
    by (rule holds_conseq [OF Atom]) auto
  then show ?case by (simp only: holds.simps simp_thms)
qed simp

lemma holds_yields: "holds I p (\<lambda>_. True) \<Longrightarrow> holds I p (yields p)"
  using holds_conj [OF _ yields_holds [of p]] by fastforce

lemma holds_ebind_any:
  "holds I p (\<lambda>_. True) \<Longrightarrow> (\<And>a. holds I (k a) (on_ok Q)) \<Longrightarrow> holds I (ebind p k) (on_ok Q)"
  unfolding ebind_def by (erule holds_pbind) (simp split: sum.split)

text \<open>\<open>preserves v p\<close>: no step of \<open>p\<close> changes the part \<open>v\<close> of the state.\<close>

primrec preserves :: "('s \<Rightarrow> 'x) \<Rightarrow> ('s, 'a) prog \<Rightarrow> bool" where
  "preserves v (Done a) = True"
| "preserves v (Atom u c) = (\<forall>s. v (u s) = v s \<and> preserves v (c s))"

lemma preserves_call: "(\<And>s. v (snd (f s)) = v s) \<Longrightarrow> preserves v (call f)"
  by (simp add: call_def)

lemma preserves_pbind: "preserves v p \<Longrightarrow> (\<And>a. preserves v (k a)) \<Longrightarrow> preserves v (pbind p k)"
  by (induction p) auto

lemma preserves_ebind: "preserves v p \<Longrightarrow> (\<And>a. preserves v (k a)) \<Longrightarrow> preserves v (ebind p k)"
  unfolding ebind_def by (rule preserves_pbind) (auto split: sum.split)

lemma preserves_wrap_err: "preserves v p \<Longrightarrow> preserves v (wrap_err fs p)"
  unfolding wrap_err_def by (rule preserves_pbind) auto

lemma preserves_eloop: "(\<And>x. preserves v (f x)) \<Longrightarrow> preserves v (eloop f xs)"
  by (induction xs) (auto intro!: preserves_ebind)

lemma preserves_holds: "preserves v p \<Longrightarrow> holds (\<lambda>s. P (v s)) p (\<lambda>_. True)"
  by (induction p) auto

lemma preserves_run: "preserves v p \<Longrightarrow> v (snd (run p s)) = v s"
  using holds_run [OF preserves_holds [of v p "\<lambda>x. x = v s"], of s] by simp

lemmas preserves_intros = preserves_pbind preserves_ebind preserves_wrap_err preserves_eloop preserves_call

definition pool_holds :: "('s \<Rightarrow> bool) \<Rightarrow> ('s, 'a) prog list \<Rightarrow> (nat \<Rightarrow> 'a \<Rightarrow> bool) \<Rightarrow> bool" where
  "pool_holds I ps Q \<longleftrightarrow> (\<forall>i < length ps. holds I (ps ! i) (Q i))"

lemma pool_holds_update:
  "pool_holds I ps Q \<Longrightarrow> i < length ps \<Longrightarrow> holds I p (Q i) \<Longrightarrow> pool_holds I (ps[i := p]) Q"
  by (auto simp: pool_holds_def nth_list_update)

lemma holds_pseq:
  "pool_holds I ps Q \<Longrightarrow>
   holds I (pseq ps) (\<lambda>rs. length rs = length ps \<and> (\<forall>i < length ps. Q i (rs ! i)))"
proof (induction ps arbitrary: Q)
  case Nil
  then show ?case by simp
next
  case (Cons p ps)
  have p: "holds I p (Q 0)"
    using Cons.prems by (auto simp: pool_holds_def)
  have "pool_holds I ps (\<lambda>i. Q (Suc i))"
    using Cons.prems by (auto simp: pool_holds_def)
  then have ps: "holds I (pseq ps) (\<lambda>rs. length rs = length ps \<and> (\<forall>i < length ps. Q (Suc i) (rs ! i)))"
    by (rule Cons.IH)
  have "holds I (pbind (pseq ps) (\<lambda>as. Done (a # as)))
      (\<lambda>rs. length rs = length (p # ps) \<and> (\<forall>i < length (p # ps). Q i (rs ! i)))" if "Q 0 a" for a
    by (rule holds_pbind [OF ps]) (use that in \<open>auto simp: less_Suc_eq_0_disj\<close>)
  then show ?case
    by (simp, rule_tac holds_pbind [OF p]) simp
qed

lemma holds_par:
  "pool_holds I ps Q \<Longrightarrow>
   holds I (par sched ps) (\<lambda>rs. length rs = length ps \<and> (\<forall>i < length ps. Q i (rs ! i)))"
proof (induction sched ps rule: par.induct)
  case (1 ps)
  then show ?case by (simp add: holds_pseq)
next
  case (2 i sched ps)
  show ?case
  proof (cases "\<exists>u c. i < length ps \<and> ps ! i = Atom u c")
    case True
    then obtain u c where at: "i < length ps" "ps ! i = Atom u c" by blast
    have hd: "holds I (Atom u c) (Q i)"
      using "2.prems" at by (auto simp: pool_holds_def)
    have "holds I (par sched (ps[i := c s]))
        (\<lambda>rs. length rs = length ps \<and> (\<forall>i < length ps. Q i (rs ! i)))" if "I s" for s
    proof -
      have "pool_holds I (ps[i := c s]) Q"
        using "2.prems" at(1) hd that by (intro pool_holds_update) auto
      with 2(2) [OF at, of s] show ?thesis by simp
    qed
    with at hd show ?thesis by simp
  next
    case False
    then show ?thesis
      using 2 by (cases "i < length ps"; cases "ps ! i") auto
  qed
qed

lemma preserves_pseq: "\<forall>p \<in> set ps. preserves v p \<Longrightarrow> preserves v (pseq ps)"
  by (induction ps) (auto intro!: preserves_pbind)

lemma preserves_par: "\<forall>p \<in> set ps. preserves v p \<Longrightarrow> preserves v (par sched ps)"
proof (induction sched ps rule: par.induct)
  case (1 ps)
  then show ?case by (simp add: preserves_pseq)
next
  case (2 i sched ps)
  show ?case
  proof (cases "\<exists>u c. i < length ps \<and> ps ! i = Atom u c")
    case True
    then obtain u c where at: "i < length ps" "ps ! i = Atom u c" by blast
    with "2.prems" have hd: "preserves v (Atom u c)" by (metis nth_mem)
    have "preserves v (par sched (ps[i := c s]))" for s
      using 2(2) [OF at, of s] hd "2.prems" set_update_subset_insert [of ps i "c s"] by auto
    with at hd show ?thesis by simp
  next
    case False
    then show ?thesis using 2 by (cases "i < length ps"; cases "ps ! i") auto
  qed
qed

text \<open>
  The daemon serves several calls at once. In \<open>world_step env\<close> the pool of running calls
  moves as in \<open>pool_step\<close>, or the environment changes the shared state as \<open>env\<close> allows
  (time passes, a timer fires).
\<close>

inductive world_step ::
    "('s \<Rightarrow> 's \<Rightarrow> bool) \<Rightarrow> 's \<times> ('s, 'a) prog list \<Rightarrow> 's \<times> ('s, 'a) prog list \<Rightarrow> bool"
  for env where
  internal: "pool_step (s, ps) t \<Longrightarrow> world_step env (s, ps) t"
| external: "env s s' \<Longrightarrow> world_step env (s, ps) (s', ps)"

lemma world_of_pool: "pool_steps a b \<Longrightarrow> (world_step env)\<^sup>*\<^sup>* a b"
proof (induction rule: rtranclp_induct)
  case base
  then show ?case by simp
next
  case (step y z)
  have "world_step env (fst y, snd y) z" using step(2) by (intro world_step.internal) simp
  with step(3) show ?case by simp
qed

lemma world_step_holds:
  assumes "world_step env (s, ps) (s', ps')" "I s" "pool_holds I ps Q"
    and env: "\<And>s s'. env s s' \<Longrightarrow> I s \<Longrightarrow> I s'"
  shows "I s' \<and> pool_holds I ps' Q \<and> length ps' = length ps"
  using assms(1)
proof cases
  case internal
  then obtain i u c where at: "i < length ps" "ps ! i = Atom u c"
    and eq: "s' = u s" "ps' = ps[i := c s]" by (auto elim!: pool_stepE)
  have "holds I (Atom u c) (Q i)"
    using assms(3) at by (auto simp: pool_holds_def)
  with assms(2,3) at(1) eq show ?thesis by (auto intro!: pool_holds_update)
next
  case external
  with assms show ?thesis by (auto intro: env)
qed

lemma world_steps_holds:
  assumes "(world_step env)\<^sup>*\<^sup>* (s, ps) (s', ps')" "I s" "pool_holds I ps Q"
    and env: "\<And>s s'. env s s' \<Longrightarrow> I s \<Longrightarrow> I s'"
  shows "I s' \<and> pool_holds I ps' Q \<and> length ps' = length ps"
  using assms(1)
proof (induction rule: rtranclp_induct2)
  case refl
  with assms show ?case by simp
next
  case (step s1 ps1 s2 ps2)
  then show ?case using world_step_holds [OF step(2), of I Q] env by auto
qed

lemma world_steps_result:
  assumes "(world_step env)\<^sup>*\<^sup>* (s, ps) (s', ps')" "I s" "pool_holds I ps Q"
    and env: "\<And>s s'. env s s' \<Longrightarrow> I s \<Longrightarrow> I s'"
    and "i < length ps" "ps' ! i = Done a"
  shows "Q i a"
proof -
  have "pool_holds I ps' Q \<and> length ps' = length ps"
    using world_steps_holds [OF assms(1-3)] env by blast
  with assms(5,6) show ?thesis by (force simp: pool_holds_def)
qed


subsection \<open>Programs come to an end\<close>

text \<open>
  A program branches over the state it finds, but every path through it is finite. A pool can
  therefore only make finitely many steps, however they interleave with the environment.
\<close>

definition prog_next :: "(('s, 'a) prog \<times> ('s, 'a) prog) set" where
  "prog_next = {(q, p). \<exists>u c s. p = Atom u c \<and> q = c s}"

lemma wf_prog_next: "wf (prog_next :: (('s, 'a) prog \<times> ('s, 'a) prog) set)"
proof (unfold wf_def, intro allI impI)
  fix P :: "('s, 'a) prog \<Rightarrow> bool" and p
  assume step: "\<forall>p. (\<forall>q. (q, p) \<in> prog_next \<longrightarrow> P q) \<longrightarrow> P p"
  show "P p"
  proof (induction p)
    case (Done a)
    from step [THEN spec, of "Done a"] show ?case by (simp add: prog_next_def)
  next
    case (Atom u c)
    from step [THEN spec, of "Atom u c"] Atom show ?case by (auto simp: prog_next_def)
  qed
qed

lemma pool_step_decreases:
  assumes "pool_step (s, ps) (s', ps')"
  shows "(mset ps', mset ps) \<in> mult prog_next"
proof -
  from assms obtain i u c where at: "i < length ps" "ps ! i = Atom u c" and ps': "ps' = ps[i := c s]"
    by (auto elim!: pool_stepE)
  have "(mset ps - {#ps ! i#} + {#c s#}, mset ps - {#ps ! i#} + {#ps ! i#}) \<in> mult prog_next"
    by (rule one_step_implies_mult) (use at in \<open>auto simp: prog_next_def\<close>)
  moreover have "mset ps - {#ps ! i#} + {#ps ! i#} = mset ps" using at(1) by simp
  ultimately show ?thesis using at(1) ps' by (simp add: mset_update)
qed

lemma world_step_decreases:
  assumes "world_step env (s, ps) (s', ps')" "ps' \<noteq> ps"
  shows "(mset ps', mset ps) \<in> mult prog_next"
  using assms(1)
proof cases
  case internal
  then show ?thesis by (rule pool_step_decreases)
qed (use assms(2) in simp)

lemma world_step_length: "world_step env t t' \<Longrightarrow> length (snd t') = length (snd t)"
  by (induction rule: world_step.induct) (auto elim!: pool_stepE pool_step.cases)

lemma world_settles:
  assumes "\<And>i. world_step env (f i) (f (Suc i))"
  shows "\<exists>N. \<forall>i \<ge> N. snd (f i) = snd (f N)"
proof -
  let ?m = "\<lambda>i. mset (snd (f i))"
  have "wf (mult prog_next)" by (rule wf_mult [OF wf_prog_next])
  then obtain z where "z \<in> range ?m" "\<forall>y. (y, z) \<in> mult prog_next \<longrightarrow> y \<notin> range ?m"
    by (rule wfE_min [where Q = "range ?m" and x = "?m 0"]) auto
  then obtain N where N: "\<forall>j. (?m j, ?m N) \<notin> mult prog_next" by blast
  have "snd (f (N + k)) = snd (f N)" for k
  proof (induction k)
    case (Suc k)
    have "world_step env (fst (f (N + k)), snd (f (N + k))) (fst (f (Suc (N + k))), snd (f (Suc (N + k))))"
      using assms [of "N + k"] by simp
    then have "snd (f (Suc (N + k))) = snd (f (N + k))"
      using world_step_decreases [of env _ "snd (f (N + k))"] N Suc by metis
    with Suc show ?case by simp
  qed simp
  then show ?thesis by (metis le_Suc_ex)
qed

text \<open>Under a scheduler that lets an unfinished pool move, all its programs finish.\<close>

lemma world_finishes:
  assumes "\<And>i. world_step env (f i) (f (Suc i))"
    and "\<And>i. \<exists>p \<in> set (snd (f i)). \<forall>a. p \<noteq> Done a \<Longrightarrow> \<exists>j \<ge> i. snd (f (Suc j)) \<noteq> snd (f j)"
  shows "\<exists>N out. \<forall>i \<ge> N. snd (f i) = map Done out"
proof -
  obtain N where N: "\<forall>i \<ge> N. snd (f i) = snd (f N)" using world_settles [of env f] assms(1) by blast
  have "\<forall>p \<in> set (snd (f N)). \<exists>a. p = Done a"
  proof (rule ccontr)
    assume "\<not> (\<forall>p \<in> set (snd (f N)). \<exists>a. p = Done a)"
    then obtain j where "j \<ge> N" "snd (f (Suc j)) \<noteq> snd (f j)" using assms(2) [of N] by blast
    with N show False by (metis le_SucI)
  qed
  then have "\<exists>out. snd (f N) = map Done out" by (simp add: ex_map_conv)
  then obtain out where "snd (f N) = map Done out" by blast
  with N show ?thesis by auto
qed


text \<open>A program that runs alone, one step at a time.\<close>

primrec alone :: "('s, 'a) prog \<Rightarrow> 's \<Rightarrow> nat \<Rightarrow> 's \<times> ('s, 'a) prog" where
  "alone p s 0 = (s, p)"
| "alone p s (Suc i) = (case alone p s i of (s', Done a) \<Rightarrow> (s', Done a) | (s', Atom u c) \<Rightarrow> (u s', c s'))"

definition pool_of :: "'s \<times> ('s, 'a) prog \<Rightarrow> 's \<times> ('s, 'a) prog list" where
  "pool_of t = (fst t, [snd t])"

lemma alone_step:
  assumes "\<And>s. env s s"
  shows "world_step env (pool_of (alone p s i)) (pool_of (alone p s (Suc i)))"
proof -
  obtain s' q where at: "alone p s i = (s', q)" by force
  show ?thesis
  proof (cases q)
    case (Done a)
    with at assms show ?thesis by (simp add: pool_of_def world_step.external)
  next
    case (Atom u c)
    with pool_step.step [of 0 "[q]" u c s'] have "pool_step (s', [q]) (u s', [c s'])" by simp
    with at Atom show ?thesis by (simp add: pool_of_def world_step.internal)
  qed
qed

lemma alone_moves:
  assumes "\<forall>a. snd (alone p s i) \<noteq> Done a"
  shows "snd (alone p s (Suc i)) \<noteq> snd (alone p s i)"
proof -
  obtain s' u c where at: "alone p s i = (s', Atom u c)"
    using assms by (cases "alone p s i"; cases "snd (alone p s i)") auto
  have "(c s', Atom u c) \<in> prog_next" by (auto simp: prog_next_def)
  with wf_not_refl [OF wf_prog_next] have "c s' \<noteq> Atom u c" by metis
  with at show ?thesis by simp
qed

end
