(* ===== verification/Rely.thy ===== *)
theory Rely
  imports Effects
begin

text \<open>
  Rely and guarantee for pools of programs.

  The calculus \<open>holds\<close> is about invariants that every step keeps. Some properties are broken
  for a while by one program, which then restores them: a process that has been started but
  is not yet in a table, an entry that has been taken out of it but is not yet dealt with.
  \<open>restores R I T p s\<close> says that \<open>p\<close>, now in state \<open>s\<close>, makes \<open>T\<close> true in the course of its
  remaining steps, whatever steps allowed by \<open>R\<close> come in between. \<open>abides R G I T p s\<close> says
  that every step of \<open>p\<close> keeps \<open>I\<close>, is allowed by \<open>G\<close>, and breaks a property \<open>T x\<close> only if the
  rest of \<open>p\<close> restores it. In a pool whose programs tolerate each other's steps, every
  \<open>T x\<close> then holds once all programs have ended.
\<close>

primrec restores ::
    "('s \<Rightarrow> 's \<Rightarrow> bool) \<Rightarrow> ('s \<Rightarrow> bool) \<Rightarrow> ('s \<Rightarrow> bool) \<Rightarrow> ('s, 'a) prog \<Rightarrow> 's \<Rightarrow> bool" where
  "restores R I T (Done a) s = False"
| "restores R I T (Atom u c) s =
     (\<forall>s'. R s s' \<longrightarrow> I s' \<longrightarrow> T (u s') \<or> restores R I T (c s') (u s'))"

primrec abides ::
    "('s \<Rightarrow> 's \<Rightarrow> bool) \<Rightarrow> ('s \<Rightarrow> 's \<Rightarrow> bool) \<Rightarrow> ('s \<Rightarrow> bool) \<Rightarrow> ('x \<Rightarrow> 's \<Rightarrow> bool) \<Rightarrow> ('s, 'a) prog \<Rightarrow> 's \<Rightarrow> bool" where
  "abides R G I T (Done a) s = True"
| "abides R G I T (Atom u c) s =
     (\<forall>s'. R s s' \<longrightarrow> I s' \<longrightarrow>
        G s' (u s') \<and> I (u s')
        \<and> (\<forall>x. T x s' \<longrightarrow> T x (u s') \<or> restores R I (T x) (c s') (u s'))
        \<and> abides R G I T (c s') (u s'))"

lemma restores_pbind: "restores R I T p s \<Longrightarrow> restores R I T (pbind p k) s"
  by (induction p arbitrary: s) (simp, fastforce)

lemma abides_pbind:
  "abides R G I T p s \<Longrightarrow> (\<And>a s. abides R G I T (k a) s) \<Longrightarrow> abides R G I T (pbind p k) s"
  by (induction p arbitrary: s) (auto 0 3 dest: restores_pbind)

lemma abides_pseq:
  "(\<And>p s. p \<in> set ps \<Longrightarrow> abides R G I T p s) \<Longrightarrow> abides R G I T (pseq ps) s"
  by (induction ps arbitrary: s) (auto intro!: abides_pbind)

text \<open>A single step that breaks nothing.\<close>

lemma abides_call:
  assumes "\<And>s'. R s s' \<Longrightarrow> I s' \<Longrightarrow> G s' (snd (f s')) \<and> I (snd (f s')) \<and> (\<forall>x. T x s' \<longrightarrow> T x (snd (f s')))"
  shows "abides R G I T (call f) s"
  using assms by (auto simp: call_def)

text \<open>A step, and what comes after it.\<close>

lemma restores_step:
  assumes "\<And>s'. R s s' \<Longrightarrow> I s' \<Longrightarrow> T (snd (f s')) \<or> restores R I T (k (fst (f s'))) (snd (f s'))"
  shows "restores R I T (pbind (call f) k) s"
  using assms by (simp add: call_def)

lemma abides_step:
  assumes "\<And>s'. R s s' \<Longrightarrow> I s' \<Longrightarrow> G s' (snd (f s')) \<and> I (snd (f s'))"
    and "\<And>s' x. R s s' \<Longrightarrow> I s' \<Longrightarrow> T x s' \<Longrightarrow>
      T x (snd (f s')) \<or> restores R I (T x) (k (fst (f s'))) (snd (f s'))"
    and "\<And>s'. R s s' \<Longrightarrow> I s' \<Longrightarrow> abides R G I T (k (fst (f s'))) (snd (f s'))"
  shows "abides R G I T (pbind (call f) k) s"
  using assms by (simp add: call_def)

text \<open>
  The laws of a composition: component \<open>i\<close> relies on \<open>R i\<close> and guarantees \<open>G i\<close>; components
  that are \<open>apart\<close> tolerate each other; the environment is tolerated by all and keeps every
  property.
\<close>

locale composition =
  fixes I :: "'s \<Rightarrow> bool" and R G :: "'i \<Rightarrow> 's \<Rightarrow> 's \<Rightarrow> bool" and T :: "'x \<Rightarrow> 's \<Rightarrow> bool"
    and apart :: "'i \<Rightarrow> 'i \<Rightarrow> bool" and env :: "'s \<Rightarrow> 's \<Rightarrow> bool"
  assumes rely_trans: "R i s s' \<Longrightarrow> R i s' s'' \<Longrightarrow> R i s s''"
    and rely_refl: "R i s s"
    and tolerant: "apart i j \<Longrightarrow> G i s s' \<Longrightarrow> R j s s'"
    and env_tolerated: "env s s' \<Longrightarrow> I s \<Longrightarrow> I s' \<and> R i s s' \<and> (T x s \<longrightarrow> T x s')"
begin

lemma restores_later: "restores (R i) I P p s \<Longrightarrow> R i s s' \<Longrightarrow> restores (R i) I P p s'"
  by (cases p) (auto dest: rely_trans)

lemma abides_later: "abides (R i) (G i) I T p s \<Longrightarrow> R i s s' \<Longrightarrow> abides (R i) (G i) I T p s'"
  by (cases p) (auto dest: rely_trans)

definition pool_inv :: "'i list \<Rightarrow> 's \<Rightarrow> ('s, 'a) prog list \<Rightarrow> bool" where
  "pool_inv ks s ps \<longleftrightarrow>
     I s \<and> length ps = length ks
     \<and> (\<forall>i < length ks. abides (R (ks ! i)) (G (ks ! i)) I T (ps ! i) s)
     \<and> (\<forall>x. T x s \<or> (\<exists>i < length ks. restores (R (ks ! i)) I (T x) (ps ! i) s))"

lemma pool_inv_step:
  assumes apart: "\<And>i j. i < length ks \<Longrightarrow> j < length ks \<Longrightarrow> i \<noteq> j \<Longrightarrow> apart (ks ! i) (ks ! j)"
    and inv: "pool_inv ks s ps" and at: "m < length ps" "ps ! m = Atom u c"
  shows "pool_inv ks (u s) (ps[m := c s])"
proof -
  from inv at have m: "m < length ks" and Is: "I s" by (simp_all add: pool_inv_def)
  from inv m have "abides (R (ks ! m)) (G (ks ! m)) I T (ps ! m) s" unfolding pool_inv_def by blast
  then have "abides (R (ks ! m)) (G (ks ! m)) I T (Atom u c) s" by (simp only: at(2))
  with Is have G: "G (ks ! m) s (u s)" and I: "I (u s)"
    and broken: "\<And>x. T x s \<Longrightarrow> T x (u s) \<or> restores (R (ks ! m)) I (T x) (c s) (u s)"
    and rest: "abides (R (ks ! m)) (G (ks ! m)) I T (c s) (u s)"
    by (simp_all add: rely_refl)
  have others: "R (ks ! i) s (u s)" if "i < length ks" "i \<noteq> m" for i
    using tolerant [OF apart G] that m by blast
  have "abides (R (ks ! i)) (G (ks ! i)) I T (ps[m := c s] ! i) (u s)" if "i < length ks" for i
    using that rest others [OF that] inv at by (cases "i = m") (auto simp: pool_inv_def intro: abides_later)
  moreover have "T x (u s) \<or> (\<exists>i < length ks. restores (R (ks ! i)) I (T x) (ps[m := c s] ! i) (u s))" for x
  proof (cases "T x s")
    case True
    from broken [OF this] m at show ?thesis by (intro disjCI) (auto intro!: exI [of _ m])
  next
    case False
    with inv obtain i where i: "i < length ks" "restores (R (ks ! i)) I (T x) (ps ! i) s"
      by (auto simp: pool_inv_def)
    show ?thesis
    proof (cases "i = m")
      case True
      with i at Is have "T x (u s) \<or> restores (R (ks ! m)) I (T x) (c s) (u s)" by (auto simp: rely_refl)
      with m at show ?thesis by (intro disjCI) (auto intro!: exI [of _ m])
    next
      case other: False
      from restores_later [OF i(2) others [OF i(1) other]] i(1) other show ?thesis
        by (intro disjI2 exI [of _ i]) simp
    qed
  qed
  ultimately show ?thesis using inv I by (simp add: pool_inv_def)
qed

lemma pool_inv_env: "pool_inv ks s ps \<Longrightarrow> env s s' \<Longrightarrow> pool_inv ks s' ps"
  unfolding pool_inv_def using env_tolerated by (meson restores_later abides_later)

lemma pool_inv_steps:
  assumes apart: "\<And>i j. i < length ks \<Longrightarrow> j < length ks \<Longrightarrow> i \<noteq> j \<Longrightarrow> apart (ks ! i) (ks ! j)"
    and "(world_step env)\<^sup>*\<^sup>* (s, ps) (s', ps')" "pool_inv ks s ps"
  shows "pool_inv ks s' ps'"
  using assms(2)
proof (induction rule: rtranclp_induct2)
  case refl
  with assms(3) show ?case by simp
next
  case (step s1 ps1 s2 ps2)
  from step(2) show ?case
  proof cases
    case internal
    with pool_inv_step [OF apart step(3)] show ?thesis by (auto elim!: pool_stepE)
  next
    case external
    with pool_inv_env [OF step(3)] show ?thesis by simp
  qed
qed

text \<open>Once all programs of the pool have ended, nothing is left broken.\<close>

lemma all_restored:
  assumes "\<And>i j. i < length ks \<Longrightarrow> j < length ks \<Longrightarrow> i \<noteq> j \<Longrightarrow> apart (ks ! i) (ks ! j)"
    and "(world_step env)\<^sup>*\<^sup>* (s, ps) (s', map Done rs)"
    and "I s" "length ps = length ks" "\<And>x. T x s"
    and "\<And>i. i < length ks \<Longrightarrow> abides (R (ks ! i)) (G (ks ! i)) I T (ps ! i) s"
  shows "I s' \<and> T x s'"
proof -
  have "pool_inv ks s' (map Done rs)"
    by (rule pool_inv_steps [OF assms(1,2)]) (use assms in \<open>simp_all add: pool_inv_def\<close>)
  then show ?thesis by (auto simp: pool_inv_def)
qed

end

end
