(* ===== verification/Owned.thy ===== *)
theory Owned
  imports Effects
begin

text \<open>
  Cells that belong to one program while it needs them.

  Some facts of a program are stable only because nobody else touches a certain part of the
  state: a temporary file, once its name has been drawn, is the file of one call. \<open>T s\<close> are
  the cells that have been drawn so far and \<open>C s\<close> their contents. \<open>owns A I T C Q p X s\<close> says
  that \<open>p\<close>, which owns the cells \<open>X\<close> in state \<open>s\<close>, keeps the invariant \<open>I\<close>, changes no
  drawn cell that is not its own, owns further cells only when it has drawn them itself, and
  empties a cell before it gives it up; at the end the cells it still owns and its result
  satisfy \<open>Q\<close>. In between, others may do anything that leaves the cells in \<open>X\<close> alone, as long
  as the states that \<open>p\<close> finds satisfy \<open>A\<close>: a pool instantiates it with the states that occur
  while it runs (\<open>between\<close>).
\<close>

definition undisturbed ::
    "('s \<Rightarrow> 'k set) \<Rightarrow> ('s \<Rightarrow> 'k \<rightharpoonup> 'v) \<Rightarrow> 'k set \<Rightarrow> 's \<Rightarrow> 's \<Rightarrow> bool" where
  "undisturbed T C X s s' \<longleftrightarrow> T s \<subseteq> T s' \<and> (\<forall>k \<in> X. C s' k = C s k)"

definition transfers ::
    "('s \<Rightarrow> 'k set) \<Rightarrow> ('s \<Rightarrow> 'k \<rightharpoonup> 'v) \<Rightarrow> 'k set \<Rightarrow> 'k set \<Rightarrow> 's \<Rightarrow> 's \<Rightarrow> bool" where
  "transfers T C X X' s s' \<longleftrightarrow>
     T s \<subseteq> T s' \<and> X' \<subseteq> X \<union> (T s' - T s)
     \<and> (\<forall>k \<in> T s - X. C s' k = C s k)
     \<and> (\<forall>k \<in> X \<union> (T s' - T s) - X'. C s' k = None)"

primrec owns ::
    "('s \<Rightarrow> bool) \<Rightarrow> ('s \<Rightarrow> bool) \<Rightarrow> ('s \<Rightarrow> 'k set) \<Rightarrow> ('s \<Rightarrow> 'k \<rightharpoonup> 'v) \<Rightarrow> ('k set \<Rightarrow> 'a \<Rightarrow> bool)
     \<Rightarrow> ('s, 'a) prog \<Rightarrow> 'k set \<Rightarrow> 's \<Rightarrow> bool" where
  "owns A I T C Q (Done a) X s = Q X a"
| "owns A I T C Q (Atom u c) X s =
     (\<forall>s'. undisturbed T C X s s' \<longrightarrow> A s' \<longrightarrow> I s' \<longrightarrow>
        I (u s') \<and> (\<exists>X'. transfers T C X X' s' (u s') \<and> owns A I T C Q (c s') X' (u s')))"

lemma undisturbed_refl [simp]: "undisturbed T C X s s"
  by (simp add: undisturbed_def)

lemma undisturbed_trans: "undisturbed T C X s s1 \<Longrightarrow> undisturbed T C X s1 s2 \<Longrightarrow> undisturbed T C X s s2"
  by (auto simp: undisturbed_def)

lemma undisturbed_mono: "undisturbed T C Y s s' \<Longrightarrow> X \<subseteq> Y \<Longrightarrow> undisturbed T C X s s'"
  by (auto simp: undisturbed_def)

text \<open>What a step does for itself does not disturb the owners of other cells.\<close>

lemma transfers_undisturbed:
  "transfers T C X X' s s' \<Longrightarrow> Y \<subseteq> T s \<Longrightarrow> X \<inter> Y = {} \<Longrightarrow> undisturbed T C Y s s'"
  by (auto simp: transfers_def undisturbed_def)

lemma transfers_taken: "transfers T C X X' s s' \<Longrightarrow> X \<subseteq> T s \<Longrightarrow> X' \<subseteq> T s'"
  by (auto simp: transfers_def)

lemma transfers_apart:
  "transfers T C X X' s s' \<Longrightarrow> Y \<subseteq> T s \<Longrightarrow> X \<inter> Y = {} \<Longrightarrow> X' \<inter> Y = {}"
  by (auto simp: transfers_def)

text \<open>Cells of others can be added to both sides.\<close>

lemma transfers_frame: "transfers T C X X' s s' \<Longrightarrow> transfers T C (X \<union> Y) (X' \<union> Y) s s'"
  unfolding transfers_def by blast

lemma transfers_same: "T s' = T s \<Longrightarrow> C s' = C s \<Longrightarrow> transfers T C X X s s'"
  by (simp add: transfers_def)

lemma owns_later: "owns A I T C Q p X s \<Longrightarrow> undisturbed T C X s s' \<Longrightarrow> owns A I T C Q p X s'"
  by (cases p) (auto dest: undisturbed_trans)

lemma owns_Atom:
  assumes "owns A I T C Q (Atom u c) X s" "A s" "I s"
  shows "I (u s) \<and> (\<exists>X'. transfers T C X X' s (u s) \<and> owns A I T C Q (c s) X' (u s))"
proof -
  from assms(1) have "undisturbed T C X s s \<longrightarrow> A s \<longrightarrow> I s \<longrightarrow>
      I (u s) \<and> (\<exists>X'. transfers T C X X' s (u s) \<and> owns A I T C Q (c s) X' (u s))"
    unfolding owns.simps by blast
  with assms(2,3) show ?thesis by simp
qed

lemma owns_conseq: "owns A I T C Q p X s \<Longrightarrow> (\<And>X a. Q X a \<Longrightarrow> Q' X a) \<Longrightarrow> owns A I T C Q' p X s"
  by (induction p arbitrary: X s) (simp, fastforce)

lemma owns_pbind:
  "owns A I T C Q' p X s \<Longrightarrow> (\<And>X a s. Q' X a \<Longrightarrow> owns A I T C Q (k a) X s) \<Longrightarrow> owns A I T C Q (pbind p k) X s"
  by (induction p arbitrary: X s) (simp, fastforce)

text \<open>A step, and what comes after it.\<close>

lemma owns_step:
  assumes "\<And>s'. undisturbed T C X s s' \<Longrightarrow> A s' \<Longrightarrow> I s' \<Longrightarrow> I (snd (f s')) \<and>
      (\<exists>X'. transfers T C X X' s' (snd (f s')) \<and> owns A I T C Q (k (fst (f s'))) X' (snd (f s')))"
  shows "owns A I T C Q (pbind (call f) k) X s"
  using assms by (simp add: call_def)

text \<open>A program that touches no cell at all, and further invariants.\<close>

lemma owns_quiet:
  "holds I p Q \<Longrightarrow> preserves (\<lambda>s. (T s, C s)) p \<Longrightarrow> owns A I T C (\<lambda>X' a. X' = X \<and> Q a) p X s"
  by (induction p arbitrary: s) (auto intro!: exI [of _ X] transfers_same)

lemma owns_and_holds:
  "owns A I T C Q p X s \<Longrightarrow> holds J p Q' \<Longrightarrow> owns A (\<lambda>s. I s \<and> J s) T C (\<lambda>X a. Q X a \<and> Q' a) p X s"
  by (induction p arbitrary: X s) (simp, fastforce)

text \<open>The frame rule: a program does not care who owns other cells.\<close>

lemma owns_frame:
  "owns A I T C Q p X s \<Longrightarrow> X \<subseteq> T s \<Longrightarrow> Y \<subseteq> T s \<Longrightarrow> X \<inter> Y = {} \<Longrightarrow>
   owns A I T C (\<lambda>Z a. \<exists>X'. Z = X' \<union> Y \<and> Q X' a) p (X \<union> Y) s"
proof (induction p arbitrary: X s)
  case (Done a)
  then show ?case by auto
next
  case (Atom u c)
  have "I (u s') \<and> (\<exists>Z. transfers T C (X \<union> Y) Z s' (u s')
      \<and> owns A I T C (\<lambda>Z a. \<exists>X'. Z = X' \<union> Y \<and> Q X' a) (c s') Z (u s'))"
    if dist: "undisturbed T C (X \<union> Y) s s'" and A: "A s'" and I: "I s'" for s'
  proof -
    from dist have grown: "T s \<subseteq> T s'" by (simp add: undisturbed_def)
    from Atom.prems(1) dist A I obtain X' where I': "I (u s')" and X': "transfers T C X X' s' (u s')"
      and rest: "owns A I T C Q (c s') X' (u s')"
      using undisturbed_mono [OF dist, of X] by auto
    have "X' \<subseteq> T (u s')" "Y \<subseteq> T (u s')" "X' \<inter> Y = {}"
      using transfers_taken [OF X'] transfers_apart [OF X', of Y] Atom.prems(2-4) grown X'
      by (auto simp: transfers_def)
    from Atom.IH [OF _ rest this] transfers_frame [OF X'] I' show ?thesis by auto
  qed
  then show ?case by simp
qed


subsection \<open>Pools\<close>

text \<open>Program \<open>i\<close> of a pool owns the cells \<open>Xs i\<close>, and no cell has two owners.\<close>

definition owned_by :: "nat \<Rightarrow> (nat \<Rightarrow> 'k set) \<Rightarrow> 'k set" where
  "owned_by n Xs = (\<Union>i < n. Xs i)"

definition pool_owns ::
    "('s \<Rightarrow> bool) \<Rightarrow> ('s \<Rightarrow> bool) \<Rightarrow> ('s \<Rightarrow> 'k set) \<Rightarrow> ('s \<Rightarrow> 'k \<rightharpoonup> 'v) \<Rightarrow> (nat \<Rightarrow> 'k set \<Rightarrow> 'a \<Rightarrow> bool)
     \<Rightarrow> ('s, 'a) prog list \<Rightarrow> (nat \<Rightarrow> 'k set) \<Rightarrow> 's \<Rightarrow> bool" where
  "pool_owns A I T C Q ps Xs s \<longleftrightarrow>
     (\<forall>i < length ps. Xs i \<subseteq> T s \<and> owns A I T C (Q i) (ps ! i) (Xs i) s)
     \<and> (\<forall>i < length ps. \<forall>j < length ps. i \<noteq> j \<longrightarrow> Xs i \<inter> Xs j = {})"

lemma pool_ownsD:
  assumes "pool_owns A I T C Q ps Xs s"
  shows "i < length ps \<Longrightarrow> Xs i \<subseteq> T s" "i < length ps \<Longrightarrow> owns A I T C (Q i) (ps ! i) (Xs i) s"
    and "i < length ps \<Longrightarrow> j < length ps \<Longrightarrow> i \<noteq> j \<Longrightarrow> Xs i \<inter> Xs j = {}"
  using assms unfolding pool_owns_def by blast+

lemma pool_owns_start:
  "(\<And>i. i < length ps \<Longrightarrow> owns A I T C (Q i) (ps ! i) {} s) \<Longrightarrow> pool_owns A I T C Q ps (\<lambda>_. {}) s"
  by (simp add: pool_owns_def)

lemma owned_by_empty [simp]: "owned_by n (\<lambda>_. {}) = {}"
  by (simp add: owned_by_def)

lemma owned_by_Suc: "owned_by (Suc n) Xs = Xs 0 \<union> owned_by n (\<lambda>i. Xs (Suc i))"
  by (auto simp: owned_by_def less_Suc_eq_0_disj)

lemma owned_by_taken: "pool_owns A I T C Q ps Xs s \<Longrightarrow> owned_by (length ps) Xs \<subseteq> T s"
  using pool_ownsD(1) by (fastforce simp: owned_by_def)

lemma owned_by_member: "i < n \<Longrightarrow> Xs i \<subseteq> owned_by n Xs"
  by (auto simp: owned_by_def)

lemma pool_owns_later:
  assumes "pool_owns A I T C Q ps Xs s" "undisturbed T C (owned_by (length ps) Xs) s s'"
  shows "pool_owns A I T C Q ps Xs s'"
  unfolding pool_owns_def
proof (intro conjI allI impI)
  fix i assume i: "i < length ps"
  have und: "undisturbed T C (Xs i) s s'"
    using undisturbed_mono [OF assms(2) owned_by_member [OF i]] .
  with pool_ownsD(1) [OF assms(1) i] show "Xs i \<subseteq> T s'" by (auto simp: undisturbed_def)
  show "owns A I T C (Q i) (ps ! i) (Xs i) s'" by (rule owns_later [OF pool_ownsD(2) [OF assms(1) i] und])
qed (rule pool_ownsD(3) [OF assms(1)])

lemma owned_by_update: "i < n \<Longrightarrow> owned_by n (Xs(i := X')) = X' \<union> (\<Union>j \<in> {..<n} - {i}. Xs j)"
  by (auto simp: owned_by_def split: if_splits)

lemma pool_owns_step:
  assumes pool: "pool_owns A I T C Q ps Xs s" and A: "A s" and I: "I s" and at: "i < length ps" "ps ! i = Atom u c"
  shows "I (u s) \<and> (\<exists>Xs'. transfers T C (owned_by (length ps) Xs) (owned_by (length ps) Xs') s (u s)
    \<and> pool_owns A I T C Q (ps[i := c s]) Xs' (u s))"
proof -
  from pool_ownsD(2) [OF pool at(1)] have "owns A I T C (Q i) (Atom u c) (Xs i) s" unfolding at(2) .
  from owns_Atom [OF this A I] obtain X' where I': "I (u s)"
    and X': "transfers T C (Xs i) X' s (u s)" and rest: "owns A I T C (Q i) (c s) X' (u s)" by blast
  let ?Xs' = "Xs(i := X')" and ?others = "\<Union>j \<in> {..<length ps} - {i}. Xs j"
  have all: "owned_by (length ps) Xs = Xs i \<union> ?others" "owned_by (length ps) ?Xs' = X' \<union> ?others"
    using owned_by_update [OF at(1), of Xs "Xs i"] owned_by_update [OF at(1), of Xs X'] by simp_all
  have apart: "Xs i \<inter> Xs j = {}" "X' \<inter> Xs j = {}" "undisturbed T C (Xs j) s (u s)" if "j < length ps" "j \<noteq> i" for j
    using pool_ownsD(3) [OF pool at(1) that(1)] that(2) transfers_apart [OF X' pool_ownsD(1) [OF pool that(1)]]
      transfers_undisturbed [OF X' pool_ownsD(1) [OF pool that(1)]] by auto
  have "?Xs' j \<subseteq> T (u s) \<and> owns A I T C (Q j) (ps[i := c s] ! j) (?Xs' j) (u s)" if "j < length ps" for j
  proof (cases "j = i")
    case True
    with rest at(1) transfers_taken [OF X' pool_ownsD(1) [OF pool at(1)]] show ?thesis by simp
  next
    case False
    from owns_later [OF pool_ownsD(2) [OF pool that] apart(3) [OF that False]]
      pool_ownsD(1) [OF pool that] X' False show ?thesis by (auto simp: transfers_def)
  qed
  moreover have "?Xs' j \<inter> ?Xs' l = {}" if "j < length ps" "l < length ps" "j \<noteq> l" for j l
    using that apart(2) pool_ownsD(3) [OF pool that] by (cases "j = i"; cases "l = i") auto
  ultimately have "pool_owns A I T C Q (ps[i := c s]) ?Xs' (u s)" by (simp add: pool_owns_def)
  moreover have "transfers T C (owned_by (length ps) Xs) (owned_by (length ps) ?Xs') s (u s)"
    unfolding all by (rule transfers_frame [OF X'])
  ultimately show ?thesis using I' by blast
qed


text \<open>Fork and join: the children share out what the parent owns.\<close>

definition all_owned :: "(nat \<Rightarrow> 'k set \<Rightarrow> 'a \<Rightarrow> bool) \<Rightarrow> nat \<Rightarrow> 'k set \<Rightarrow> 'a list \<Rightarrow> bool" where
  "all_owned Q n Z rs \<longleftrightarrow> length rs = n \<and> (\<exists>Xs. Z = owned_by n Xs \<and> (\<forall>i < n. Q i (Xs i) (rs ! i)))"

lemma all_owned_Cons:
  assumes "Q 0 X a" "all_owned (\<lambda>i. Q (Suc i)) n Z rs"
  shows "all_owned Q (Suc n) (Z \<union> X) (a # rs)"
proof -
  from assms(2) obtain Xs where "length rs = n" and Xs: "Z = owned_by n Xs" "\<forall>i < n. Q (Suc i) (Xs i) (rs ! i)"
    by (auto simp: all_owned_def)
  with assms(1) show ?thesis
    by (auto simp: all_owned_def owned_by_Suc less_Suc_eq_0_disj intro!: exI [of _ "case_nat X Xs"])
qed

lemma pool_owns_tail:
  assumes "pool_owns A I T C Q (p # ps) Xs s"
  shows "pool_owns A I T C (\<lambda>i. Q (Suc i)) ps (\<lambda>i. Xs (Suc i)) s"
    and "Xs 0 \<subseteq> T s" "Xs 0 \<inter> owned_by (length ps) (\<lambda>i. Xs (Suc i)) = {}"
proof -
  show "pool_owns A I T C (\<lambda>i. Q (Suc i)) ps (\<lambda>i. Xs (Suc i)) s"
    using pool_ownsD [OF assms, of "Suc _"] unfolding pool_owns_def by (fastforce dest: pool_ownsD(3) [OF assms, of "Suc _" "Suc _"])
  show "Xs 0 \<subseteq> T s" using pool_ownsD(1) [OF assms, of 0] by simp
  show "Xs 0 \<inter> owned_by (length ps) (\<lambda>i. Xs (Suc i)) = {}"
    using pool_ownsD(3) [OF assms, of 0 "Suc _"] by (auto simp: owned_by_def)
qed

lemma owns_pseq:
  "pool_owns A I T C Q ps Xs s \<Longrightarrow>
   owns A I T C (all_owned Q (length ps)) (pseq ps) (owned_by (length ps) Xs) s"
proof (induction ps arbitrary: Q Xs s)
  case Nil
  then show ?case by (auto simp: all_owned_def owned_by_def)
next
  case (Cons p ps)
  from Cons.prems show ?case
  proof (induction p arbitrary: Xs s)
    case (Done a)
    note tail = pool_owns_tail [OF Done]
    have "Q 0 (Xs 0) a" using pool_ownsD(2) [OF Done, of 0] by simp
    then have "owns A I T C (all_owned Q (length (Done a # ps))) (pbind (pseq ps) (\<lambda>as. Done (a # as)))
        (owned_by (length ps) (\<lambda>i. Xs (Suc i)) \<union> Xs 0) s"
      by (intro owns_pbind [OF owns_frame [OF Cons.IH [OF tail(1)] owned_by_taken [OF tail(1)] tail(2)]])
         (use tail(3) in \<open>auto intro: all_owned_Cons\<close>)
    then show ?case by (simp add: owned_by_Suc Un_commute)
  next
    case (Atom u c)
    have "I (u s') \<and> (\<exists>Z. transfers T C (owned_by (length (Atom u c # ps)) Xs) Z s' (u s')
        \<and> owns A I T C (all_owned Q (length (Atom u c # ps))) (pseq (c s' # ps)) Z (u s'))"
      if dist: "undisturbed T C (owned_by (length (Atom u c # ps)) Xs) s s'" and A: "A s'" and I: "I s'" for s'
    proof -
      from pool_owns_step [OF pool_owns_later [OF Atom.prems dist] A I, of 0 u c] obtain Xs' where
        "I (u s')" "transfers T C (owned_by (length (Atom u c # ps)) Xs) (owned_by (length (Atom u c # ps)) Xs') s' (u s')"
        and "pool_owns A I T C Q (c s' # ps) Xs' (u s')" by auto
      with Atom.IH [OF _ this(3)] show ?thesis by auto
    qed
    then show ?case by simp
  qed
qed

lemma owns_par:
  "pool_owns A I T C Q ps Xs s \<Longrightarrow>
   owns A I T C (all_owned Q (length ps)) (par sched ps) (owned_by (length ps) Xs) s"
proof (induction sched ps arbitrary: Xs s rule: par.induct)
  case (1 ps)
  then show ?case by (simp add: owns_pseq)
next
  case (2 i sched ps)
  show ?case
  proof (cases "\<exists>u c. i < length ps \<and> ps ! i = Atom u c")
    case True
    then obtain u c where at: "i < length ps" "ps ! i = Atom u c" by blast
    have "I (u s') \<and> (\<exists>Z. transfers T C (owned_by (length ps) Xs) Z s' (u s')
        \<and> owns A I T C (all_owned Q (length ps)) (par sched (ps[i := c s'])) Z (u s'))"
      if dist: "undisturbed T C (owned_by (length ps) Xs) s s'" and A: "A s'" and I: "I s'" for s'
    proof -
      from pool_owns_step [OF pool_owns_later [OF "2.prems" dist] A I at] obtain Xs' where
        step: "I (u s')" "transfers T C (owned_by (length ps) Xs) (owned_by (length ps) Xs') s' (u s')"
        and "pool_owns A I T C Q (ps[i := c s']) Xs' (u s')" by blast
      from 2(2) [OF at this(3)] step show ?thesis by auto
    qed
    with at show ?thesis by simp
  next
    case False
    then show ?thesis using 2 by (cases "i < length ps"; cases "ps ! i") auto
  qed
qed

lemma owns_par_fresh:
  assumes "\<And>i. i < length ps \<Longrightarrow> owns A I T C (Q i) (ps ! i) {} s"
  shows "owns A I T C (all_owned Q (length ps)) (par sched ps) {} s"
  using owns_par [OF pool_owns_start [OF assms]] by simp

subsection \<open>Pools in their surroundings\<close>

text \<open>The states that can occur in a run from one configuration to another.\<close>

definition between ::
    "('s \<Rightarrow> 's \<Rightarrow> bool) \<Rightarrow> 's \<times> ('s, 'a) prog list \<Rightarrow> 's \<times> ('s, 'a) prog list \<Rightarrow> 's \<Rightarrow> bool" where
  "between env a b s \<longleftrightarrow> (\<exists>ps. (world_step env)\<^sup>*\<^sup>* a (s, ps) \<and> (world_step env)\<^sup>*\<^sup>* (s, ps) b)"

text \<open>The laws of the environment: it keeps the invariant and leaves every drawn cell alone.\<close>

locale owned_cells =
  fixes I :: "'s \<Rightarrow> bool" and T :: "'s \<Rightarrow> 'k set" and C :: "'s \<Rightarrow> 'k \<rightharpoonup> 'v" and env :: "'s \<Rightarrow> 's \<Rightarrow> bool"
  assumes env_keeps: "env s s' \<Longrightarrow> I s \<Longrightarrow> I s'"
    and env_leaves: "env s s' \<Longrightarrow> T s' = T s" "env s s' \<Longrightarrow> k \<in> T s \<Longrightarrow> C s' k = C s k"
begin

definition shared_out ::
    "('s \<Rightarrow> bool) \<Rightarrow> (nat \<Rightarrow> 'k set \<Rightarrow> 'a \<Rightarrow> bool) \<Rightarrow> 'k set \<Rightarrow> 's \<Rightarrow> ('s, 'a) prog list \<Rightarrow> (nat \<Rightarrow> 'k set) \<Rightarrow> bool" where
  "shared_out A Q old s ps Xs \<longleftrightarrow>
     I s \<and> pool_owns A I T C Q ps Xs s \<and> old \<subseteq> T s
     \<and> (\<forall>k \<in> T s - old. k \<in> owned_by (length ps) Xs \<or> C s k = None)"

lemma shared_out_step:
  assumes "shared_out A Q old s ps Xs" "A s" "world_step env (s, ps) (s', ps')"
  shows "\<exists>Xs'. shared_out A Q old s' ps' Xs'"
  using assms(3)
proof cases
  case internal
  then obtain i u c where at: "i < length ps" "ps ! i = Atom u c" and eq: "s' = u s" "ps' = ps[i := c s]"
    by (auto elim!: pool_stepE)
  from assms(1) have pool: "pool_owns A I T C Q ps Xs s" and Is: "I s" and old: "old \<subseteq> T s"
    and given: "\<And>k. k \<in> T s - old \<Longrightarrow> k \<in> owned_by (length ps) Xs \<or> C s k = None"
    by (auto simp: shared_out_def)
  from pool_owns_step [OF pool assms(2) Is at] obtain Xs' where I': "I s'"
    and moved: "transfers T C (owned_by (length ps) Xs) (owned_by (length ps) Xs') s s'"
    and pool': "pool_owns A I T C Q ps' Xs' s'" unfolding eq by blast
  have "k \<in> owned_by (length ps) Xs' \<or> C s' k = None" if "k \<in> T s' - old" for k
    using moved given [of k] that unfolding transfers_def by (metis DiffD1 DiffD2 DiffI UnI1 UnI2)
  with I' pool' old moved have "shared_out A Q old s' ps' Xs'"
    by (auto simp: shared_out_def eq(2) transfers_def)
  then show ?thesis by blast
next
  case external
  then have "undisturbed T C (owned_by (length ps) Xs) s s'"
    using assms(1) env_leaves owned_by_taken [of A I T C Q ps Xs s] by (auto simp: undisturbed_def shared_out_def)
  with external assms(1) pool_owns_later [of A I T C Q ps Xs s s'] env_keeps env_leaves show ?thesis
    unfolding shared_out_def by (intro exI [of _ Xs]) auto
qed

lemma shared_out_steps:
  assumes "(world_step env)\<^sup>*\<^sup>* (s, ps) (s1, ps1)" "(world_step env)\<^sup>*\<^sup>* (s1, ps1) (s', ps')" "I s"
    and "\<And>i. i < length ps \<Longrightarrow> owns (between env (s, ps) (s', ps')) I T C (Q i) (ps ! i) {} s"
  shows "\<exists>Xs. shared_out (between env (s, ps) (s', ps')) Q (T s) s1 ps1 Xs \<and> length ps1 = length ps"
  using assms(1,2)
proof (induction rule: rtranclp_induct2)
  case refl
  have "shared_out (between env (s, ps) (s', ps')) Q (T s) s ps (\<lambda>_. {})"
    using assms(3) pool_owns_start [OF assms(4)] by (simp add: shared_out_def)
  then show ?case by blast
next
  case (step s1 ps1 s2 ps2)
  from step(2,4) have rest: "(world_step env)\<^sup>*\<^sup>* (s1, ps1) (s', ps')" by (rule converse_rtranclp_into_rtranclp)
  with step(1) have "between env (s, ps) (s', ps') s1" by (auto simp: between_def)
  with step(3) [OF rest] shared_out_step [OF _ _ step(2)] world_step_length [OF step(2)] show ?case by fastforce
qed

lemma shared_out_end:
  assumes "(world_step env)\<^sup>*\<^sup>* (s, ps) (s', ps')" "I s"
    and "\<And>i. i < length ps \<Longrightarrow> owns (between env (s, ps) (s', ps')) I T C (Q i) (ps ! i) {} s"
  shows "\<exists>Xs. shared_out (between env (s, ps) (s', ps')) Q (T s) s' ps' Xs \<and> length ps' = length ps"
  using shared_out_steps [OF assms(1) rtranclp.rtrancl_refl assms(2,3)] .

text \<open>The result of a program, and what is left of the cells once all programs have ended.\<close>

lemma owned_result:
  assumes "(world_step env)\<^sup>*\<^sup>* (s, ps) (s', ps')" "I s"
    and "\<And>i. i < length ps \<Longrightarrow> owns (between env (s, ps) (s', ps')) I T C (Q i) (ps ! i) {} s"
    and "i < length ps" "ps' ! i = Done a"
  shows "\<exists>X. Q i X a"
proof -
  from shared_out_end [OF assms(1-3)] obtain Xs where
    "pool_owns (between env (s, ps) (s', ps')) I T C Q ps' Xs s'" "length ps' = length ps" unfolding shared_out_def by blast
  with pool_ownsD(2) [OF this(1), of i] assms(4,5) show ?thesis by auto
qed

lemma nothing_left:
  assumes "(world_step env)\<^sup>*\<^sup>* (s, ps) (s', map Done rs)" "I s"
    and "\<And>i. i < length ps \<Longrightarrow> owns (between env (s, ps) (s', map Done rs)) I T C (Q i) (ps ! i) {} s"
    and "\<And>i X. i < length rs \<Longrightarrow> Q i X (rs ! i) \<Longrightarrow> X = {}" "k \<in> T s' - T s"
  shows "C s' k = None"
proof -
  let ?A = "between env (s, ps) (s', map Done rs)"
  from shared_out_end [OF assms(1-3)] obtain Xs where so: "shared_out ?A Q (T s) s' (map Done rs) Xs" by blast
  then have pool: "pool_owns ?A I T C Q (map Done rs) Xs s'" by (simp add: shared_out_def)
  have "Xs i = {}" if "i < length rs" for i using pool_ownsD(2) [OF pool, of i] assms(4) that by simp
  then have "owned_by (length rs) Xs = {}" by (simp add: owned_by_def)
  with so assms(5) show ?thesis by (auto simp: shared_out_def)
qed

end

end
