(* ===== verification/Cache.thy ===== *)
theory Cache
  imports Prelude
begin

text \<open>
  \<open>internal/cache/cache.go\<close>: the in-memory TTL cache with lazy expiry on read.

  Instants are nanoseconds on the monotonic clock (\<open>int\<close>); a \<open>time.Duration\<close> is a
  signed 64-bit count of nanoseconds (\<open>64 word\<close>, read with \<open>sint\<close>), because the
  program computes it with an overflowing multiplication. Every method body is one
  critical section of \<open>mu\<close>, so it is one function on the state; the clock reading
  \<open>c.now()\<close> is an argument.

  The locale \<open>ttl_store\<close> is the contract the tool server relies on; its lemmas relate
  any store with that contract to a plain record of the last write of every key.
\<close>

subsection \<open>The cache\<close>

type_synonym int64 = "64 word"
type_synonym duration = int64

record 'v entry =
  val :: 'v
  expiresAt :: int

record ('k, 'v) ttl_cache =
  ttl :: duration
  store :: "'k \<rightharpoonup> 'v entry"

definition New :: "duration \<Rightarrow> ('k, 'v) ttl_cache" where
  "New t = \<lparr>ttl = t, store = Map.empty\<rparr>"

text \<open>\<open>None\<close> is the zero value together with \<open>false\<close>.\<close>

definition Get :: "int \<Rightarrow> 'k \<Rightarrow> ('k, 'v) ttl_cache \<Rightarrow> 'v option \<times> ('k, 'v) ttl_cache" where
  "Get now key c =
     (case store c key of
        None \<Rightarrow> (None, c)
      | Some e \<Rightarrow>
          if now > expiresAt e then (None, c\<lparr>store := (store c)(key := None)\<rparr>)
          else (Some (val e), c))"

definition Set :: "int \<Rightarrow> 'k \<Rightarrow> 'v \<Rightarrow> ('k, 'v) ttl_cache \<Rightarrow> ('k, 'v) ttl_cache" where
  "Set now key v c =
     c\<lparr>store := (store c)(key \<mapsto> \<lparr>val = v, expiresAt = now + sint (ttl c)\<rparr>)\<rparr>"

definition Delete :: "'k \<Rightarrow> ('k, 'v) ttl_cache \<Rightarrow> ('k, 'v) ttl_cache" where
  "Delete key c = c\<lparr>store := (store c)(key := None)\<rparr>"

definition Clear :: "('k, 'v) ttl_cache \<Rightarrow> ('k, 'v) ttl_cache" where
  "Clear c = c\<lparr>store := Map.empty\<rparr>"

subsection \<open>What the cache promises\<close>

text \<open>The value a reader would see at instant \<open>t\<close>.\<close>

definition live :: "int \<Rightarrow> ('k, 'v) ttl_cache \<Rightarrow> 'k \<Rightarrow> 'v option" where
  "live t c key =
     (case store c key of
        None \<Rightarrow> None
      | Some e \<Rightarrow> if t \<le> expiresAt e then Some (val e) else None)"

text \<open>
  The abstract state is the last write of every key (its instant and value), never
  forgotten by the passing of time; what a reader may see of it is \<open>fresh\<close>.
\<close>

type_synonym ('k, 'v) writes = "'k \<Rightarrow> (int \<times> 'v) option"

definition fresh :: "int \<Rightarrow> int \<Rightarrow> (int \<times> 'v) option \<Rightarrow> 'v option" where
  "fresh life t w = (case w of None \<Rightarrow> None | Some (t0, v) \<Rightarrow> if t \<le> t0 + life then Some v else None)"

definition agrees ::
    "(int \<Rightarrow> 'c \<Rightarrow> 'k \<Rightarrow> 'v option) \<Rightarrow> int \<Rightarrow> int \<Rightarrow> 'c \<Rightarrow> ('k, 'v) writes \<Rightarrow> bool" where
  "agrees look life now c w \<longleftrightarrow> (\<forall>t \<ge> now. \<forall>k. look t c k = fresh life t (w k))"

locale ttl_store =
  fixes lookup :: "int \<Rightarrow> 'c \<Rightarrow> 'k \<Rightarrow> 'v option"
    and lifetime :: "'c \<Rightarrow> int"
    and get :: "int \<Rightarrow> 'k \<Rightarrow> 'c \<Rightarrow> 'v option \<times> 'c"
    and put :: "int \<Rightarrow> 'k \<Rightarrow> 'v \<Rightarrow> 'c \<Rightarrow> 'c"
    and remove :: "'k \<Rightarrow> 'c \<Rightarrow> 'c"
    and reset :: "'c \<Rightarrow> 'c"
  assumes get_result: "fst (get t k c) = lookup t c k"
    and get_state: "t \<le> t' \<Longrightarrow> lookup t' (snd (get t k c)) k' = lookup t' c k'"
    and put_lookup: "lookup t' (put t k v c) k' =
      (if k' = k then (if t' \<le> t + lifetime c then Some v else None) else lookup t' c k')"
    and remove_lookup: "lookup t (remove k c) k' = (if k' = k then None else lookup t c k')"
    and reset_lookup: "lookup t (reset c) k = None"
    and lifetime_kept: "lifetime (snd (get t k c)) = lifetime c" "lifetime (put t k v c) = lifetime c"
      "lifetime (remove k c) = lifetime c" "lifetime (reset c) = lifetime c"
    and lookup_expires: "lookup t' c k = Some v \<Longrightarrow> t \<le> t' \<Longrightarrow> lookup t c k = Some v"
begin

lemma get_agrees:
  "agrees lookup life now c w \<Longrightarrow> now \<le> t \<Longrightarrow> agrees lookup life t (snd (get t k c)) w"
  by (auto simp: agrees_def get_state)

lemma put_agrees:
  "agrees lookup (lifetime c) now c w \<Longrightarrow> now \<le> t \<Longrightarrow>
   agrees lookup (lifetime c) t (put t k v c) (w(k \<mapsto> (t, v)))"
  by (auto simp: agrees_def put_lookup fresh_def)

lemma remove_agrees:
  "agrees lookup life now c w \<Longrightarrow> now \<le> t \<Longrightarrow> agrees lookup life t (remove k c) (w(k := None))"
  by (auto simp: agrees_def remove_lookup fresh_def)

lemma reset_agrees: "agrees lookup life t (reset c) Map.empty"
  by (auto simp: agrees_def reset_lookup fresh_def)

lemma get_hit_iff:
  "agrees lookup life now c w \<Longrightarrow> now \<le> t \<Longrightarrow> fst (get t k c) = fresh life t (w k)"
  by (simp add: agrees_def get_result)

text \<open>A miss stays a miss until the key is written again.\<close>

lemma miss_stays: "lookup t c k = None \<Longrightarrow> t \<le> t' \<Longrightarrow> lookup t' (snd (get t k' c)) k = None"
  by (metis get_state lookup_expires not_None_eq)

lemma put_then_get:
  "t' \<le> t + lifetime c \<Longrightarrow> fst (get t' k (put t k v c)) = Some v"
  by (simp add: get_result put_lookup)

end

lemma live_Get: "t \<le> t' \<Longrightarrow> live t' (snd (Get t k c)) k' = live t' c k'"
  by (auto simp: live_def Get_def split: option.splits)

interpretation cache: ttl_store live "\<lambda>c. sint (ttl c)" Get Set Delete Clear
  by unfold_locales
     (auto simp: live_Get, auto simp: live_def Get_def Set_def Delete_def Clear_def
       split: option.splits if_splits)

subsection \<open>Histories\<close>

text \<open>A sequence of timed calls, and the state and the abstract writes after it.\<close>

datatype ('k, 'v) cache_op = Op_Get 'k | Op_Set 'k 'v | Op_Delete 'k | Op_Clear

fun cache_step :: "int \<times> ('k, 'v) cache_op \<Rightarrow> ('k, 'v) ttl_cache \<Rightarrow> ('k, 'v) ttl_cache" where
  "cache_step (t, Op_Get k) c = snd (Get t k c)"
| "cache_step (t, Op_Set k v) c = Set t k v c"
| "cache_step (t, Op_Delete k) c = Delete k c"
| "cache_step (t, Op_Clear) c = Clear c"

fun write_step :: "int \<times> ('k, 'v) cache_op \<Rightarrow> ('k, 'v) writes \<Rightarrow> ('k, 'v) writes" where
  "write_step (t, Op_Get k) w = w"
| "write_step (t, Op_Set k v) w = w(k \<mapsto> (t, v))"
| "write_step (t, Op_Delete k) w = w(k := None)"
| "write_step (t, Op_Clear) w = Map.empty"

definition cache_after :: "duration \<Rightarrow> (int \<times> ('k, 'v) cache_op) list \<Rightarrow> ('k, 'v) ttl_cache" where
  "cache_after d ops = fold cache_step ops (New d)"

definition writes_after :: "(int \<times> ('k, 'v) cache_op) list \<Rightarrow> ('k, 'v) writes" where
  "writes_after ops = fold write_step ops Map.empty"

lemma ttl_cache_step [simp]: "ttl (cache_step x c) = ttl c"
  by (cases x rule: prod.exhaust; rename_tac t a; case_tac a)
     (auto simp: Get_def Set_def Delete_def Clear_def split: option.splits)

lemma cache_step_agrees:
  assumes "agrees live (sint (ttl c)) now c w" "now \<le> fst x"
  shows "agrees live (sint (ttl c)) (fst x) (cache_step x c) (write_step x w)"
proof -
  obtain t a where x: "x = (t, a)" by (cases x)
  with assms have "now \<le> t" by simp
  with assms(1) show ?thesis
    unfolding x
    by (cases a) (simp_all add: cache.get_agrees cache.put_agrees cache.remove_agrees cache.reset_agrees)
qed

lemma cache_fold_agrees:
  assumes "agrees live (sint (ttl c)) now c w" "sorted (now # map fst ops)"
  shows "agrees live (sint (ttl c)) (last (now # map fst ops)) (fold cache_step ops c) (fold write_step ops w)
     \<and> ttl (fold cache_step ops c) = ttl c"
  using assms
proof (induction ops arbitrary: c w now)
  case Nil
  then show ?case by simp
next
  case (Cons op ops)
  have "agrees live (sint (ttl c)) (fst op) (cache_step op c) (write_step op w)"
    using cache_step_agrees [OF Cons.prems(1), of op] Cons.prems(2) by auto
  then show ?case
    using Cons.IH [of "cache_step op c" "fst op" "write_step op w"] Cons.prems(2) by auto
qed

lemma cache_history:
  assumes "sorted (map fst ops @ [now])"
  shows "fst (Get now k (cache_after d ops)) = fresh (sint d) now (writes_after ops k)"
proof (cases ops)
  case Nil
  then show ?thesis
    by (simp add: cache_after_def writes_after_def New_def Get_def fresh_def)
next
  case (Cons op rest)
  let ?t = "fst op"
  have "agrees live (sint d) ?t (New d :: ('a, 'b) ttl_cache) Map.empty"
    by (auto simp: agrees_def live_def New_def fresh_def)
  then have "agrees live (sint d) (last (?t # map fst ops)) (cache_after d ops) (writes_after ops)"
    using cache_fold_agrees [of "New d" ?t Map.empty ops] assms Cons
    by (simp add: cache_after_def writes_after_def New_def sorted_append)
  moreover have "last (?t # map fst ops) \<le> now"
    using assms Cons by (simp add: sorted_append last_map)
  ultimately show ?thesis by (rule cache.get_hit_iff)
qed

text \<open>
  C12: a \<open>Get\<close> returns exactly the value of the last write of the key, and only while no
  more than the TTL has passed since that write: reads, and the deletions of expired
  entries they make on the way, are invisible.
\<close>

theorem cache_refines_history:
  assumes "sorted (map fst ops @ [now])"
  shows "fst (Get now k (cache_after d ops)) = fresh (sint d) now (writes_after ops k)"
  using assms by (rule cache_history)

theorem cache_refines_history_witness:
  "fst (Get 12 ''a'' (cache_after 5
      [(0, Op_Set ''a'' (1::nat)), (7, Op_Get ''a''), (8, Op_Set ''a'' 2), (9, Op_Delete ''b'')])) = Some 2"
  using cache_refines_history
    [of "[(0, Op_Set ''a'' (1::nat)), (7, Op_Get ''a''), (8, Op_Set ''a'' 2), (9, Op_Delete ''b'')]"
      12 "''a''" 5]
  by (simp add: writes_after_def fresh_def)


text \<open>A lifetime below zero makes every entry expired from the start.\<close>

lemma writes_after_past:
  assumes "sorted (map fst ops @ [now])" "writes_after ops k = Some (t, v)"
  shows "t \<le> now"
proof -
  have "t \<le> now" if "\<forall>x \<in> set ops. fst x \<le> now" "\<And>t v. w k = Some (t, v) \<Longrightarrow> t \<le> now"
    "fold write_step ops w k = Some (t, v)" for w
    using that
  proof (induction ops arbitrary: w)
    case Nil
    then show ?case by simp
  next
    case (Cons x ops)
    obtain t' a where x: "x = (t', a)" by (cases x)
    show ?case
    proof (rule Cons.IH)
      show "\<forall>y \<in> set ops. fst y \<le> now" using Cons.prems(1) by simp
      show "t0 \<le> now" if "write_step x w k = Some (t0, v0)" for t0 v0
        using that Cons.prems(1,2) unfolding x by (cases a) (auto split: if_splits)
      show "fold write_step ops (write_step x w) k = Some (t, v)"
        using Cons.prems(3) by simp
    qed
  qed
  from this [of Map.empty] assms show ?thesis by (simp add: writes_after_def sorted_append)
qed

lemma negative_ttl_never_hits:
  assumes "sorted (map fst ops @ [now])" "sint d < 0"
  shows "fst (Get now k (cache_after d ops)) = None"
  using cache_history [OF assms(1), of k d] assms(2) writes_after_past [OF assms(1), of k]
  by (auto simp: fresh_def split: option.splits)

end
