(* ===== verification/Targets.thy ===== *)
theory Targets
  imports Effects
begin

text \<open>
  \<open>internal/capi/target.go\<close>, \<open>target_pattern.go\<close> and \<open>resolve_patterns.go\<close>: the
  composite target strings \<open>kubeconfig/context/namespace/name\<close>, partial target patterns,
  and the resolution of the "clusters" argument of every tool.

  \<open>capi_cluster\<close> is the struct \<open>CAPICluster\<close> of \<open>clusters.go\<close>. A \<open>nil\<close> map of
  custom fields is the empty list. The argument \<open>listKnown\<close> of
  \<open>ResolveClusterPatterns\<close> is a program on an arbitrary state, so that whether it is
  called at all is visible.
\<close>

subsection \<open>Targets\<close>

record capi_cluster =
  KubeconfigName :: string
  Context :: string
  Namespace :: string
  Name :: string
  CustomFields :: "string gomap"

definition bare_cluster :: "string \<Rightarrow> string \<Rightarrow> string \<Rightarrow> string \<Rightarrow> capi_cluster" where
  "bare_cluster kn ctx ns nm =
     \<lparr>KubeconfigName = kn, Context = ctx, Namespace = ns, Name = nm, CustomFields = []\<rparr>"

definition cluster_path :: "capi_cluster \<Rightarrow> string list" where
  "cluster_path c = [KubeconfigName c, Context c, Namespace c, Name c]"

definition FormatTarget :: "capi_cluster \<Rightarrow> string" where
  "FormatTarget c = go_join ''/'' [KubeconfigName c, Context c, Namespace c, Name c]"

definition ParseTarget :: "string \<Rightarrow> (string \<times> string \<times> string \<times> string) res" where
  "ParseTarget target =
     (case split_on CHR ''/'' target of
        [kn, ctx, ns, nm] \<Rightarrow> Inr (kn, ctx, ns, nm)
      | _ \<Rightarrow> Inl (Errorf [Txt ''capi: invalid target '', Quo target,
                Txt '': want \"kubeconfig/context/namespace/name\"'']))"

definition slash_free :: "string \<Rightarrow> bool" where
  "slash_free s \<longleftrightarrow> CHR ''/'' \<notin> set s"

lemma slash_free_simps [simp]:
  "slash_free []" "slash_free (x # xs) \<longleftrightarrow> x \<noteq> CHR ''/'' \<and> slash_free xs"
  "slash_free (xs @ ys) \<longleftrightarrow> slash_free xs \<and> slash_free ys"
  by (auto simp: slash_free_def)

lemma FormatTarget_path: "FormatTarget c = go_join ''/'' (cluster_path c)"
  by (simp add: FormatTarget_def cluster_path_def)

lemma FormatTarget_bare [simp]:
  "FormatTarget (bare_cluster kn ctx ns nm) = go_join ''/'' [kn, ctx, ns, nm]"
  by (simp add: FormatTarget_def bare_cluster_def)

lemma split_slash_join:
  "xs \<noteq> [] \<Longrightarrow> \<forall>p \<in> set xs. slash_free p \<Longrightarrow> split_on CHR ''/'' (go_join ''/'' xs) = xs"
  by (rule split_on_go_join) (auto simp: slash_free_def)

lemma ParseTarget_Inr_iff:
  "ParseTarget s = Inr (kn, ctx, ns, nm) \<longleftrightarrow>
   s = go_join ''/'' [kn, ctx, ns, nm] \<and> slash_free kn \<and> slash_free ctx \<and> slash_free ns \<and> slash_free nm"
  (is "?L \<longleftrightarrow> ?R")
proof
  assume ?L
  then have parts: "split_on CHR ''/'' s = [kn, ctx, ns, nm]"
    by (auto simp: ParseTarget_def split: list.splits)
  then have "s = go_join ''/'' [kn, ctx, ns, nm]"
    by (metis go_join_split_on)
  moreover have "slash_free p" if "p \<in> {kn, ctx, ns, nm}" for p
    using split_on_parts_no_sep [of p "CHR ''/''" s] that parts by (auto simp: slash_free_def)
  ultimately show ?R by simp
next
  assume ?R
  then have "split_on CHR ''/'' s = [kn, ctx, ns, nm]"
    using split_slash_join [of "[kn, ctx, ns, nm]"] by simp
  then show ?L by (simp add: ParseTarget_def)
qed

lemma ParseTarget_ok_iff: "(\<exists>r. ParseTarget s = Inr r) \<longleftrightarrow> length (split_on CHR ''/'' s) = 4"
  by (auto simp: ParseTarget_def numeral_eq_Suc length_Suc_conv split: list.splits)

text \<open>
  C28: parsing is the exact inverse of formatting on slash-free fields, and the target that
  is listed for a cluster can be parsed back at all exactly when none of its four names
  contains a slash.
\<close>

theorem target_roundtrip:
  "(ParseTarget s = Inr (kn, ctx, ns, nm) \<longleftrightarrow>
      s = FormatTarget (bare_cluster kn ctx ns nm)
      \<and> slash_free kn \<and> slash_free ctx \<and> slash_free ns \<and> slash_free nm)
   \<and> ((\<exists>r. ParseTarget (FormatTarget c) = Inr r) \<longleftrightarrow>
      slash_free (KubeconfigName c) \<and> slash_free (Context c) \<and> slash_free (Namespace c) \<and> slash_free (Name c))"
proof -
  have "length (split_on CHR ''/'' (FormatTarget c)) =
      4 + (\<Sum>p \<leftarrow> cluster_path c. count_list p CHR ''/'')"
    by (simp add: length_split_on FormatTarget_def cluster_path_def)
  then have "(\<exists>r. ParseTarget (FormatTarget c) = Inr r) \<longleftrightarrow>
      slash_free (KubeconfigName c) \<and> slash_free (Context c) \<and> slash_free (Namespace c) \<and> slash_free (Name c)"
    using ParseTarget_ok_iff [of "FormatTarget c"]
    by (simp add: cluster_path_def slash_free_def count_list_0_iff)
  then show ?thesis by (simp add: ParseTarget_Inr_iff)
qed

text \<open>
  Context names with a slash do occur (the ARN that names an EKS context, for one). Such a
  cluster is listed, but no tool accepts the target it is listed under.
\<close>

lemma slash_context_unusable:
  "ParseTarget (FormatTarget (bare_cluster ''prod'' ''arn:aws:eks:eu:1:cluster/a'' ''ns'' ''n''))
     = Inl (Errorf [Txt ''capi: invalid target '', Quo ''prod/arn:aws:eks:eu:1:cluster/a/ns/n'',
                Txt '': want \"kubeconfig/context/namespace/name\"''])"
  by code_simp

subsection \<open>Target patterns\<close>

record target_pattern =
  p_KubeconfigName :: string
  p_Context :: string
  p_Namespace :: string
  p_Name :: string

definition IsExact :: "target_pattern \<Rightarrow> bool" where
  "IsExact p \<longleftrightarrow> p_Context p \<noteq> '''' \<and> p_Namespace p \<noteq> '''' \<and> p_Name p \<noteq> ''''"

definition ParseTargetPattern :: "string \<Rightarrow> target_pattern res" where
  "ParseTargetPattern target =
     (if target = '''' then
        Inl (Errorf [Txt ''capi: invalid target '', Quo target, Txt '': must not be empty''])
      else let parts = split_on CHR ''/'' target in
        if length parts > 4 then
          Inl (Errorf [Txt ''capi: invalid target '', Quo target,
            Txt '': want 1 to 4 slash-separated segments (kubeconfig[/context[/namespace[/name]]])''])
        else if '''' \<in> set parts then
          Inl (Errorf [Txt ''capi: invalid target '', Quo target, Txt '': empty segment''])
        else
          Inr \<lparr>p_KubeconfigName = parts ! 0,
               p_Context = (if length parts > 1 then parts ! 1 else ''''),
               p_Namespace = (if length parts > 2 then parts ! 2 else ''''),
               p_Name = (if length parts > 3 then parts ! 3 else '''')\<rparr>)"

definition Matches :: "target_pattern \<Rightarrow> capi_cluster \<Rightarrow> bool" where
  "Matches p c =
     (if KubeconfigName c \<noteq> p_KubeconfigName p then False
      else if p_Context p \<noteq> '''' \<and> Context c \<noteq> p_Context p then False
      else if p_Namespace p \<noteq> '''' \<and> Namespace c \<noteq> p_Namespace p then False
      else if p_Name p \<noteq> '''' \<and> Name c \<noteq> p_Name p then False
      else True)"

lemma Matches_iff:
  "Matches p c \<longleftrightarrow> KubeconfigName c = p_KubeconfigName p
     \<and> p_Context p \<in> {[], Context c} \<and> p_Namespace p \<in> {[], Namespace c} \<and> p_Name p \<in> {[], Name c}"
  by (auto simp: Matches_def)

definition ExpandTargetPattern :: "target_pattern \<Rightarrow> capi_cluster list \<Rightarrow> string list" where
  "ExpandTargetPattern p all = map FormatTarget (filter (Matches p) all)"

text \<open>
  The segments of a pattern are what the user wrote between the slashes. A pattern is
  accepted when it has one to four segments and none is empty.
\<close>

definition valid_segments :: "string list \<Rightarrow> bool" where
  "valid_segments xs \<longleftrightarrow> 1 \<le> length xs \<and> length xs \<le> 4 \<and> '''' \<notin> set xs"

lemma valid_segments_cases:
  assumes "valid_segments xs"
  obtains a where "xs = [a]" "a \<noteq> []"
    | a b where "xs = [a, b]" "a \<noteq> []" "b \<noteq> []"
    | a b c where "xs = [a, b, c]" "a \<noteq> []" "b \<noteq> []" "c \<noteq> []"
    | a b c d where "xs = [a, b, c, d]" "a \<noteq> []" "b \<noteq> []" "c \<noteq> []" "d \<noteq> []"
proof -
  have "length xs = 1 \<or> length xs = 2 \<or> length xs = 3 \<or> length xs = 4" and "[] \<notin> set xs"
    using assms by (auto simp: valid_segments_def)
  then show thesis
    using that by (auto simp: numeral_eq_Suc length_Suc_conv)
qed

lemma ParseTargetPattern_ok_iff:
  "(\<exists>p. ParseTargetPattern s = Inr p) \<longleftrightarrow> valid_segments (split_on CHR ''/'' s)"
proof (cases "s = ''''")
  case True
  then show ?thesis by (simp add: ParseTargetPattern_def valid_segments_def)
next
  case False
  have "1 \<le> length (split_on CHR ''/'' s)" by (simp add: length_split_on)
  with False show ?thesis by (auto simp: ParseTargetPattern_def valid_segments_def Let_def)
qed

lemma ParseTargetPattern_Inr:
  assumes "ParseTargetPattern s = Inr p"
  shows "valid_segments (split_on CHR ''/'' s)"
    and "p = \<lparr>p_KubeconfigName = split_on CHR ''/'' s ! 0,
           p_Context = (if length (split_on CHR ''/'' s) > 1 then split_on CHR ''/'' s ! 1 else ''''),
           p_Namespace = (if length (split_on CHR ''/'' s) > 2 then split_on CHR ''/'' s ! 2 else ''''),
           p_Name = (if length (split_on CHR ''/'' s) > 3 then split_on CHR ''/'' s ! 3 else '''')\<rparr>"
  using assms ParseTargetPattern_ok_iff [of s]
  by (auto simp: ParseTargetPattern_def Let_def split: if_splits)

lemma parsed_pattern_Matches:
  assumes "ParseTargetPattern s = Inr p"
  shows "Matches p c \<longleftrightarrow> prefix (split_on CHR ''/'' s) [KubeconfigName c, Context c, Namespace c, Name c]"
  using ParseTargetPattern_Inr [OF assms]
  by (elim valid_segments_cases) (auto simp: Matches_iff)

lemma parsed_pattern_IsExact:
  assumes "ParseTargetPattern s = Inr p"
  shows "IsExact p \<longleftrightarrow> length (split_on CHR ''/'' s) = 4"
  using ParseTargetPattern_Inr [OF assms]
  by (elim valid_segments_cases) (auto simp: IsExact_def)

text \<open>
  C27: a parsed pattern selects exactly the clusters whose path starts with the segments
  that were written, and it is exact precisely when it has all four.
\<close>

theorem pattern_is_prefix:
  assumes "ParseTargetPattern s = Inr p"
  shows "(Matches p c \<longleftrightarrow> prefix (split_on CHR ''/'' s) [KubeconfigName c, Context c, Namespace c, Name c])
    \<and> (IsExact p \<longleftrightarrow> length (split_on CHR ''/'' s) = 4)"
  using assms by (simp add: parsed_pattern_Matches parsed_pattern_IsExact)

theorem pattern_is_prefix_witness:
  "Matches \<lparr>p_KubeconfigName = ''prod'', p_Context = ''eu'', p_Namespace = '''', p_Name = ''''\<rparr>
     (bare_cluster ''prod'' ''eu'' ''team'' ''web'')"
proof -
  have "ParseTargetPattern ''prod/eu'' =
      Inr \<lparr>p_KubeconfigName = ''prod'', p_Context = ''eu'', p_Namespace = '''', p_Name = ''''\<rparr>"
    by code_simp
  moreover have "prefix (split_on CHR ''/'' ''prod/eu'') [''prod'', ''eu'', ''team'', ''web'']"
    by code_simp
  ultimately show ?thesis
    using pattern_is_prefix [of "''prod/eu''" _ "bare_cluster ''prod'' ''eu'' ''team'' ''web''"]
    by (auto simp: bare_cluster_def)
qed

lemma exact_pattern_target:
  assumes "ParseTargetPattern s = Inr p" "IsExact p"
  shows "FormatTarget (bare_cluster (p_KubeconfigName p) (p_Context p) (p_Namespace p) (p_Name p)) = s"
proof -
  note p = ParseTargetPattern_Inr(2) [OF assms(1)]
  have "s = go_join ''/'' (split_on CHR ''/'' s)" by simp
  with ParseTargetPattern_Inr(1) [OF assms(1)] assms(2) show ?thesis
    by (cases rule: valid_segments_cases) (auto simp: p IsExact_def simp del: go_join_split_on)
qed

subsection \<open>Deduplication in first-seen order\<close>

primrec append_unseen ::
    "string list \<Rightarrow> (string \<Rightarrow> bool) \<times> string list \<Rightarrow> (string \<Rightarrow> bool) \<times> string list" where
  "append_unseen [] acc = acc"
| "append_unseen (t # ts) acc =
     append_unseen ts
       (if \<not> fst acc t then ((fst acc)(t := True), snd acc @ [t]) else acc)"

definition dedupePreserveOrder :: "string list \<Rightarrow> string list" where
  "dedupePreserveOrder xs = snd (append_unseen xs (\<lambda>_. False, []))"

text \<open>The reference: keep the first of equal elements.\<close>

definition first_seen :: "'a list \<Rightarrow> 'a list" where
  "first_seen xs = rev (remdups (rev xs))"

lemma remdups_snoc: "remdups (ys @ [x]) = filter (\<lambda>y. y \<noteq> x) (remdups ys) @ [x]"
  by (induction ys) auto

lemma first_seen_simps [simp]:
  "first_seen [] = []" "first_seen (x # xs) = x # filter (\<lambda>y. y \<noteq> x) (first_seen xs)"
  by (simp_all add: first_seen_def remdups_snoc rev_filter)

lemma set_first_seen [simp]: "set (first_seen xs) = set xs"
  by (simp add: first_seen_def)

lemma distinct_first_seen [simp]: "distinct (first_seen xs)"
  by (simp add: first_seen_def)

lemma first_seen_distinct: "distinct xs \<Longrightarrow> first_seen xs = xs"
  by (simp add: first_seen_def distinct_remdups_id)

lemma append_unseen_eq:
  "append_unseen xs (seen, out) =
     ((\<lambda>t. seen t \<or> t \<in> set xs), out @ filter (\<lambda>t. \<not> seen t) (first_seen xs))"
proof (induction xs arbitrary: seen out)
  case Nil
  then show ?case by simp
next
  case (Cons x xs)
  then show ?case by (auto simp: fun_eq_iff filter_filter intro!: filter_cong)
qed

lemma dedupe_eq_first_seen: "dedupePreserveOrder xs = first_seen xs"
  by (simp add: dedupePreserveOrder_def append_unseen_eq)

lemma append_unseen_append:
  "append_unseen (xs @ ys) acc = append_unseen ys (append_unseen xs acc)"
  by (induction xs arbitrary: acc) auto

lemma fold_append_unseen:
  "fold (\<lambda>x. append_unseen (f x)) xs acc = append_unseen (concat (map f xs)) acc"
  by (induction xs arbitrary: acc) (auto simp: append_unseen_append)

subsection \<open>Resolving the clusters argument\<close>

definition check_full_path :: "string \<Rightarrow> unit res" where
  "check_full_path p =
     (case ParseTarget p of
        Inl e \<Rightarrow> Inl (Wrapf [Txt ''cluster entry '', Quo p,
                   Txt '' must be a full kubeconfig/context/namespace/name path: ''] e)
      | Inr _ \<Rightarrow> Inr ())"

definition pattern_matches :: "capi_cluster list \<Rightarrow> target_pattern \<Rightarrow> string list" where
  "pattern_matches known p =
     (if IsExact p
      then [FormatTarget (bare_cluster (p_KubeconfigName p) (p_Context p) (p_Namespace p) (p_Name p))]
      else ExpandTargetPattern p known)"

definition collect_matches :: "target_pattern list \<Rightarrow> capi_cluster list \<Rightarrow> string list" where
  "collect_matches parsed known =
     snd (fold (\<lambda>p. append_unseen (pattern_matches known p)) parsed (\<lambda>_. False, []))"

definition ResolveClusterPatterns ::
    "string list \<Rightarrow> ('s, capi_cluster list res) prog \<Rightarrow> bool \<Rightarrow> ('s, string list res) prog" where
  "ResolveClusterPatterns patterns listKnown strict =
     (if strict then
        (case res_map_list check_full_path patterns of
           Inl e \<Rightarrow> Done (Inl e)
         | Inr _ \<Rightarrow> Done (Inr (dedupePreserveOrder patterns)))
      else
        (case res_map_list ParseTargetPattern patterns of
           Inl e \<Rightarrow> Done (Inl e)
         | Inr parsed \<Rightarrow>
             let needsExpansion = list_ex (\<lambda>p. \<not> IsExact p) parsed in
             ebind (if needsExpansion then listKnown else Done (Inr []))
               (\<lambda>known. Done (Inr (collect_matches parsed known)))))"

text \<open>
  The reference for the expansion, in terms of what the user wrote: an entry with four
  segments stands for itself, a shorter one for every known cluster below that path.
\<close>

definition selected_by :: "capi_cluster list \<Rightarrow> string \<Rightarrow> string list" where
  "selected_by known s =
     (if length (split_on CHR ''/'' s) = 4 then [s]
      else map FormatTarget
        (filter (\<lambda>c. prefix (split_on CHR ''/'' s) [KubeconfigName c, Context c, Namespace c, Name c]) known))"

definition full_path :: "string \<Rightarrow> bool" where
  "full_path s \<longleftrightarrow> length (split_on CHR ''/'' s) = 4"

lemma full_path_ParseTarget: "full_path s \<longleftrightarrow> (\<exists>r. ParseTarget s = Inr r)"
  unfolding full_path_def by (rule ParseTarget_ok_iff [symmetric])

lemma check_full_path_ok_iff: "(\<exists>u. check_full_path s = Inr u) \<longleftrightarrow> full_path s"
  by (auto simp: check_full_path_def full_path_ParseTarget split: sum.splits)

lemma pattern_matches_selected:
  assumes "ParseTargetPattern s = Inr p"
  shows "pattern_matches known p = selected_by known s" "IsExact p \<longleftrightarrow> full_path s"
proof -
  show exact: "IsExact p \<longleftrightarrow> full_path s"
    by (simp add: parsed_pattern_IsExact [OF assms] full_path_def)
  have match: "Matches p =
      (\<lambda>c. prefix (split_on CHR ''/'' s) [KubeconfigName c, Context c, Namespace c, Name c])"
    using parsed_pattern_Matches [OF assms] by (simp add: fun_eq_iff)
  show "pattern_matches known p = selected_by known s"
    using exact exact_pattern_target [OF assms]
    by (auto simp: pattern_matches_def selected_by_def full_path_def ExpandTargetPattern_def match)
qed

lemma collect_matches_eq:
  "collect_matches parsed known = first_seen (concat (map (pattern_matches known) parsed))"
  by (simp add: collect_matches_def fold_append_unseen append_unseen_eq)

lemma parsed_patterns:
  assumes "res_map_list ParseTargetPattern ps = Inr parsed"
  shows "map (pattern_matches known) parsed = map (selected_by known) ps"
    and "list_ex (\<lambda>p. \<not> IsExact p) parsed \<longleftrightarrow> \<not> (\<forall>s \<in> set ps. full_path s)"
proof -
  have all2: "list_all2 (\<lambda>s p. ParseTargetPattern s = Inr p) ps parsed"
    using assms by (simp add: res_map_list_Inr)
  then show "map (pattern_matches known) parsed = map (selected_by known) ps"
    by (induction rule: list_all2_induct) (auto simp: pattern_matches_selected)
  from all2 show "list_ex (\<lambda>p. \<not> IsExact p) parsed \<longleftrightarrow> \<not> (\<forall>s \<in> set ps. full_path s)"
    by (induction rule: list_all2_induct) (auto simp: pattern_matches_selected)
qed

lemma selected_full_paths: "list_all full_path ps \<Longrightarrow> concat (map (selected_by known) ps) = ps"
  by (induction ps) (auto simp: selected_by_def full_path_def)

lemma resolve_patterns_eq:
  "ResolveClusterPatterns ps listKnown False =
     (case res_map_list ParseTargetPattern ps of
        Inl e \<Rightarrow> Done (Inl e)
      | Inr _ \<Rightarrow>
          if list_all full_path ps then Done (Inr (first_seen ps))
          else ebind listKnown (\<lambda>known. Done (Inr (first_seen (concat (map (selected_by known) ps))))))"
proof (cases "res_map_list ParseTargetPattern ps")
  case (Inl e)
  then show ?thesis by (simp add: ResolveClusterPatterns_def)
next
  case (Inr parsed)
  with parsed_patterns [OF Inr] show ?thesis
    by (auto simp: selected_full_paths ResolveClusterPatterns_def collect_matches_eq list_all_iff Let_def)
qed

lemma resolve_known:
  assumes "\<forall>p \<in> set ps. valid_segments (split_on CHR ''/'' p)"
  shows "ResolveClusterPatterns ps (Done (Inr known)) False =
    Done (Inr (first_seen (concat (map (selected_by known) ps))))"
proof (cases "res_map_list ParseTargetPattern ps")
  case (Inl e)
  then obtain p where "p \<in> set ps" "ParseTargetPattern p = Inl e" using res_map_list_Inl by blast
  with assms ParseTargetPattern_ok_iff [of p] show ?thesis by auto
next
  case (Inr parsed)
  then show ?thesis by (simp add: resolve_patterns_eq selected_full_paths)
qed

lemma check_full_paths_ok_iff: "(\<exists>us. res_map_list check_full_path ps = Inr us) \<longleftrightarrow> list_all full_path ps"
proof (cases "res_map_list check_full_path ps")
  case (Inl e)
  then obtain s where "s \<in> set ps" "check_full_path s = Inl e"
    using res_map_list_Inl by blast
  then have "\<not> list_all full_path ps"
    using check_full_path_ok_iff [of s] by (auto simp: list_all_iff)
  with Inl show ?thesis by simp
next
  case (Inr us)
  then have "list_all2 (\<lambda>s u. check_full_path s = Inr u) ps us"
    by (simp add: res_map_list_Inr)
  then have "list_all full_path ps"
    by (induction rule: list_all2_induct) (auto simp: check_full_path_ok_iff [symmetric])
  with Inr show ?thesis by simp
qed

lemma resolve_strict:
  "list_all full_path ps \<Longrightarrow> ResolveClusterPatterns ps listKnown True = Done (Inr (first_seen ps))"
  "\<not> list_all full_path ps \<Longrightarrow> \<exists>e. ResolveClusterPatterns ps listKnown True = Done (Inl e)"
  using check_full_paths_ok_iff [of ps]
  by (auto simp: ResolveClusterPatterns_def dedupe_eq_first_seen split: sum.split)


text \<open>
  Strict resolution never asks for the known clusters and never widens the selection.
  It succeeds exactly when every entry is a full path, and then returns the entries
  themselves, without repetitions, in the order in which they were given.
\<close>

theorem strict_never_expands:
  "(\<exists>r. ResolveClusterPatterns ps listKnown True = Done r
       \<and> (r = Inr ts \<longleftrightarrow> list_all full_path ps \<and> ts = first_seen ps))
   \<and> set (first_seen ps) = set ps \<and> distinct (first_seen ps)"
  using resolve_strict [of ps listKnown] by (cases "list_all full_path ps") auto

text \<open>
  The two modes do not agree on what a full path is: an empty segment is refused in a
  pattern and accepted by the strict check.
\<close>

lemma strict_accepts_empty_segments:
  "ResolveClusterPatterns [''prod//ns/''] listKnown True = Done (Inr [''prod//ns/''])"
  "ResolveClusterPatterns [''prod//ns/''] listKnown False =
     Done (Inl (Errorf [Txt ''capi: invalid target '', Quo ''prod//ns/'', Txt '': empty segment'']))"
proof -
  have "res_map_list check_full_path [''prod//ns/''] = Inr [()]"
    "dedupePreserveOrder [''prod//ns/''] = [''prod//ns/'']"
    "res_map_list ParseTargetPattern [''prod//ns/''] =
       Inl (Errorf [Txt ''capi: invalid target '', Quo ''prod//ns/'', Txt '': empty segment''])"
    by code_simp+
  then show "ResolveClusterPatterns [''prod//ns/''] listKnown True = Done (Inr [''prod//ns/''])"
    "ResolveClusterPatterns [''prod//ns/''] listKnown False =
     Done (Inl (Errorf [Txt ''capi: invalid target '', Quo ''prod//ns/'', Txt '': empty segment'']))"
    by (simp_all only: ResolveClusterPatterns_def if_True if_False sum.case)
qed

end
