(* ===== verification/Store.thy ===== *)
theory Store
  imports Complex_Main Cache Targets "HOL-Library.Signed_Division"
begin

text \<open>
  \<open>internal/capi/store.go\<close>, and the conversions between configured seconds and
  \<open>time.Duration\<close> that \<open>main.go\<close>, \<open>internal/server/kubeconfig.go\<close> and
  \<open>internal/proxy/manager.go\<close> make with the cache lifetimes.
\<close>

subsection \<open>Durations\<close>

text \<open>\<open>time.Duration(n) * time.Second\<close>: a product of signed 64-bit integers, which wraps.\<close>

definition seconds_duration :: "int64 \<Rightarrow> duration" where
  "seconds_duration n = n * 1000000000"

text \<open>
  \<open>d.Seconds()\<close> is computed in \<open>float64\<close>. Binary doubles are rationals here;
  \<open>round_double\<close> rounds to 53 significant bits, to the nearest and to even on a tie, for
  magnitudes below \<open>2 ^ 53\<close> (all that occurs here).
\<close>

definition round_half_even :: "rat \<Rightarrow> int" where
  "round_half_even x =
     (let f = \<lfloor>x\<rfloor>; d = x - of_int f
      in if d < 1 / 2 then f else if d > 1 / 2 then f + 1 else if even f then f else f + 1)"

function binary_places :: "rat \<Rightarrow> nat \<Rightarrow> nat" where
  "binary_places x e = (if \<bar>x\<bar> * 2 ^ e < 2 ^ 52 \<and> e < 1074 then binary_places x (Suc e) else e)"
  by pat_completeness auto
termination
  by (relation "measure (\<lambda>(x, e). 1074 - e)") auto

declare binary_places.simps [simp del]

definition round_double :: "rat \<Rightarrow> rat" where
  "round_double x =
     (if x = 0 then 0
      else let e = binary_places x 0 in of_int (round_half_even (x * 2 ^ e)) / 2 ^ e)"

definition truncate_rat :: "rat \<Rightarrow> int" where
  "truncate_rat x = (if x < 0 then \<lceil>x\<rceil> else \<lfloor>x\<rfloor>)"

text \<open>\<open>int(d.Seconds())\<close> and \<open>int64(d.Seconds())\<close>.\<close>

definition duration_seconds :: "duration \<Rightarrow> int64" where
  "duration_seconds d =
     (let sec = sint d sdiv 1000000000; nsec = sint d smod 1000000000
      in word_of_int (truncate_rat
           (round_double (of_int sec + round_double (of_int nsec / 1000000000)))))"

lemma round_half_even_of_int [simp]: "round_half_even (of_int k) = k"
  by (simp add: round_half_even_def)

lemma round_double_of_int [simp]: "round_double (of_int k) = of_int k"
proof (cases "k = 0")
  case False
  define e where "e = binary_places (of_int k) 0"
  have "of_int k * 2 ^ e = (of_int (k * 2 ^ e) :: rat)" by simp
  then have "round_half_even (of_int k * 2 ^ e) = k * 2 ^ e"
    by (simp only: round_half_even_of_int)
  with False show ?thesis by (simp add: round_double_def e_def Let_def)
qed (simp add: round_double_def)

lemma sint_seconds_duration:
  assumes "\<bar>sint n\<bar> \<le> 9223372036"
  shows "sint (seconds_duration n) = sint n * 1000000000"
proof -
  have "sint (seconds_duration n) = signed_take_bit 63 (sint n * 1000000000)"
    by (simp add: seconds_duration_def sint_word_mult)
  also have "\<dots> = sint n * 1000000000"
    using assms by (intro signed_take_bit_int_eq_self) auto
  finally show ?thesis .
qed

lemma sint_seconds_duration_wraps:
  assumes "9223372037 \<le> sint n" "sint n \<le> 18446744073"
  shows "sint (seconds_duration n) = sint n * 1000000000 - 2 ^ 64"
proof -
  let ?x = "sint n * 1000000000"
  have "sint (seconds_duration n) = signed_take_bit 63 ?x"
    by (simp add: seconds_duration_def sint_word_mult)
  also have "\<dots> = (?x + 2 ^ 63) mod 2 ^ 64 - 2 ^ 63"
    by (simp add: signed_take_bit_eq_take_bit_shift take_bit_eq_mod)
  also have "(?x + 2 ^ 63) mod 2 ^ 64 = (?x + 2 ^ 63 - 2 ^ 64) mod 2 ^ 64"
    by (rule minus_mod_self2 [symmetric])
  also have "\<dots> = ?x + 2 ^ 63 - 2 ^ 64"
    using assms by (intro mod_pos_pos_trivial) auto
  finally show ?thesis by simp
qed

lemma duration_seconds_exact:
  assumes "sint d = s * 1000000000"
  shows "duration_seconds d = word_of_int s"
proof -
  have "sint d sdiv 1000000000 = s" "sint d smod 1000000000 = 0"
    by (simp_all add: assms signed_divide_int_def signed_modulo_int_def abs_mult sgn_mult
        sgn_mult_abs)
  then show ?thesis
    by (simp add: duration_seconds_def truncate_rat_def round_double_def [of 0])
qed

subsection \<open>The two caches\<close>

record proxy_target =
  pt_SshuttleHost :: string
  pt_APIServerIP :: string
  pt_APIServerPort :: string

record cached_kubeconfig =
  Kubeconfig :: string
  ProxyTarget :: "proxy_target option"

record caches =
  ClusterList :: "(string, capi_cluster list) ttl_cache"
  KubeconfigCache :: "(string, cached_kubeconfig) ttl_cache"

definition NewStore :: "duration \<Rightarrow> duration \<Rightarrow> caches" where
  "NewStore clusterListTTL kubeconfigTTL =
     \<lparr>ClusterList = New clusterListTTL, KubeconfigCache = New kubeconfigTTL\<rparr>"

definition ClusterListKey :: "string \<Rightarrow> string \<Rightarrow> string" where
  "ClusterListKey kubeconfigName context = kubeconfigName @ '':'' @ context"

definition KubeconfigKey :: "string \<Rightarrow> string \<Rightarrow> string \<Rightarrow> string \<Rightarrow> string" where
  "KubeconfigKey kubeconfigName context namespace clusterName =
     kubeconfigName @ '':'' @ context @ '':'' @ namespace @ '':'' @ clusterName"

definition colon_free :: "string \<Rightarrow> bool" where
  "colon_free s \<longleftrightarrow> CHR '':'' \<notin> set s"

lemma ClusterListKey_inj:
  "colon_free kn \<Longrightarrow> colon_free kn' \<Longrightarrow>
   ClusterListKey kn ctx = ClusterListKey kn' ctx' \<longleftrightarrow> kn = kn' \<and> ctx = ctx'"
  by (simp add: ClusterListKey_def colon_free_def append_sep_eq_first)

lemma KubeconfigKey_inj:
  assumes "colon_free kn" "colon_free ns" "colon_free nm"
    and "colon_free kn'" "colon_free ns'" "colon_free nm'"
  shows "KubeconfigKey kn ctx ns nm = KubeconfigKey kn' ctx' ns' nm' \<longleftrightarrow>
    (kn, ctx, ns, nm) = (kn', ctx', ns', nm')"
proof -
  have "KubeconfigKey kn ctx ns nm = KubeconfigKey kn' ctx' ns' nm' \<longleftrightarrow>
      kn = kn' \<and> (ctx @ CHR '':'' # ns) @ CHR '':'' # nm = (ctx' @ CHR '':'' # ns') @ CHR '':'' # nm'"
    using assms by (simp add: KubeconfigKey_def colon_free_def append_sep_eq_first)
  also have "\<dots> \<longleftrightarrow> kn = kn' \<and> nm = nm' \<and> ctx @ CHR '':'' # ns = ctx' @ CHR '':'' # ns'"
    using assms by (subst append_sep_eq_last) (auto simp: colon_free_def)
  also have "\<dots> \<longleftrightarrow> (kn, ctx, ns, nm) = (kn', ctx', ns', nm')"
    using assms by (subst append_sep_eq_last) (auto simp: colon_free_def)
  finally show ?thesis .
qed



text \<open>
  Nothing in the configuration forbids a colon in the name of a kubeconfig entry, and then
  two different entries do share cache keys.
\<close>

lemma key_collision:
  "KubeconfigKey ''prod:eu'' ''admin'' ''ns'' ''web'' = KubeconfigKey ''prod'' ''eu:admin'' ''ns'' ''web''"
  "ClusterListKey ''prod:eu'' ''admin'' = ClusterListKey ''prod'' ''eu:admin''"
  by (simp_all add: KubeconfigKey_def ClusterListKey_def)

text \<open>
  C38: a configured lifetime of up to 9223372036 seconds is kept exactly, also when it is
  converted back to seconds; a longer one (up to twice that) overflows to a negative
  duration, and then no read of the kubeconfig cache ever succeeds.
\<close>

theorem ttl_conversion:
  assumes "0 \<le> sint n" "sint n \<le> 18446744073" "sorted (map fst ops @ [now])"
  shows "(if sint n \<le> 9223372036
          then sint (seconds_duration n) = sint n * 1000000000 \<and> duration_seconds (seconds_duration n) = n
          else sint (seconds_duration n) < 0 \<and>
               fst (Get now k (cache_after (seconds_duration n) ops)) = None)"
proof (cases "sint n \<le> 9223372036")
  case True
  then have "sint (seconds_duration n) = sint n * 1000000000"
    using assms(1) by (intro sint_seconds_duration) simp
  with True show ?thesis by (simp add: duration_seconds_exact)
next
  case False
  then have "sint (seconds_duration n) < 0"
    using sint_seconds_duration_wraps [of n] assms(2) by simp
  with False show ?thesis by (simp add: negative_ttl_never_hits [OF assms(3)])
qed

theorem ttl_conversion_witness:
  "duration_seconds (seconds_duration 3600) = 3600
   \<and> fst (Get 1 ''k'' (cache_after (seconds_duration 9223372037) [(0, Op_Set ''k'' (7::nat))])) = None"
  using ttl_conversion [of 3600 "[(0, Op_Set ''k'' (7::nat))]" 1 "''k''"]
    ttl_conversion [of 9223372037 "[(0, Op_Set ''k'' (7::nat))]" 1 "''k''"]
  by simp

end
