(* ===== verification/Config.thy ===== *)
theory Config
  imports Store
begin

text \<open>
  \<open>internal/config/config.go\<close>: the YAML configuration file.

  The YAML decoder (\<open>gopkg.in/yaml.v3\<close>) and the file system are parameters; a decoded
  document is a value of \<open>yaml\<close>, with one constructor for every Go type that a type
  assertion of this package can recognise and \<open>Y_Other\<close> for all remaining values. The
  environment is the parameter \<open>getenv\<close> (\<open>os.Getenv\<close>, \<open>''''\<close> when unset).
\<close>

subsection \<open>Decoded values\<close>

text \<open>
  Converting a float that does not fit into 64 bits is left open by the Go specification;
  the parameter \<open>oor\<close> is what the compiler makes of it.
\<close>

datatype float64 = Finite rat | Non_Finite

definition float_to_int64 :: "(float64 \<Rightarrow> int64) \<Rightarrow> float64 \<Rightarrow> int64" where
  "float_to_int64 oor x =
     (case x of
        Finite r \<Rightarrow>
          if - (2 ^ 63) \<le> truncate_rat r \<and> truncate_rat r < 2 ^ 63 then word_of_int (truncate_rat r)
          else oor x
      | Non_Finite \<Rightarrow> oor x)"

datatype yaml =
    Y_Null
  | Y_Bool bool
  | Y_Int int64
  | Y_Int64 int64
  | Y_Float float64
  | Y_Str string
  | Y_Seq "yaml list"
  | Y_Map "(string \<times> yaml) list"
  | Y_Other

text \<open>The type assertions \<open>.(map[string]any)\<close> and \<open>.(string)\<close>; a missing key is \<open>nil\<close>.\<close>

definition as_map :: "yaml option \<Rightarrow> yaml gomap option" where
  "as_map v = (case v of Some (Y_Map m) \<Rightarrow> Some m | _ \<Rightarrow> None)"

definition as_str :: "yaml option \<Rightarrow> string option" where
  "as_str v = (case v of Some (Y_Str s) \<Rightarrow> Some s | _ \<Rightarrow> None)"

lemma as_map_Some [simp]: "as_map v = Some m \<longleftrightarrow> v = Some (Y_Map m)"
  by (auto simp: as_map_def split: option.splits yaml.splits)

lemma as_str_Some [simp]: "as_str v = Some s \<longleftrightarrow> v = Some (Y_Str s)"
  by (auto simp: as_str_def split: option.splits yaml.splits)

subsection \<open>The configuration\<close>

record kubeconfig_transforms =
  tr_Clusters :: string
  tr_Contexts :: string
  tr_Users :: string

record kubeconfig_source =
  src_Name :: string
  src_Path :: string
  src_Contexts :: "string list"
  src_SshuttleHost :: string

record cache_config =
  ClusterListTTLSeconds :: int64
  KubeconfigTTLSeconds :: int64

record app_config =
  cfg_Kubeconfigs :: "kubeconfig_source gomap"
  cfg_Transforms :: "kubeconfig_transforms option"
  cfg_CustomFields :: "string gomap"
  cfg_SshuttleHost :: string
  cfg_Cache :: cache_config

definition defaultClusterListTTLSeconds :: int64 where
  "defaultClusterListTTLSeconds = 300"

definition defaultKubeconfigTTLSeconds :: int64 where
  "defaultKubeconfigTTLSeconds = 3600"

subsection \<open>Environment variables in strings\<close>

text \<open>
  The pattern \<^verbatim>\<open>\$\{([^}]+)\}|\$([A-Za-z_][A-Za-z0-9_]*)\<close>, matched just after a dollar
  sign: the variable's name and the rest of the string behind the match.
\<close>

definition name_start :: "char \<Rightarrow> bool" where
  "name_start c \<longleftrightarrow> (CHR ''A'' \<le> c \<and> c \<le> CHR ''Z'') \<or> (CHR ''a'' \<le> c \<and> c \<le> CHR ''z'') \<or> c = CHR ''_''"

definition name_char :: "char \<Rightarrow> bool" where
  "name_char c \<longleftrightarrow> name_start c \<or> (CHR ''0'' \<le> c \<and> c \<le> CHR ''9'')"

definition match_braced :: "string \<Rightarrow> (string \<times> string) option" where
  "match_braced s =
     (case s of
        [] \<Rightarrow> None
      | c # r \<Rightarrow>
          if c \<noteq> CHR ''{'' then None
          else (case dropWhile (\<lambda>d. d \<noteq> CHR ''}'') r of
                  [] \<Rightarrow> None
                | _ # rest \<Rightarrow>
                    if takeWhile (\<lambda>d. d \<noteq> CHR ''}'') r = [] then None
                    else Some (takeWhile (\<lambda>d. d \<noteq> CHR ''}'') r, rest)))"

definition match_bare :: "string \<Rightarrow> (string \<times> string) option" where
  "match_bare s =
     (case s of
        [] \<Rightarrow> None
      | c # r \<Rightarrow> if name_start c then Some (c # takeWhile name_char r, dropWhile name_char r) else None)"

definition match_var :: "string \<Rightarrow> (string \<times> string) option" where
  "match_var s = (case match_braced s of Some m \<Rightarrow> Some m | None \<Rightarrow> match_bare s)"

lemma match_var_shorter: "match_var s = Some (n, rest) \<Longrightarrow> length rest < length s"
proof -
  have drop: "length (dropWhile P xs) \<le> length xs" for P and xs :: string
    by (rule length_dropWhile_le)
  assume "match_var s = Some (n, rest)"
  then show ?thesis
    using drop [of name_char "tl s"] drop [of "\<lambda>d. d \<noteq> CHR ''}''" "tl s"]
    by (auto simp: match_var_def match_braced_def match_bare_def less_Suc_eq_le
        split: option.splits list.splits if_splits)
qed

function expandEnv :: "(string \<Rightarrow> string) \<Rightarrow> string \<Rightarrow> string" where
  "expandEnv getenv [] = []"
| "expandEnv getenv (c # r) =
     (if c = CHR ''$'' then
        (case match_var r of
           Some (name, rest) \<Rightarrow> getenv name @ expandEnv getenv rest
         | None \<Rightarrow> c # expandEnv getenv r)
      else c # expandEnv getenv r)"
  by pat_completeness auto
termination
  by (relation "measure (\<lambda>(g, s). length s)") (auto dest: match_var_shorter)

subsection \<open>Reading the parts of the document\<close>

definition toInt :: "(float64 \<Rightarrow> int64) \<Rightarrow> yaml option \<Rightarrow> int64 option" where
  "toInt oor v =
     (case v of
        Some (Y_Int n) \<Rightarrow> Some n
      | Some (Y_Int64 n) \<Rightarrow> Some n
      | Some (Y_Float x) \<Rightarrow> Some (float_to_int64 oor x)
      | _ \<Rightarrow> None)"

definition or_empty :: "string option \<Rightarrow> string" where
  "or_empty v = (case v of Some s \<Rightarrow> s | None \<Rightarrow> '''')"

definition parseTransforms :: "yaml option \<Rightarrow> kubeconfig_transforms option" where
  "parseTransforms raw =
     (case as_map raw of
        None \<Rightarrow> None
      | Some obj \<Rightarrow>
          let cl = as_str (map_of obj ''clusters'');
              ctx = as_str (map_of obj ''contexts'');
              us = as_str (map_of obj ''users'')
          in if cl = None \<and> ctx = None \<and> us = None then None
             else Some \<lparr>tr_Clusters = or_empty cl, tr_Contexts = or_empty ctx, tr_Users = or_empty us\<rparr>)"

definition parseContexts :: "yaml option \<Rightarrow> string list" where
  "parseContexts raw =
     (case raw of
        Some (Y_Seq xs) \<Rightarrow> List.map_filter (\<lambda>v. as_str (Some v)) xs
      | _ \<Rightarrow> [])"

definition parseCustomFields :: "yaml option \<Rightarrow> string gomap" where
  "parseCustomFields raw =
     (case as_map raw of
        None \<Rightarrow> []
      | Some obj \<Rightarrow> List.map_filter (\<lambda>(k, v). map_option (Pair k) (as_str (Some v))) obj)"

definition readSshuttleHost :: "(string \<Rightarrow> string) \<Rightarrow> yaml gomap \<Rightarrow> string" where
  "readSshuttleHost getenv raw =
     (case as_map (map_of raw ''plugins'') of None \<Rightarrow> '''' | Some plugins \<Rightarrow>
      case as_map (map_of plugins ''api-endpoint-proxy'') of None \<Rightarrow> '''' | Some proxyPlugin \<Rightarrow>
      case as_map (map_of proxyPlugin ''sshuttle'') of None \<Rightarrow> '''' | Some sshuttle \<Rightarrow>
      case as_str (map_of sshuttle ''host'') of None \<Rightarrow> '''' | Some host \<Rightarrow> expandEnv getenv host)"

subsection \<open>Loading\<close>

text \<open>One iteration of the loop over the \<open>kubeconfigs\<close> map.\<close>

definition parse_entry :: "(string \<Rightarrow> string) \<Rightarrow> string \<times> yaml \<Rightarrow> (string \<times> kubeconfig_source) res" where
  "parse_entry getenv nv =
     (case nv of (name, v) \<Rightarrow>
      case as_map (Some v) of
        None \<Rightarrow> Inl (Errorf [Txt ''config: kubeconfigs.'', Txt name, Txt '' must be an object''])
      | Some entry \<Rightarrow>
          (case as_str (map_of entry ''path'') of
             None \<Rightarrow> Inl (Errorf [Txt ''config: kubeconfigs.'', Txt name, Txt ''.path must be a string''])
           | Some path \<Rightarrow>
               Inr (name, \<lparr>src_Name = name, src_Path = expandEnv getenv path,
                           src_Contexts = parseContexts (map_of entry ''contexts''),
                           src_SshuttleHost = readSshuttleHost getenv entry\<rparr>)))"

definition read_cache_config :: "(float64 \<Rightarrow> int64) \<Rightarrow> yaml gomap \<Rightarrow> cache_config" where
  "read_cache_config oor raw =
     (let defaults = \<lparr>ClusterListTTLSeconds = defaultClusterListTTLSeconds,
                      KubeconfigTTLSeconds = defaultKubeconfigTTLSeconds\<rparr>
      in case as_map (map_of raw ''cache'') of
           None \<Rightarrow> defaults
         | Some rawCache \<Rightarrow>
             let c1 = (case toInt oor (map_of rawCache ''cluster_list_ttl'') of
                         None \<Rightarrow> defaults | Some v \<Rightarrow> defaults\<lparr>ClusterListTTLSeconds := v\<rparr>)
             in (case toInt oor (map_of rawCache ''kubeconfig_ttl'') of
                   None \<Rightarrow> c1 | Some v \<Rightarrow> c1\<lparr>KubeconfigTTLSeconds := v\<rparr>))"

definition LoadConfig ::
    "(string \<Rightarrow> string res) \<Rightarrow> (string \<Rightarrow> yaml gomap res) \<Rightarrow> (string \<Rightarrow> string) \<Rightarrow> (float64 \<Rightarrow> int64)
     \<Rightarrow> string \<Rightarrow> app_config res" where
  "LoadConfig read_file unmarshal getenv oor path =
     (case read_file path of
        Inl e \<Rightarrow> Inl (Wrapf [Txt ''config: reading '', Txt path, Txt '': ''] e)
      | Inr data \<Rightarrow>
     (case unmarshal data of
        Inl e \<Rightarrow> Inl (Wrapf [Txt ''config: parsing '', Txt path, Txt '': ''] e)
      | Inr raw \<Rightarrow>
     (case as_map (map_of raw ''kubeconfigs'') of
        None \<Rightarrow> Inl (Errorf [Txt ''config: kubeconfigs must be a non-empty map of name to config''])
      | Some rawKubeconfigs \<Rightarrow>
          if rawKubeconfigs = [] then
            Inl (Errorf [Txt ''config: kubeconfigs must be a non-empty map of name to config''])
          else
            res_bind (res_map_list (parse_entry getenv) rawKubeconfigs) (\<lambda>kubeconfigs.
              Inr \<lparr>cfg_Kubeconfigs = kubeconfigs,
                   cfg_Transforms = parseTransforms (map_of raw ''transforms''),
                   cfg_CustomFields = parseCustomFields (map_of raw ''custom_fields''),
                   cfg_SshuttleHost = readSshuttleHost getenv raw,
                   cfg_Cache = read_cache_config oor raw\<rparr>))))"

text \<open>\<open>os.UserHomeDir\<close> is \<open>$HOME\<close>, or an error when that is empty.\<close>

definition user_home_dir :: "(string \<Rightarrow> string) \<Rightarrow> string res" where
  "user_home_dir getenv =
     (if getenv ''HOME'' \<noteq> '''' then Inr (getenv ''HOME'') else Inl (Lib_Error ''$HOME is not defined''))"

definition configPath :: "(string \<Rightarrow> string) \<Rightarrow> string res" where
  "configPath getenv =
     (if getenv ''CAPI_SHELL_MCP_CONFIG'' \<noteq> '''' then Inr (getenv ''CAPI_SHELL_MCP_CONFIG'')
      else case user_home_dir getenv of
        Inl e \<Rightarrow> Inl (Wrapf [Txt ''config: resolving home directory: ''] e)
      | Inr home \<Rightarrow> Inr (filepath_join [home, ''.config'', ''capi-shell'', ''config.yaml'']))"

definition Load ::
    "(string \<Rightarrow> string res) \<Rightarrow> (string \<Rightarrow> yaml gomap res) \<Rightarrow> (string \<Rightarrow> string) \<Rightarrow> (float64 \<Rightarrow> int64)
     \<Rightarrow> app_config res" where
  "Load read_file unmarshal getenv oor =
     res_bind (configPath getenv) (LoadConfig read_file unmarshal getenv oor)"

subsection \<open>Expansion of environment variables\<close>

text \<open>
  The reference: a template is a sequence of literal text and variable references. Literal
  text has no dollar sign; a bare reference is an identifier that is not continued by what
  follows it.
\<close>

datatype piece = Lit string | Braced string | Bare string

primrec piece_text :: "piece \<Rightarrow> string" where
  "piece_text (Lit s) = s"
| "piece_text (Braced n) = ''${'' @ n @ ''}''"
| "piece_text (Bare n) = ''$'' @ n"

definition template_text :: "piece list \<Rightarrow> string" where
  "template_text ps = concat (map piece_text ps)"

primrec piece_value :: "(string \<Rightarrow> string) \<Rightarrow> piece \<Rightarrow> string" where
  "piece_value getenv (Lit s) = s"
| "piece_value getenv (Braced n) = getenv n"
| "piece_value getenv (Bare n) = getenv n"

fun template_ok :: "piece list \<Rightarrow> bool" where
  "template_ok [] = True"
| "template_ok (Lit s # ps) \<longleftrightarrow> CHR ''$'' \<notin> set s \<and> template_ok ps"
| "template_ok (Braced n # ps) \<longleftrightarrow> n \<noteq> '''' \<and> CHR ''}'' \<notin> set n \<and> template_ok ps"
| "template_ok (Bare n # ps) \<longleftrightarrow>
     (case n of [] \<Rightarrow> False | c # r \<Rightarrow> name_start c \<and> list_all name_char r)
     \<and> (case template_text ps of [] \<Rightarrow> True | c # _ \<Rightarrow> \<not> name_char c)
     \<and> template_ok ps"

lemma template_text_simps [simp]:
  "template_text [] = []" "template_text (p # ps) = piece_text p @ template_text ps"
  by (simp_all add: template_text_def)

lemma expandEnv_literal:
  "CHR ''$'' \<notin> set s \<Longrightarrow> expandEnv g (s @ t) = s @ expandEnv g t"
  by (induction s) auto

lemma takeWhile_drop_sep:
  "c \<notin> set n \<Longrightarrow> takeWhile (\<lambda>d. d \<noteq> c) (n @ c # t) = n \<and> dropWhile (\<lambda>d. d \<noteq> c) (n @ c # t) = c # t"
  by (induction n) auto

lemma match_var_braced:
  "n \<noteq> [] \<Longrightarrow> CHR ''}'' \<notin> set n \<Longrightarrow> match_var (CHR ''{'' # n @ CHR ''}'' # t) = Some (n, t)"
  by (simp add: match_var_def match_braced_def takeWhile_drop_sep)

lemma take_name:
  assumes "list_all name_char r" "case t of [] \<Rightarrow> True | c # _ \<Rightarrow> \<not> name_char c"
  shows "takeWhile name_char (r @ t) = r \<and> dropWhile name_char (r @ t) = t"
  using assms by (cases t) (auto simp: list_all_iff)

lemma brace_no_name: "\<not> name_start CHR ''{''"
  by code_simp

lemma match_var_bare:
  assumes "name_start c" "list_all name_char r" "case t of [] \<Rightarrow> True | c # _ \<Rightarrow> \<not> name_char c"
  shows "match_var (c # r @ t) = Some (c # r, t)"
proof -
  have "c \<noteq> CHR ''{''" using assms(1) brace_no_name by blast
  with assms(1) take_name [OF assms(2,3)] show ?thesis
    by (simp add: match_var_def match_braced_def match_bare_def)
qed



lemma expandEnv_no_dollar: "CHR ''$'' \<notin> set s \<Longrightarrow> expandEnv g s = s"
  using expandEnv_literal [of s g "[]"] by simp

subsection \<open>What loading accepts, and what it returns\<close>

definition entry_ok :: "yaml \<Rightarrow> bool" where
  "entry_ok v = (case v of
      Y_Map m \<Rightarrow> (case map_of m ''path'' of Some (Y_Str s) \<Rightarrow> True | _ \<Rightarrow> False)
    | _ \<Rightarrow> False)"

lemma parse_entry_ok_iff: "(\<exists>n src. parse_entry g (name, v) = Inr (n, src)) \<longleftrightarrow> entry_ok v"
  by (auto simp: parse_entry_def entry_ok_def as_map_def as_str_def split: option.splits yaml.splits)

lemma parse_entry_Inr:
  assumes "parse_entry g (name, v) = Inr (name', src)"
  shows "name' = name" "src_Name src = name"
    "\<exists>m path. v = Y_Map m \<and> map_of m ''path'' = Some (Y_Str path) \<and> src_Path src = expandEnv g path
       \<and> src_Contexts src = parseContexts (map_of m ''contexts'') \<and> src_SshuttleHost src = readSshuttleHost g m"
  using assms by (auto simp: parse_entry_def split: option.splits)

lemma parse_entries_names:
  "list_all2 (\<lambda>x y. parse_entry g x = Inr y) ks srcs \<Longrightarrow> map fst srcs = map fst ks"
  by (induction rule: list_all2_induct) (auto dest: parse_entry_Inr(1))

lemma parse_entries_ok_iff:
  "(\<exists>srcs. res_map_list (parse_entry g) ks = Inr srcs) \<longleftrightarrow> list_all (entry_ok \<circ> snd) ks"
proof (induction ks)
  case Nil
  then show ?case by simp
next
  case (Cons k ks)
  obtain name v where k: "k = (name, v)" by (cases k)
  have "(\<exists>srcs. res_map_list (parse_entry g) (k # ks) = Inr srcs) \<longleftrightarrow>
      (\<exists>n src. parse_entry g (name, v) = Inr (n, src)) \<and> (\<exists>srcs. res_map_list (parse_entry g) ks = Inr srcs)"
    unfolding k by (auto simp: res_bind_def split: sum.splits)
  with Cons show ?case by (simp add: k parse_entry_ok_iff)
qed

text \<open>
  C31: a configuration is accepted exactly when the file can be read and decoded, its
  \<open>kubeconfigs\<close> is a map with at least one entry, and every entry is a map with a string
  path. Nothing else in the file can make loading fail.
\<close>

theorem load_config_accepts:
  "(\<exists>cfg. LoadConfig read_file unmarshal getenv oor path = Inr cfg) \<longleftrightarrow>
   (\<exists>data raw ks. read_file path = Inr data \<and> unmarshal data = Inr raw
      \<and> map_of raw ''kubeconfigs'' = Some (Y_Map ks) \<and> ks \<noteq> [] \<and> list_all (entry_ok \<circ> snd) ks)"
proof (cases "\<exists>data raw ks. read_file path = Inr data \<and> unmarshal data = Inr raw
      \<and> map_of raw ''kubeconfigs'' = Some (Y_Map ks) \<and> ks \<noteq> []")
  case True
  then obtain data raw ks where doc: "read_file path = Inr data" "unmarshal data = Inr raw"
    "map_of raw ''kubeconfigs'' = Some (Y_Map ks)" "ks \<noteq> []" by blast
  then have "(\<exists>cfg. LoadConfig read_file unmarshal getenv oor path = Inr cfg) \<longleftrightarrow>
      (\<exists>srcs. res_map_list (parse_entry getenv) ks = Inr srcs)"
    by (auto simp: LoadConfig_def as_map_def res_bind_def split: sum.splits)
  with doc show ?thesis by (simp add: parse_entries_ok_iff)
next
  case False
  then show ?thesis
    by (auto simp: LoadConfig_def split: sum.splits option.splits if_splits)
qed

text \<open>
  The sources that are loaded do not depend on the order in which Go visits the
  \<open>kubeconfigs\<close> map: another order is accepted as well and gives the same map of sources.
\<close>

theorem config_order_irrelevant:
  assumes "same_gomap ks ks'" "res_map_list (parse_entry getenv) ks = Inr srcs"
  shows "\<exists>srcs'. res_map_list (parse_entry getenv) ks' = Inr srcs' \<and> same_gomap srcs srcs'"
proof -
  have sets: "set ks = set ks'" by (rule same_gomap_set [OF assms(1)])
  have "list_all (entry_ok \<circ> snd) ks'"
    using assms(2) parse_entries_ok_iff [of getenv ks] sets by (auto simp: list_all_iff)
  then obtain srcs' where srcs': "res_map_list (parse_entry getenv) ks' = Inr srcs'"
    using parse_entries_ok_iff by blast
  have all2: "list_all2 (\<lambda>x y. parse_entry getenv x = Inr y) ks srcs"
    "list_all2 (\<lambda>x y. parse_entry getenv x = Inr y) ks' srcs'"
    using assms(2) srcs' by (simp_all add: res_map_list_Inr)
  have image: "set ys = (\<lambda>x. projr (parse_entry getenv x)) ` set xs"
    if "list_all2 (\<lambda>x y. parse_entry getenv x = Inr y) xs ys" for xs ys
    using that by (induction rule: list_all2_induct) auto
  have "set srcs = set srcs'" using image [OF all2(1)] image [OF all2(2)] sets by simp
  moreover have "gomap_ok srcs" "gomap_ok srcs'"
    using parse_entries_names [OF all2(1)] parse_entries_names [OF all2(2)] assms(1)
    by (simp_all add: gomap_ok_def same_gomap_def)
  ultimately have "same_gomap srcs srcs'"
    by (simp add: same_gomap_def gomap_ok_def map_of_inject_set)
  with srcs' show ?thesis by blast
qed

definition sample_entry :: yaml where
  "sample_entry = Y_Map [(''path'', Y_Str ''kc.yaml'')]"

theorem config_order_irrelevant_witness:
  "\<exists>srcs'. res_map_list (parse_entry (\<lambda>_. '''')) [(''b'', sample_entry), (''a'', sample_entry)] = Inr srcs'
     \<and> map_of srcs' ''a'' = Some \<lparr>src_Name = ''a'', src_Path = ''kc.yaml'', src_Contexts = [], src_SshuttleHost = ''''\<rparr>"
proof -
  let ?src = "\<lambda>n. \<lparr>src_Name = n, src_Path = ''kc.yaml'', src_Contexts = [], src_SshuttleHost = ''''\<rparr>"
  have same: "same_gomap [(''a'', sample_entry), (''b'', sample_entry)]
      [(''b'', sample_entry), (''a'', sample_entry)]"
    by (auto simp: same_gomap_def gomap_ok_def)
  have ok: "res_map_list (parse_entry (\<lambda>_. '''')) [(''a'', sample_entry), (''b'', sample_entry)] =
      Inr [(''a'', ?src ''a''), (''b'', ?src ''b'')]"
    by code_simp
  obtain srcs' where srcs': "res_map_list (parse_entry (\<lambda>_. '''')) [(''b'', sample_entry), (''a'', sample_entry)] = Inr srcs'"
    "same_gomap [(''a'', ?src ''a''), (''b'', ?src ''b'')] srcs'"
    using config_order_irrelevant [OF same ok] by blast
  then have "map_of srcs' ''a'' = map_of [(''a'', ?src ''a''), (''b'', ?src ''b'')] ''a''"
    unfolding same_gomap_def by presburger
  with srcs'(1) show ?thesis by (intro exI [of _ srcs'] conjI) simp_all
qed

lemma read_cache_config_eq:
  "read_cache_config oor raw =
     (let ttl = (\<lambda>key d. case map_of raw ''cache'' of
                   Some (Y_Map m) \<Rightarrow> (case toInt oor (map_of m key) of Some v \<Rightarrow> v | None \<Rightarrow> d)
                 | _ \<Rightarrow> d)
      in \<lparr>ClusterListTTLSeconds = ttl ''cluster_list_ttl'' 300,
          KubeconfigTTLSeconds = ttl ''kubeconfig_ttl'' 3600\<rparr>)"
  by (auto simp: read_cache_config_def as_map_def Let_def defaultClusterListTTLSeconds_def
      defaultKubeconfigTTLSeconds_def split: option.splits yaml.splits)

lemma parsed_names:
  "list_all2 (\<lambda>x y. parse_entry getenv x = Inr y) ks srcs \<Longrightarrow> list_all (\<lambda>(name, src). src_Name src = name) srcs"
  by (induction rule: list_all2_induct) (auto dest: parse_entry_Inr(1,2))

lemma LoadConfig_names:
  assumes "LoadConfig read_file unmarshal getenv oor path = Inr cfg"
  shows "list_all (\<lambda>(name, src). src_Name src = name) (cfg_Kubeconfigs cfg)"
proof -
  from assms obtain ks where "res_map_list (parse_entry getenv) ks = Inr (cfg_Kubeconfigs cfg)"
    by (auto simp: LoadConfig_def res_bind_eq_Inr split: sum.splits option.splits if_splits)
  then show ?thesis by (intro parsed_names) (simp add: res_map_list_Inr)
qed



end
