(* ===== verification/Shell.thy ===== *)
theory Shell
  imports Effects
begin

text \<open>
  \<open>internal/shell/shell.go\<close>: the one primitive that spawns processes.

  What a child process does is outside the repository: the parameter \<open>start\<close> of
  \<open>ExecFile\<close> returns the chunks the child wrote to its two pipes, how it ended, and the
  schedule of the two goroutines with which \<open>os/exec\<close> copies the pipes into the writers
  (two, because \<open>Stdout\<close> and \<open>Stderr\<close> are different writers here).

  The compound assignment \<open>w.limit.written += len(p)\<close> is not atomic, so \<open>Write\<close> is a
  program of three steps: a load, a store, and the comparison with the cap together with
  the append to the stream's own buffer.
\<close>

subsection \<open>The shared output cap\<close>

datatype stream = Stdout_Stream | Stderr_Stream

record capture =
  cap_max :: int
  written :: int
  out_buf :: string
  err_buf :: string

definition append_buf :: "stream \<Rightarrow> string \<Rightarrow> capture \<Rightarrow> capture" where
  "append_buf st p c =
     (case st of
        Stdout_Stream \<Rightarrow> c\<lparr>out_buf := out_buf c @ p\<rparr>
      | Stderr_Stream \<Rightarrow> c\<lparr>err_buf := err_buf c @ p\<rparr>)"

definition cap_error :: "int \<Rightarrow> goerr" where
  "cap_error m = Errorf [Txt ''output exceeded maximum of '', Txt (itoa m), Txt '' bytes'']"

definition check_and_append :: "stream \<Rightarrow> string \<Rightarrow> capture \<Rightarrow> int res \<times> capture" where
  "check_and_append st p c =
     (if written c > cap_max c then (Inl (cap_error (cap_max c)), c)
      else (Inr (int (length p)), append_buf st p c))"

definition limited_Write :: "stream \<Rightarrow> string \<Rightarrow> (capture, int res) prog" where
  "limited_Write st p =
     pbind (call (\<lambda>c. (written c, c))) (\<lambda>n.
     pbind (call (\<lambda>c. ((), c\<lparr>written := n + int (length p)\<rparr>))) (\<lambda>_.
     call (check_and_append st p)))"

definition buffer_Write :: "stream \<Rightarrow> string \<Rightarrow> (capture, int res) prog" where
  "buffer_Write st p = call (\<lambda>c. (Inr (int (length p)), append_buf st p c))"

text \<open>\<open>io.Copy\<close> of one pipe: it stops at the first error of the writer.\<close>

primrec copy_stream :: "(string \<Rightarrow> (capture, int res) prog) \<Rightarrow> string list \<Rightarrow> (capture, unit res) prog" where
  "copy_stream w [] = Done (Inr ())"
| "copy_stream w (p # ps) = ebind (w p) (\<lambda>_. copy_stream w ps)"

subsection \<open>Running a command\<close>

record exec_options =
  Env :: "string list"
  Input :: string
  MaxOutputBytes :: int

record exec_output =
  Stdout :: string
  Stderr :: string

datatype run_end = Start_Failed string | Exited int string

record process =
  pr_stdout :: "string list"
  pr_stderr :: "string list"
  pr_sched :: "nat list"
  pr_end :: run_end

definition no_options :: exec_options where
  "no_options = \<lparr>Env = [], Input = '''', MaxOutputBytes = 0\<rparr>"

text \<open>The two copying goroutines, and what they leave in the buffers.\<close>

definition copy_output :: "exec_options \<Rightarrow> process \<Rightarrow> unit res list \<times> capture" where
  "copy_output opts p =
     (let w = (if MaxOutputBytes opts > 0 then limited_Write else buffer_Write)
      in run (par (pr_sched p)
           [copy_stream (w Stdout_Stream) (pr_stdout p), copy_stream (w Stderr_Stream) (pr_stderr p)])
         \<lparr>cap_max = MaxOutputBytes opts, written = 0, out_buf = '''', err_buf = ''''\<rparr>)"

text \<open>
  \<open>cmd.Run()\<close>: a start failure, else a non-zero exit, else the first error of a copying
  goroutine. The exit code is only known for a process that ran.
\<close>

definition first_error :: "unit res list \<Rightarrow> goerr option" where
  "first_error rs = (case filter isl rs of [] \<Rightarrow> None | r # _ \<Rightarrow> Some (projl r))"

definition exec_result :: "exec_options \<Rightarrow> process \<Rightarrow> exec_output res" where
  "exec_result opts p =
     (case pr_end p of
        Start_Failed msg \<Rightarrow> Inl (Exit_Error '''' '''' 1 (Lib_Error msg))
      | Exited code msg \<Rightarrow>
          let (rs, c) = copy_output opts p in
          if code \<noteq> 0 then
            Inl (Exit_Error (out_buf c) (err_buf c) code (Lib_Error msg))
          else (case first_error rs of
                  Some e \<Rightarrow> Inl (Exit_Error (out_buf c) (err_buf c) 1 e)
                | None \<Rightarrow> Inr \<lparr>Stdout = out_buf c, Stderr = err_buf c\<rparr>))"

definition ExecFile ::
    "(string \<Rightarrow> string list \<Rightarrow> string list \<Rightarrow> string \<Rightarrow> 's \<Rightarrow> process \<times> 's)
     \<Rightarrow> string \<Rightarrow> string list \<Rightarrow> exec_options \<Rightarrow> 's \<Rightarrow> exec_output res \<times> 's" where
  "ExecFile start file args opts s =
     (case start file args (Env opts) (Input opts) s of (p, s') \<Rightarrow> (exec_result opts p, s'))"

text \<open>\<open>errors.AsType[*shell.ExitError]\<close>: the first such error of the chain.\<close>

primrec as_exit_error :: "goerr \<Rightarrow> (string \<times> string \<times> int) option" where
  "as_exit_error (Errorf fs) = None"
| "as_exit_error (Wrapf fs e) = as_exit_error e"
| "as_exit_error (Bothf e fs e') = (case as_exit_error e of None \<Rightarrow> as_exit_error e' | Some x \<Rightarrow> Some x)"
| "as_exit_error (Api_Error r m) = None"
| "as_exit_error (Exit_Error out er code e) = Some (out, er, code)"
| "as_exit_error (Lib_Error m) = None"

subsection \<open>The contract of an Execer\<close>

locale execer =
  fixes exec :: "string \<Rightarrow> string list \<Rightarrow> exec_options \<Rightarrow> 's \<Rightarrow> exec_output res \<times> 's"
  assumes failure_has_code: "fst (exec file args opts s) = Inl e \<Longrightarrow>
    \<exists>out er code. as_exit_error e = Some (out, er, code) \<and> code \<noteq> 0"
begin

lemma failure_is_exit_error: "exec file args opts s = (Inl e, s') \<Longrightarrow> as_exit_error e \<noteq> None"
  by (metis failure_has_code fst_conv option.distinct(1))

lemma failure_code:
  "exec file args opts s = (Inl e, s') \<Longrightarrow> as_exit_error e = Some (out, er, code) \<Longrightarrow> code \<noteq> 0"
  by (metis failure_has_code fst_conv option.inject prod.inject)

end

lemma ExecFile_failure:
  "fst (ExecFile start file args opts s) = Inl e \<Longrightarrow>
   \<exists>out er code. as_exit_error e = Some (out, er, code) \<and> code \<noteq> 0"
  by (auto simp: ExecFile_def exec_result_def Let_def
      split: prod.splits run_end.splits if_splits option.splits)

interpretation os_execer: execer "ExecFile start" for start
  by unfold_locales (rule ExecFile_failure)

subsection \<open>Capture without a cap\<close>

lemma ebind_buffer_Write [simp]:
  "ebind (buffer_Write st p) k = Atom (append_buf st p) (\<lambda>_. k (int (length p)))"
  by (simp add: buffer_Write_def call_def ebind_def)

lemma run_copy_buffer:
  "run (copy_stream (buffer_Write st) ps) c = (Inr (), append_buf st (concat ps) c)"
  by (induction ps arbitrary: c) (auto simp: append_buf_def split: stream.splits)

lemma append_buf_append: "append_buf st b (append_buf st a c) = append_buf st (a @ b) c"
  by (cases st) (simp_all add: append_buf_def)

lemma append_buf_commute:
  "append_buf Stderr_Stream e (append_buf Stdout_Stream a c) =
   append_buf Stdout_Stream a (append_buf Stderr_Stream e c)"
  by (simp add: append_buf_def)

lemma run_par_buffer:
  "run (par sched [copy_stream (buffer_Write Stdout_Stream) ps, copy_stream (buffer_Write Stderr_Stream) qs]) c =
   ([Inr (), Inr ()], append_buf Stderr_Stream (concat qs) (append_buf Stdout_Stream (concat ps) c))"
proof (induction sched arbitrary: ps qs c)
  case Nil
  then show ?case by (simp add: run_pbind run_copy_buffer)
next
  case (Cons i sched)
  consider "i = 0" "ps \<noteq> []" | "i = 1" "qs \<noteq> []" | "i = 0" "ps = []" | "i = 1" "qs = []" | "i \<ge> 2"
    by linarith
  then show ?case
  proof cases
    case 1
    then show ?thesis by (cases ps) (auto simp: Cons append_buf_append)
  next
    case 2
    then show ?thesis by (cases qs) (auto simp: Cons append_buf_append append_buf_commute)
  qed (use Cons [of ps qs c] in \<open>auto split: prog.splits\<close>)
qed

text \<open>
  Without a cap the captured output does not depend on how the two copying goroutines
  are scheduled: each stream is exactly what the child wrote to it, and the call succeeds
  exactly when the child exits with status zero.
\<close>

theorem uncapped_capture_deterministic:
  assumes "MaxOutputBytes opts \<le> 0"
  shows "exec_result opts p =
    (case pr_end p of
       Start_Failed msg \<Rightarrow> Inl (Exit_Error '''' '''' 1 (Lib_Error msg))
     | Exited code msg \<Rightarrow>
         if code = 0 then Inr \<lparr>Stdout = concat (pr_stdout p), Stderr = concat (pr_stderr p)\<rparr>
         else Inl (Exit_Error (concat (pr_stdout p)) (concat (pr_stderr p)) code (Lib_Error msg)))"
  using assms
  by (auto simp: exec_result_def copy_output_def run_par_buffer append_buf_def first_error_def
      split: run_end.splits)

theorem uncapped_capture_deterministic_witness:
  "exec_result no_options \<lparr>pr_stdout = [''ac'', ''tive''], pr_stderr = [''w''], pr_sched = [1, 0], pr_end = Exited 0 ''''\<rparr>
     = Inr \<lparr>Stdout = ''active'', Stderr = ''w''\<rparr>"
  using uncapped_capture_deterministic
    [of no_options "\<lparr>pr_stdout = [''ac'', ''tive''], pr_stderr = [''w''], pr_sched = [1, 0], pr_end = Exited 0 ''''\<rparr>"]
  by (simp add: no_options_def)

subsection \<open>Capture under the cap\<close>

text \<open>The chunks that fit into the remaining room, up to the first that does not.\<close>

primrec fitting :: "int \<Rightarrow> string list \<Rightarrow> string list" where
  "fitting room [] = []"
| "fitting room (p # ps) =
     (if int (length p) \<le> room then p # fitting (room - int (length p)) ps else [])"

lemma length_fitting: "0 \<le> room \<Longrightarrow> int (length (concat (fitting room ps))) \<le> room"
  by (induction ps arbitrary: room) (auto, smt (verit))

lemma run_limited_Write:
  "run (limited_Write st p) c = check_and_append st p (c\<lparr>written := written c + int (length p)\<rparr>)"
  by (simp add: limited_Write_def run_pbind)

lemma append_buf_fields [simp]:
  "written (append_buf st p c) = written c" "cap_max (append_buf st p c) = cap_max c"
  "out_buf (append_buf st p c) = (if st = Stdout_Stream then out_buf c @ p else out_buf c)"
  "err_buf (append_buf st p c) = (if st = Stderr_Stream then err_buf c @ p else err_buf c)"
  by (cases st; simp add: append_buf_def)+

lemma run_copy_limited:
  assumes "written c \<le> cap_max c" "run (copy_stream (limited_Write st) ps) c = (r, d)"
  shows "r = (if fitting (cap_max c - written c) ps = ps then Inr () else Inl (cap_error (cap_max c)))
    \<and> out_buf d = out_buf (append_buf st (concat (fitting (cap_max c - written c) ps)) c)
    \<and> err_buf d = err_buf (append_buf st (concat (fitting (cap_max c - written c) ps)) c)"
  using assms
proof (induction ps arbitrary: c)
  case Nil
  then show ?case by auto
next
  case (Cons p ps)
  show ?case
  proof (cases "written c + int (length p) \<le> cap_max c")
    case False
    with Cons.prems show ?thesis
      by (auto simp: run_ebind run_limited_Write check_and_append_def)
  next
    case True
    let ?d = "append_buf st p (c\<lparr>written := written c + int (length p)\<rparr>)"
    have rest: "run (copy_stream (limited_Write st) ps) ?d = (r, d)"
      using True Cons.prems(2) by (simp add: run_ebind run_limited_Write check_and_append_def)
    show ?thesis
      using True Cons.IH [OF _ rest] by (simp add: diff_diff_eq)
  qed
qed

lemma run_par_first_only:
  "run (par sched [p, Done b]) c = (let (a, c') = run p c in ([a, b], c'))"
proof (induction sched arbitrary: p c)
  case Nil
  then show ?case by (simp add: run_pbind split: prod.splits)
next
  case (Cons i sched)
  consider "i = 0" | "i = 1" | "i \<ge> 2" by linarith
  then show ?case by cases (auto simp: Cons split: prog.splits)
qed

text \<open>
  For a child that writes to one pipe only, the cap works as documented under every
  schedule: what is captured is the longest run of chunks that fits into the cap, never
  more bytes than that, and the call fails if a chunk had to be dropped.
\<close>

theorem single_stream_capped:
  assumes "MaxOutputBytes opts > 0" "pr_stderr p = []" "pr_end p = Exited 0 msg"
  shows "int (length (concat (fitting (MaxOutputBytes opts) (pr_stdout p)))) \<le> MaxOutputBytes opts
    \<and> exec_result opts p =
        (let kept = fitting (MaxOutputBytes opts) (pr_stdout p)
         in if kept = pr_stdout p then Inr \<lparr>Stdout = concat kept, Stderr = ''''\<rparr>
            else Inl (Exit_Error (concat kept) '''' 1 (cap_error (MaxOutputBytes opts))))"
proof -
  let ?m = "MaxOutputBytes opts"
  let ?c = "\<lparr>cap_max = ?m, written = 0, out_buf = '''', err_buf = ''''\<rparr>"
  obtain r d where rd: "run (copy_stream (limited_Write Stdout_Stream) (pr_stdout p)) ?c = (r, d)"
    by (cases "run (copy_stream (limited_Write Stdout_Stream) (pr_stdout p)) ?c")
  have "r = (if fitting ?m (pr_stdout p) = pr_stdout p then Inr () else Inl (cap_error ?m))"
    "out_buf d = concat (fitting ?m (pr_stdout p))" "err_buf d = ''''"
    using run_copy_limited [OF _ rd] assms(1) by simp_all
  with assms rd show ?thesis
    by (simp add: length_fitting exec_result_def copy_output_def run_par_first_only
        first_error_def Let_def)
qed

theorem single_stream_capped_witness:
  "exec_result \<lparr>Env = [], Input = '''', MaxOutputBytes = 5\<rparr>
     \<lparr>pr_stdout = [''abc'', ''defg'', ''h''], pr_stderr = [], pr_sched = [0, 1], pr_end = Exited 0 ''''\<rparr>
     = Inl (Exit_Error ''abc'' '''' 1 (cap_error 5))"
  using single_stream_capped [of "\<lparr>Env = [], Input = '''', MaxOutputBytes = 5\<rparr>"
      "\<lparr>pr_stdout = [''abc'', ''defg'', ''h''], pr_stderr = [], pr_sched = [0, 1], pr_end = Exited 0 ''''\<rparr>" "''''"]
  by simp

text \<open>
  C37: with output on both pipes the cap is not a cap. The two goroutines update the shared
  counter without synchronisation; when both load it before either stores, one update is
  lost, and a call that captured twice the maximum succeeds. With the same output and no
  overlap the call fails.
\<close>

theorem shared_cap_race:
  assumes "int (length a) \<le> m" "int (length b) \<le> m" "m < int (length a) + int (length b)"
  shows "exec_result \<lparr>Env = env, Input = inp, MaxOutputBytes = m\<rparr>
      \<lparr>pr_stdout = [a], pr_stderr = [b], pr_sched = [0, 1, 0, 1, 0, 1], pr_end = Exited 0 msg\<rparr> =
      Inr \<lparr>Stdout = a, Stderr = b\<rparr>
    \<and> exec_result \<lparr>Env = env, Input = inp, MaxOutputBytes = m\<rparr>
      \<lparr>pr_stdout = [a], pr_stderr = [b], pr_sched = [0, 0, 0, 1, 1, 1], pr_end = Exited 0 msg\<rparr> =
      Inl (Exit_Error a '''' 1 (cap_error m))"
  using assms
  by (auto simp: exec_result_def copy_output_def limited_Write_def call_def ebind_def
      check_and_append_def append_buf_def first_error_def nth_Cons')

theorem shared_cap_race_witness:
  "exec_result \<lparr>Env = [], Input = '''', MaxOutputBytes = 4\<rparr>
      \<lparr>pr_stdout = [''abcd''], pr_stderr = [''efgh''], pr_sched = [0, 1, 0, 1, 0, 1], pr_end = Exited 0 ''''\<rparr> =
      Inr \<lparr>Stdout = ''abcd'', Stderr = ''efgh''\<rparr>"
  using shared_cap_race [of "''abcd''" 4 "''efgh''" "[]" "''''" "''''"] by simp

end
