(* ===== verification/Exec.thy ===== *)
theory Exec
  imports Shell
begin

text \<open>
  \<open>internal/exec/exec.go\<close>: running one command against one workload cluster.

  \<open>host\<close> is the state a call can see: the files of the machine (content and mode) and
  everything outside the process. It is extended with the daemon's own state by the theory
  of the tool server. The operating system is the parameter \<open>os\<close>: random bytes, the
  environment, the temporary directory, whether a read fails, and whether a write fails (with the content such a
  write leaves behind, if it got as far as creating the file).
\<close>

subsection \<open>The machine\<close>

record 'w host =
  files :: "string \<rightharpoonup> string \<times> nat"
  outside :: 'w

record 's os =
  os_random :: "'s \<Rightarrow> string res \<times> 's"
  os_read_fault :: "string \<Rightarrow> 's \<Rightarrow> goerr option"
  os_write_fault :: "string \<Rightarrow> 's \<Rightarrow> (goerr \<times> string option) option"
  os_tempdir :: string
  os_environ :: "string list"

text \<open>\<open>os.ReadFile\<close>.\<close>

definition os_ReadFile ::
    "('w, 'm) host_scheme os \<Rightarrow> string \<Rightarrow> ('w, 'm) host_scheme \<Rightarrow> string res" where
  "os_ReadFile os path s =
     (case os_read_fault os path s of
        Some e \<Rightarrow> Inl e
      | None \<Rightarrow>
          (case files s path of
             None \<Rightarrow> Inl (Lib_Error (''open '' @ path @ '': no such file or directory''))
           | Some (contents, _) \<Rightarrow> Inr contents))"

text \<open>\<open>os.WriteFile\<close>: an existing file keeps its mode. \<open>os.Remove\<close>.\<close>

definition put_file :: "string \<Rightarrow> string \<Rightarrow> nat \<Rightarrow> ('w, 'm) host_scheme \<Rightarrow> ('w, 'm) host_scheme" where
  "put_file path contents mode s =
     s\<lparr>files := (files s)(path \<mapsto>
        (contents, case files s path of None \<Rightarrow> mode | Some (_, old) \<Rightarrow> old))\<rparr>"

definition os_WriteFile ::
    "('w, 'm) host_scheme os \<Rightarrow> string \<Rightarrow> string \<Rightarrow> nat \<Rightarrow> ('w, 'm) host_scheme
     \<Rightarrow> unit res \<times> ('w, 'm) host_scheme" where
  "os_WriteFile os path contents mode s =
     (case os_write_fault os path s of
        None \<Rightarrow> (Inr (), put_file path contents mode s)
      | Some (e, None) \<Rightarrow> (Inl e, s)
      | Some (e, Some partial) \<Rightarrow> (Inl e, put_file path partial mode s))"

definition os_Remove :: "string \<Rightarrow> ('w, 'm) host_scheme \<Rightarrow> unit \<times> ('w, 'm) host_scheme" where
  "os_Remove path s = ((), s\<lparr>files := (files s)(path := None)\<rparr>)"

definition hex_digit :: "nat \<Rightarrow> char" where
  "hex_digit n = (if n < 10 then char_of (48 + n) else char_of (87 + n))"

definition hex_encode :: "string \<Rightarrow> string" where
  "hex_encode bytes = concat (map (\<lambda>b. [hex_digit (of_char b div 16), hex_digit (of_char b mod 16)]) bytes)"

subsection \<open>Running with a kubeconfig\<close>

record exec_outcome =
  oc_Stdout :: string
  oc_Stderr :: string
  oc_ExitCode :: int

definition maxOutputBytes :: int where
  "maxOutputBytes = 10 * 1024 * 1024"

definition temp_path :: "string \<Rightarrow> string \<Rightarrow> string" where
  "temp_path dir bytes = filepath_join [dir, ''capi-shell-mcp-'' @ hex_encode bytes @ ''.yaml'']"

definition writeTempKubeconfig ::
    "('w, 'm) host_scheme os \<Rightarrow> string \<Rightarrow> (('w, 'm) host_scheme, string res) prog" where
  "writeTempKubeconfig os contents =
     ebind (call (os_random os)) (\<lambda>bytes.
       let path = temp_path (os_tempdir os) bytes in
       ebind (call (os_WriteFile os path contents 0x180)) (\<lambda>_. Done (Inr path)))"

text \<open>The environment of the child: the process's own, the credentials, then KUBECONFIG.\<close>

definition exec_env :: "string list \<Rightarrow> string gomap \<Rightarrow> string \<Rightarrow> string list" where
  "exec_env environ openstackEnv tmpFile =
     environ @ map (\<lambda>(k, v). k @ ''='' @ v) openstackEnv @ [''KUBECONFIG='' @ tmpFile]"

definition exec_outcome_of :: "(goerr \<Rightarrow> string) \<Rightarrow> exec_output res \<Rightarrow> exec_outcome" where
  "exec_outcome_of error_text r =
     (case r of
        Inr out \<Rightarrow> \<lparr>oc_Stdout = Stdout out, oc_Stderr = Stderr out, oc_ExitCode = 0\<rparr>
      | Inl e \<Rightarrow>
          (case as_exit_error e of
             Some (out, er, code) \<Rightarrow> \<lparr>oc_Stdout = out, oc_Stderr = er, oc_ExitCode = code\<rparr>
           | None \<Rightarrow> \<lparr>oc_Stdout = '''', oc_Stderr = error_text e, oc_ExitCode = 1\<rparr>))"

definition WithKubeconfig ::
    "('w, 'm) host_scheme os
     \<Rightarrow> (string \<Rightarrow> string list \<Rightarrow> exec_options \<Rightarrow> ('w, 'm) host_scheme
          \<Rightarrow> exec_output res \<times> ('w, 'm) host_scheme)
     \<Rightarrow> (goerr \<Rightarrow> string) \<Rightarrow> string \<Rightarrow> string gomap \<Rightarrow> string list \<Rightarrow> string
     \<Rightarrow> (('w, 'm) host_scheme, exec_outcome res) prog" where
  "WithKubeconfig os exec error_text workloadKubeconfig openstackEnv command stdin =
     (case command of
        [] \<Rightarrow> Done (Inl (Errorf [Txt ''exec: command must be non-empty'']))
      | file # args \<Rightarrow>
          pbind (writeTempKubeconfig os workloadKubeconfig) (\<lambda>tmp.
            case tmp of
              Inl e \<Rightarrow> Done (Inl (Wrapf [Txt ''exec: writing temp kubeconfig: ''] e))
            | Inr tmpFile \<Rightarrow>
                pbind (call (exec file args
                    \<lparr>Env = exec_env (os_environ os) openstackEnv tmpFile, Input = stdin,
                     MaxOutputBytes = maxOutputBytes\<rparr>)) (\<lambda>r.
                pbind (call (os_Remove tmpFile)) (\<lambda>_.
                Done (Inr (exec_outcome_of error_text r))))))"

subsection \<open>What a call leaves behind and what the child sees\<close>

text \<open>\<open>os/exec\<close> uses the last entry of a repeated variable.\<close>

definition env_value :: "string list \<Rightarrow> string \<Rightarrow> string option" where
  "env_value env k = map_option (drop (Suc (length k))) (find (prefix (k @ ''='')) (rev env))"

lemma env_value_snoc: "env_value (env @ [k @ CHR ''='' # v]) k = Some v"
  by (simp add: env_value_def)

lemma env_value_exec_env: "env_value (exec_env environ osenv tmpFile) ''KUBECONFIG'' = Some tmpFile"
  using env_value_snoc [of _ "''KUBECONFIG''" tmpFile] by (simp add: exec_env_def flip: append_assoc)

lemma run_writeTempKubeconfig:
  assumes "os_random os s = (Inr bytes, s0)"
    and "os_write_fault os (temp_path (os_tempdir os) bytes) s0 = None"
  shows "run (writeTempKubeconfig os kc) s =
    (Inr (temp_path (os_tempdir os) bytes), put_file (temp_path (os_tempdir os) bytes) kc 0x180 s0)"
  using assms by (simp add: writeTempKubeconfig_def run_ebind os_WriteFile_def Let_def)

text \<open>
  While the command runs, the file that KUBECONFIG names (whatever the surrounding
  environment or the credentials say) holds the kubeconfig, readable by the owner only;
  when the call returns the file is gone, however the command ended.
\<close>

theorem kubeconfig_file_lifetime:
  assumes "os_random os s = (Inr bytes, s0)"
    and "path = temp_path (os_tempdir os) bytes"
    and "os_write_fault os path s0 = None" and "files s0 path = None"
    and "exec file args \<lparr>Env = exec_env (os_environ os) osenv path, Input = stdin,
            MaxOutputBytes = maxOutputBytes\<rparr> (put_file path kc 0x180 s0) = (r, s2)"
  shows "files (put_file path kc 0x180 s0) path = Some (kc, 0x180)
    \<and> env_value (exec_env (os_environ os) osenv path) ''KUBECONFIG'' = Some path
    \<and> run (WithKubeconfig os exec error_text kc osenv (file # args) stdin) s =
        (Inr (exec_outcome_of error_text r), s2\<lparr>files := (files s2)(path := None)\<rparr>)"
  using assms run_writeTempKubeconfig [of os s bytes s0 kc]
  by (simp add: WithKubeconfig_def run_pbind os_Remove_def put_file_def env_value_exec_env)

definition sample_os :: "'w host os" where
  "sample_os = \<lparr>os_random = (\<lambda>s. (Inr ''12345678'', s)), os_read_fault = (\<lambda>_ _. None), os_write_fault = (\<lambda>_ _. None),
     os_tempdir = ''/tmp'', os_environ = [''KUBECONFIG=/etc/other'']\<rparr>"

definition sample_host :: "unit host" where
  "sample_host = \<lparr>files = Map.empty, outside = ()\<rparr>"

theorem kubeconfig_file_lifetime_witness:
  "files (snd (run (WithKubeconfig sample_os (\<lambda>_ _ _ s. (Inr \<lparr>Stdout = ''ok'', Stderr = ''''\<rparr>, s)) (\<lambda>_. '''')
     ''kc'' [(''KUBECONFIG'', ''/x'')] [''kubectl'', ''get''] '''') sample_host))
     (temp_path ''/tmp'' ''12345678'') = None"
  using kubeconfig_file_lifetime [of sample_os sample_host "''12345678''" sample_host
      "temp_path ''/tmp'' ''12345678''" "\<lambda>_ _ _ s. (Inr \<lparr>Stdout = ''ok'', Stderr = ''''\<rparr>, s)"]
  by (simp add: sample_os_def sample_host_def)

text \<open>
  A call returns an error only for an empty command or when the kubeconfig file could
  not be written; whatever happens to the command itself is reported in the result.
\<close>

theorem exec_errors_are_preconditions:
  "(\<exists>e. fst (run (WithKubeconfig os exec error_text kc osenv command stdin) s) = Inl e) \<longleftrightarrow>
   command = [] \<or> (\<exists>e. fst (run (writeTempKubeconfig os kc) s) = Inl e)"
  by (cases command; cases "fst (run (writeTempKubeconfig os kc) s)")
     (auto simp: WithKubeconfig_def run_pbind split: prod.splits)

text \<open>
  C33: with the production \<open>Execer\<close> the exit code of the result is zero exactly when the
  command succeeded, and the fallback that renders an unknown error is never taken.
\<close>

theorem exec_outcome_faithful:
  "(oc_ExitCode (exec_outcome_of error_text (fst (ExecFile start file args opts s))) = 0 \<longleftrightarrow>
      (\<exists>out. fst (ExecFile start file args opts s) = Inr out))
   \<and> exec_outcome_of error_text (fst (ExecFile start file args opts s)) =
      exec_outcome_of other_text (fst (ExecFile start file args opts s))"
proof (cases "fst (ExecFile start file args opts s)")
  case (Inl e)
  then obtain out er code where "as_exit_error e = Some (out, er, code)" "code \<noteq> 0"
    using os_execer.failure_has_code [OF Inl] by blast
  with Inl show ?thesis by (simp add: exec_outcome_of_def)
qed (simp add: exec_outcome_of_def)

text \<open>
  When the write itself fails half-way, the call returns before the deferred removal is
  registered, and the partial kubeconfig stays on disk.
\<close>

lemma failed_write_leaks:
  assumes "os_random os s = (Inr bytes, s0)"
    and "os_write_fault os (temp_path (os_tempdir os) bytes) s0 = Some (e, Some partial)"
  shows "fst (run (WithKubeconfig os exec error_text kc osenv (file # args) stdin) s) =
      Inl (Wrapf [Txt ''exec: writing temp kubeconfig: ''] e)
    \<and> (\<exists>mode. files (snd (run (WithKubeconfig os exec error_text kc osenv (file # args) stdin) s))
          (temp_path (os_tempdir os) bytes) = Some (partial, mode))"
  using assms
  by (simp add: WithKubeconfig_def writeTempKubeconfig_def run_pbind run_ebind os_WriteFile_def
      put_file_def Let_def)

end
