(* ===== verification/Commands.thy ===== *)
theory Commands
  imports Exec Owned
begin

text \<open>
  Calls of \<open>WithKubeconfig\<close> side by side. Every call owns its temporary file, from the moment
  its name is drawn until the file is removed, in the sense of the theory \<open>Owned\<close>.

  What is assumed of the surroundings: random names do not collide (with each other or with
  an existing file), a command writes to no temporary kubeconfig but its own, and whatever
  else goes on leaves these files alone.
\<close>

subsection \<open>Calls\<close>

record exec_call =
  ec_Kubeconfig :: string
  ec_OpenStack :: "string gomap"
  ec_Command :: "string list"
  ec_Stdin :: string

type_synonym ('w, 'm) runner =
  "string \<Rightarrow> string list \<Rightarrow> exec_options \<Rightarrow> ('w, 'm) host_scheme \<Rightarrow> exec_output res \<times> ('w, 'm) host_scheme"

definition start_call ::
    "('w, 'm) host_scheme os \<Rightarrow> ('w, 'm) runner \<Rightarrow> (goerr \<Rightarrow> string) \<Rightarrow> exec_call \<Rightarrow> (('w, 'm) host_scheme, exec_outcome res) prog" where
  "start_call os exec et c = WithKubeconfig os exec et (ec_Kubeconfig c) (ec_OpenStack c) (ec_Command c) (ec_Stdin c)"

definition options_of :: "('w, 'm) host_scheme os \<Rightarrow> exec_call \<Rightarrow> string \<Rightarrow> exec_options" where
  "options_of os c path =
     \<lparr>Env = exec_env (os_environ os) (ec_OpenStack c) path, Input = ec_Stdin c, MaxOutputBytes = maxOutputBytes\<rparr>"

definition run_command ::
    "('w, 'm) host_scheme os \<Rightarrow> ('w, 'm) runner \<Rightarrow> exec_call \<Rightarrow> string \<Rightarrow> ('w, 'm) host_scheme
     \<Rightarrow> exec_output res \<times> ('w, 'm) host_scheme" where
  "run_command os exec c path = exec (hd (ec_Command c)) (tl (ec_Command c)) (options_of os c path)"

definition remove_file ::
    "(goerr \<Rightarrow> string) \<Rightarrow> string \<Rightarrow> exec_output res \<Rightarrow> (('w, 'm) host_scheme, exec_outcome res) prog" where
  "remove_file et path r = pbind (call (os_Remove path)) (\<lambda>_. Done (Inr (exec_outcome_of et r)))"

definition run_and_remove ::
    "('w, 'm) host_scheme os \<Rightarrow> ('w, 'm) runner \<Rightarrow> (goerr \<Rightarrow> string) \<Rightarrow> exec_call \<Rightarrow> string
     \<Rightarrow> (('w, 'm) host_scheme, exec_outcome res) prog" where
  "run_and_remove os exec et c path = pbind (call (run_command os exec c path)) (remove_file et path)"

definition write_and_run ::
    "('w, 'm) host_scheme os \<Rightarrow> ('w, 'm) runner \<Rightarrow> (goerr \<Rightarrow> string) \<Rightarrow> exec_call \<Rightarrow> string
     \<Rightarrow> (('w, 'm) host_scheme, exec_outcome res) prog" where
  "write_and_run os exec et c path =
     pbind (call (os_WriteFile os path (ec_Kubeconfig c) 0x180)) (\<lambda>r.
       case r of
         Inl e \<Rightarrow> Done (Inl (Wrapf [Txt ''exec: writing temp kubeconfig: ''] e))
       | Inr _ \<Rightarrow> run_and_remove os exec et c path)"

lemmas stage_programs = start_call_def WithKubeconfig_def writeTempKubeconfig_def write_and_run_def run_and_remove_def
  remove_file_def run_command_def options_of_def

lemma pbind_case_sum: "pbind (case x of Inl e \<Rightarrow> f e | Inr a \<Rightarrow> g a) k = (case x of Inl e \<Rightarrow> pbind (f e) k | Inr a \<Rightarrow> pbind (g a) k)"
  by (simp split: sum.split)

subsection \<open>Laws of the surroundings\<close>

text \<open>
  \<open>taken s\<close>: the temporary paths that have been drawn so far, a view on the outside world. A
  path that has not been drawn has no file.
\<close>

definition temp_paths :: "('w, 'm) host_scheme os \<Rightarrow> string set" where
  "temp_paths os = range (temp_path (os_tempdir os))"

definition clean :: "('w, 'm) host_scheme os \<Rightarrow> (('w, 'm) host_scheme \<Rightarrow> string set) \<Rightarrow> ('w, 'm) host_scheme \<Rightarrow> bool" where
  "clean os taken s \<longleftrightarrow> (\<forall>p \<in> temp_paths os - taken s. files s p = None)"

definition lawful_temp ::
    "('w, 'm) host_scheme os \<Rightarrow> ('w, 'm) runner \<Rightarrow> (('w, 'm) host_scheme \<Rightarrow> string set) \<Rightarrow> bool" where
  "lawful_temp os exec taken \<longleftrightarrow>
     (\<forall>s s' bytes. os_random os s = (Inr bytes, s') \<longrightarrow>
        (let path = temp_path (os_tempdir os) bytes in
         path \<notin> taken s \<and> files s' = files s \<and> taken s' = insert path (taken s)))
     \<and> (\<forall>s s' e. os_random os s = (Inl e, s') \<longrightarrow> files s' = files s \<and> taken s' = taken s)
     \<and> (\<forall>s f. taken (s\<lparr>files := f\<rparr>) = taken s)
     \<and> (\<forall>prg args opts s. taken (snd (exec prg args opts s)) = taken s
          \<and> (\<forall>p \<in> temp_paths os. env_value (Env opts) ''KUBECONFIG'' \<noteq> Some p \<longrightarrow> files (snd (exec prg args opts s)) p = files s p))"

definition leaves_temp ::
    "('w, 'm) host_scheme os \<Rightarrow> (('w, 'm) host_scheme \<Rightarrow> string set) \<Rightarrow> ('w, 'm) host_scheme \<Rightarrow> ('w, 'm) host_scheme \<Rightarrow> bool" where
  "leaves_temp os taken s s' \<longleftrightarrow> taken s' = taken s \<and> (\<forall>p \<in> temp_paths os. files s' p = files s p)"

subsection \<open>A call owns its file\<close>

text \<open>
  The outcome of a command that, when it was started, found its own kubeconfig (and nobody
  else could read it) in the file that KUBECONFIG names; the state in which it was started
  is one of \<open>A\<close>.
\<close>

definition ran_privately ::
    "(('w, 'm) host_scheme \<Rightarrow> bool) \<Rightarrow> ('w, 'm) host_scheme os \<Rightarrow> ('w, 'm) runner \<Rightarrow> (goerr \<Rightarrow> string) \<Rightarrow> exec_call \<Rightarrow> exec_outcome \<Rightarrow> bool" where
  "ran_privately A os exec et c oc \<longleftrightarrow>
     (\<exists>h path. A h \<and> files h path = Some (ec_Kubeconfig c, 0x180)
        \<and> env_value (Env (options_of os c path)) ''KUBECONFIG'' = Some path
        \<and> oc = exec_outcome_of et (fst (run_command os exec c path h)))"

lemma KUBECONFIG_option: "env_value (Env (options_of os c path)) ''KUBECONFIG'' = Some path"
  by (simp add: options_of_def env_value_exec_env)

lemma run_command_laws:
  assumes "lawful_temp os exec taken"
  shows "taken (snd (run_command os exec c path s)) = taken s"
    and "p \<in> temp_paths os \<Longrightarrow> p \<noteq> path \<Longrightarrow> files (snd (run_command os exec c path s)) p = files s p"
  using assms KUBECONFIG_option [of os c path] by (simp_all add: lawful_temp_def run_command_def)

lemma draw_laws:
  assumes "lawful_temp os exec taken" "os_random os s = (r, s')"
  shows "files s' = files s"
    and "r = Inl e \<Longrightarrow> taken s' = taken s"
    and "r = Inr bytes \<Longrightarrow> taken s' = insert (temp_path (os_tempdir os) bytes) (taken s)"
    and "r = Inr bytes \<Longrightarrow> temp_path (os_tempdir os) bytes \<notin> taken s"
  using assms by (cases r; simp add: lawful_temp_def Let_def)+

lemma write_laws:
  assumes "lawful_temp os exec taken" "os_WriteFile os path kc m s = (r, s')"
  shows "taken s' = taken s" and "p \<noteq> path \<Longrightarrow> files s' p = files s p"
    and "r = Inr x \<Longrightarrow> files s path = None \<Longrightarrow> files s' path = Some (kc, m)"
  using assms by (auto simp: lawful_temp_def os_WriteFile_def put_file_def split: option.splits)

text \<open>The contents of the temporary files, and a system whose failing writes create no file.\<close>

definition drawn_files :: "('w, 'm) host_scheme os \<Rightarrow> ('w, 'm) host_scheme \<Rightarrow> string \<rightharpoonup> string \<times> nat" where
  "drawn_files os s = files s |` temp_paths os"

definition whole_writes :: "('w, 'm) host_scheme os \<Rightarrow> bool" where
  "whole_writes os \<longleftrightarrow> (\<forall>p s e contents. os_write_fault os p s \<noteq> Some (e, Some contents))"

text \<open>How a call may end: a file stays behind only when it could not be written in full.\<close>

definition call_end ::
    "(('w, 'm) host_scheme \<Rightarrow> bool) \<Rightarrow> ('w, 'm) host_scheme os \<Rightarrow> ('w, 'm) runner \<Rightarrow> (goerr \<Rightarrow> string) \<Rightarrow> exec_call \<Rightarrow> string set \<Rightarrow> exec_outcome res \<Rightarrow> bool" where
  "call_end A os exec et c X r \<longleftrightarrow>
     on_ok (ran_privately A os exec et c) r \<and> (X = {} \<or> \<not> whole_writes os \<and> (\<exists>e. r = Inl e))"

lemma drawn_files_own: "p \<in> temp_paths os \<Longrightarrow> drawn_files os s p = files s p"
  by (simp add: drawn_files_def)

lemma undisturbed_file:
  assumes "undisturbed taken (drawn_files os) {path} s s'" "path \<in> taken s \<inter> temp_paths os"
  shows "files s' path = files s path" "path \<in> taken s'"
  using assms drawn_files_own [of path os] by (auto simp: undisturbed_def)

text \<open>A step that touches only the file of the call.\<close>

lemma own_file_step:
  assumes "clean os taken s" "path \<in> taken s \<inter> temp_paths os" "taken s' = taken s"
    and "\<And>p. p \<in> temp_paths os \<Longrightarrow> p \<noteq> path \<Longrightarrow> files s' p = files s p"
  shows "clean os taken s'" "transfers taken (drawn_files os) {path} {path} s s'"
    and "files s' path = None \<Longrightarrow> transfers taken (drawn_files os) {path} {} s s'"
proof -
  have "drawn_files os s' p = drawn_files os s p" if "p \<noteq> path" for p
    using assms(4) that by (simp add: drawn_files_def restrict_map_def)
  then show "transfers taken (drawn_files os) {path} {path} s s'"
    "files s' path = None \<Longrightarrow> transfers taken (drawn_files os) {path} {} s s'"
    using assms(2,3) drawn_files_own [of path os s'] by (auto simp: transfers_def)
  have "files s' p = None" if "p \<in> temp_paths os" "p \<notin> taken s" for p
    using assms that by (cases "p = path") (auto simp: clean_def)
  then show "clean os taken s'" by (simp add: clean_def assms(3))
qed

lemma owns_remove_file:
  assumes law: "lawful_temp os exec taken" and path: "path \<in> taken s \<inter> temp_paths os"
    and ran: "ran_privately A os exec et c (exec_outcome_of et r)"
  shows "owns A (clean os taken) taken (drawn_files os) (call_end A os exec et c) (remove_file et path r) {path} s"
  unfolding remove_file_def
proof (rule owns_step)
  fix s' assume "undisturbed taken (drawn_files os) {path} s s'" and "A s'" and clean: "clean os taken s'"
  from undisturbed_file [OF this(1) path] path have "path \<in> taken s' \<inter> temp_paths os" by simp
  from own_file_step [OF clean this, of "snd (os_Remove path s')"] law ran
  show "clean os taken (snd (os_Remove path s')) \<and> (\<exists>X'. transfers taken (drawn_files os) {path} X' s' (snd (os_Remove path s'))
      \<and> owns A (clean os taken) taken (drawn_files os) (call_end A os exec et c) (Done (Inr (exec_outcome_of et r))) X' (snd (os_Remove path s')))"
    by (auto simp: os_Remove_def lawful_temp_def call_end_def)
qed

lemma owns_run_and_remove:
  assumes law: "lawful_temp os exec taken" and path: "path \<in> taken s \<inter> temp_paths os"
    and written: "files s path = Some (ec_Kubeconfig c, 0x180)"
  shows "owns A (clean os taken) taken (drawn_files os) (call_end A os exec et c) (run_and_remove os exec et c path) {path} s"
  unfolding run_and_remove_def
proof (rule owns_step)
  fix s' assume und: "undisturbed taken (drawn_files os) {path} s s'" and A: "A s'" and clean: "clean os taken s'"
  let ?s = "snd (run_command os exec c path s')"
  from undisturbed_file [OF und path] path have here: "path \<in> taken s' \<inter> temp_paths os" by simp
  from undisturbed_file [OF und path] written have "files s' path = Some (ec_Kubeconfig c, 0x180)" by simp
  then have ran: "ran_privately A os exec et c (exec_outcome_of et (fst (run_command os exec c path s')))"
    using A KUBECONFIG_option [of os c path] unfolding ran_privately_def by blast
  have "path \<in> taken ?s \<inter> temp_paths os" using here run_command_laws(1) [OF law] by simp
  from owns_remove_file [OF law this ran] own_file_step(1,2) [OF clean here, of ?s] run_command_laws [OF law]
  show "clean os taken ?s \<and> (\<exists>X'. transfers taken (drawn_files os) {path} X' s' ?s
      \<and> owns A (clean os taken) taken (drawn_files os) (call_end A os exec et c) (remove_file et path (fst (run_command os exec c path s'))) X' ?s)"
    by auto
qed

lemma owns_write_and_run:
  assumes law: "lawful_temp os exec taken" and path: "path \<in> taken s \<inter> temp_paths os" and new: "files s path = None"
  shows "owns A (clean os taken) taken (drawn_files os) (call_end A os exec et c) (write_and_run os exec et c path) {path} s"
  unfolding write_and_run_def
proof (rule owns_step)
  fix s' assume und: "undisturbed taken (drawn_files os) {path} s s'" and A: "A s'" and clean: "clean os taken s'"
  obtain r s2 where w: "os_WriteFile os path (ec_Kubeconfig c) 0x180 s' = (r, s2)" by force
  note laws = write_laws [OF law w]
  from undisturbed_file [OF und path] path have here: "path \<in> taken s' \<inter> temp_paths os" by simp
  from undisturbed_file [OF und path] new have none: "files s' path = None" by simp
  note step = own_file_step [OF clean here laws(1,2)]
  have "\<exists>X'. transfers taken (drawn_files os) {path} X' s' s2 \<and> owns A (clean os taken) taken (drawn_files os) (call_end A os exec et c)
      (case r of Inl e \<Rightarrow> Done (Inl (Wrapf [Txt ''exec: writing temp kubeconfig: ''] e)) | Inr _ \<Rightarrow> run_and_remove os exec et c path) X' s2"
  proof (cases r)
    case (Inr u)
    with laws(1,3) none here have "path \<in> taken s2 \<inter> temp_paths os" "files s2 path = Some (ec_Kubeconfig c, 0x180)" by auto
    from owns_run_and_remove [OF law this] step(2) Inr show ?thesis by auto
  next
    case (Inl e)
    show ?thesis
    proof (cases "files s2 path = None")
      case True
      from step(3) [OF _ True] Inl show ?thesis by (auto simp: call_end_def)
    next
      case False
      with w Inl none obtain contents where "os_write_fault os path s' = Some (e, Some contents)"
        by (cases "os_write_fault os path s'") (auto simp: os_WriteFile_def split: option.splits)
      then have "\<not> whole_writes os" by (auto simp: whole_writes_def)
      with step(2) Inl show ?thesis by (auto simp: call_end_def)
    qed
  qed
  with step(1) show "clean os taken (snd (os_WriteFile os path (ec_Kubeconfig c) 0x180 s'))
      \<and> (\<exists>X'. transfers taken (drawn_files os) {path} X' s' (snd (os_WriteFile os path (ec_Kubeconfig c) 0x180 s'))
      \<and> owns A (clean os taken) taken (drawn_files os) (call_end A os exec et c)
          (case fst (os_WriteFile os path (ec_Kubeconfig c) 0x180 s') of
             Inl e \<Rightarrow> Done (Inl (Wrapf [Txt ''exec: writing temp kubeconfig: ''] e))
           | Inr _ \<Rightarrow> run_and_remove os exec et c path) X' (snd (os_WriteFile os path (ec_Kubeconfig c) 0x180 s')))"
    using w by simp
qed

lemma start_call_steps:
  "start_call os exec et c =
     (if ec_Command c = [] then Done (Inl (Errorf [Txt ''exec: command must be non-empty'']))
      else pbind (call (os_random os)) (\<lambda>r. case r of
             Inl e \<Rightarrow> Done (Inl (Wrapf [Txt ''exec: writing temp kubeconfig: ''] e))
           | Inr bytes \<Rightarrow> write_and_run os exec et c (temp_path (os_tempdir os) bytes)))"
  by (cases "ec_Command c")
     (auto simp: stage_programs ebind_def call_def Let_def pbind_case_sum split: prod.split sum.split intro!: ext)

lemma owns_start_call:
  assumes law: "lawful_temp os exec taken"
  shows "owns A (clean os taken) taken (drawn_files os) (call_end A os exec et c) (start_call os exec et c) {} s"
proof (cases "ec_Command c = []")
  case True
  then show ?thesis by (simp add: start_call_steps call_end_def)
next
  case False
  have "owns A (clean os taken) taken (drawn_files os) (call_end A os exec et c) (pbind (call (os_random os)) (\<lambda>r. case r of
             Inl e \<Rightarrow> Done (Inl (Wrapf [Txt ''exec: writing temp kubeconfig: ''] e))
           | Inr bytes \<Rightarrow> write_and_run os exec et c (temp_path (os_tempdir os) bytes))) {} s"
  proof (rule owns_step)
    fix s' assume "A s'" and clean: "clean os taken s'"
    obtain r s2 where draw: "os_random os s' = (r, s2)" by force
    note laws = draw_laws [OF law draw]
    show "clean os taken (snd (os_random os s')) \<and> (\<exists>X'. transfers taken (drawn_files os) {} X' s' (snd (os_random os s'))
        \<and> owns A (clean os taken) taken (drawn_files os) (call_end A os exec et c)
          (case fst (os_random os s') of Inl e \<Rightarrow> Done (Inl (Wrapf [Txt ''exec: writing temp kubeconfig: ''] e))
           | Inr bytes \<Rightarrow> write_and_run os exec et c (temp_path (os_tempdir os) bytes)) X' (snd (os_random os s')))"
    proof (cases r)
      case (Inl e)
      with laws(1,2) clean draw show ?thesis
        by (auto simp: call_end_def clean_def transfers_def drawn_files_def)
    next
      case (Inr bytes)
      let ?path = "temp_path (os_tempdir os) bytes"
      from Inr laws have taken: "taken s2 = insert ?path (taken s')" "?path \<notin> taken s'" "files s2 = files s'" by auto
      have temp: "?path \<in> temp_paths os" by (simp add: temp_paths_def)
      with clean taken have "files s2 ?path = None" by (simp add: clean_def)
      with owns_write_and_run [OF law, of ?path s2 A et c] taken temp
      have "owns A (clean os taken) taken (drawn_files os) (call_end A os exec et c) (write_and_run os exec et c ?path) {?path} s2" by simp
      moreover have "transfers taken (drawn_files os) {} {?path} s' s2"
        using taken by (auto simp: transfers_def drawn_files_def)
      moreover have "clean os taken s2" using clean taken by (auto simp: clean_def)
      ultimately show ?thesis using Inr draw by auto
    qed
  qed
  with False show ?thesis by (simp add: start_call_steps)
qed

subsection \<open>Pools of calls\<close>

lemma leaves_temp_drawn: "leaves_temp os taken s s' \<Longrightarrow> drawn_files os s' = drawn_files os s"
  by (auto simp: leaves_temp_def drawn_files_def restrict_map_def)

interpretation temp_files: owned_cells "clean os taken" taken "drawn_files os" "leaves_temp os taken" for os taken
  by unfold_locales (auto simp: leaves_temp_drawn, auto simp: leaves_temp_def clean_def)

lemma undrawn_gone:
  assumes "clean os taken s'" "path \<in> temp_paths os - taken s" "path \<in> taken s' - taken s \<Longrightarrow> drawn_files os s' path = None"
  shows "files s' path = None"
  using assms drawn_files_own [of path os s'] by (auto simp: clean_def)

text \<open>
  Any number of commands run at once, each with a kubeconfig of its own. When such a
  command is started, the file that KUBECONFIG names (whatever the surrounding environment or
  the credentials say) holds exactly the kubeconfig of its call and only its owner may read it;
  once all calls have returned an outcome none of the files is left.
\<close>

theorem commands_side_by_side:
  assumes "lawful_temp os exec taken" "clean os taken s"
    and "(world_step (leaves_temp os taken))\<^sup>*\<^sup>* (s, map (start_call os exec et) calls) (s', ps')"
  shows "(\<forall>i < length calls. \<forall>oc. ps' ! i = Done (Inr oc) \<longrightarrow> ran_privately
        (between (leaves_temp os taken) (s, map (start_call os exec et) calls) (s', ps')) os exec et (calls ! i) oc)
    \<and> ((\<forall>i < length calls. \<exists>oc. ps' ! i = Done (Inr oc)) \<longrightarrow> (\<forall>path \<in> temp_paths os - taken s. files s' path = None))"
proof (intro conjI allI impI ballI)
  let ?A = "between (leaves_temp os taken) (s, map (start_call os exec et) calls) (s', ps')"
  let ?ends = "\<lambda>i. call_end ?A os exec et (calls ! i)"
  have owns: "owns ?A (clean os taken) taken (drawn_files os) (?ends i) (map (start_call os exec et) calls ! i) {} s"
    if "i < length (map (start_call os exec et) calls)" for i
    using owns_start_call [OF assms(1)] that by simp
  show "ran_privately ?A os exec et (calls ! i) oc" if "i < length calls" "ps' ! i = Done (Inr oc)" for i oc
    using temp_files.owned_result [OF assms(3,2) owns, of i] that by (auto simp: call_end_def)
  fix path assume ended: "\<forall>i < length calls. \<exists>oc. ps' ! i = Done (Inr oc)" and path: "path \<in> temp_paths os - taken s"
  obtain Xs where so: "temp_files.shared_out os taken ?A ?ends (taken s) s' ps' Xs" and len: "length ps' = length calls"
    using temp_files.shared_out_end [OF assms(3,2) owns] by auto
  have "\<forall>p \<in> set ps'. \<exists>oc. p = Done (Inr oc)" using len ended by (auto simp: in_set_conv_nth)
  then have "\<exists>rs. ps' = map Done rs" by (simp add: ex_map_conv) blast
  then obtain rs where rs: "ps' = map Done rs" by blast
  then have ok: "\<exists>oc. rs ! i = Inr oc" if "i < length rs" for i using len ended that by fastforce
  have "clean os taken s'" using so by (simp add: temp_files.shared_out_def)
  then show "files s' path = None"
  proof (rule undrawn_gone)
    show "path \<in> temp_paths os - taken s" by (rule path)
    assume "path \<in> taken s' - taken s"
    with ok show "drawn_files os s' path = None"
      by (intro temp_files.nothing_left [OF assms(3) [unfolded rs] assms(2) owns [unfolded rs]]) (force simp: call_end_def)+
  qed
qed


text \<open>Two commands that print their kubeconfig, step by step in turns.\<close>

definition counting_os :: "nat host os" where
  "counting_os = \<lparr>os_random = (\<lambda>s. case outside s of
       0 \<Rightarrow> (Inr ''12345678'', s\<lparr>outside := 1\<rparr>)
     | Suc 0 \<Rightarrow> (Inr ''abcdefgh'', s\<lparr>outside := 2\<rparr>)
     | _ \<Rightarrow> (Inl (Lib_Error ''no entropy''), s)),
     os_read_fault = (\<lambda>_ _. None), os_write_fault = (\<lambda>_ _. None), os_tempdir = ''/tmp'', os_environ = [''KUBECONFIG=/etc/other'']\<rparr>"

definition drawn_names :: "nat host \<Rightarrow> string set" where
  "drawn_names s = set (take (outside s) [temp_path ''/tmp'' ''12345678'', temp_path ''/tmp'' ''abcdefgh''])"

definition print_kubeconfig :: "(nat, unit) runner" where
  "print_kubeconfig prg args opts s =
     (case env_value (Env opts) ''KUBECONFIG'' of
        None \<Rightarrow> (Inl (Exit_Error '''' ''no KUBECONFIG'' 1 (Lib_Error ''exit status 1'')), s)
      | Some path \<Rightarrow> (Inr \<lparr>Stdout = (case files s path of None \<Rightarrow> '''' | Some (kc, _) \<Rightarrow> kc), Stderr = ''''\<rparr>, s))"

definition cat_call :: "string \<Rightarrow> exec_call" where
  "cat_call kc = \<lparr>ec_Kubeconfig = kc, ec_OpenStack = [(''KUBECONFIG'', ''/x'')], ec_Command = [''cat''], ec_Stdin = ''''\<rparr>"

definition fresh_host :: "nat host" where
  "fresh_host = \<lparr>files = Map.empty, outside = 0\<rparr>"

lemma names_differ: "temp_path ''/tmp'' ''12345678'' \<noteq> temp_path ''/tmp'' ''abcdefgh''"
  by code_simp

lemma counting_os_lawful: "lawful_temp counting_os print_kubeconfig drawn_names"
  unfolding lawful_temp_def
  using names_differ
  by (auto simp: counting_os_def drawn_names_def print_kubeconfig_def Let_def numeral_2_eq_2 split: nat.splits option.splits)

lemma cats_run:
  "\<exists>s'. run (par [0, 1, 0, 1, 0, 1] (map (start_call counting_os print_kubeconfig (\<lambda>_. '''')) [cat_call ''kc-a'', cat_call ''kc-b''])) fresh_host =
    ([Inr \<lparr>oc_Stdout = ''kc-a'', oc_Stderr = '''', oc_ExitCode = 0\<rparr>, Inr \<lparr>oc_Stdout = ''kc-b'', oc_Stderr = '''', oc_ExitCode = 0\<rparr>], s')"
  using names_differ
  by (simp add: start_call_def WithKubeconfig_def writeTempKubeconfig_def cat_call_def ebind_def call_def Let_def
      counting_os_def fresh_host_def os_WriteFile_def put_file_def print_kubeconfig_def env_value_exec_env exec_outcome_of_def os_Remove_def)

theorem commands_side_by_side_witness:
  "\<exists>s'. \<forall>kc \<in> {''kc-a'', ''kc-b''}. ran_privately
      (between (leaves_temp counting_os drawn_names)
        (fresh_host, map (start_call counting_os print_kubeconfig (\<lambda>_. '''')) [cat_call ''kc-a'', cat_call ''kc-b''])
        (s', map (\<lambda>kc. Done (Inr \<lparr>oc_Stdout = kc, oc_Stderr = '''', oc_ExitCode = 0\<rparr>)) [''kc-a'', ''kc-b'']))
      counting_os print_kubeconfig (\<lambda>_. '''') (cat_call kc) \<lparr>oc_Stdout = kc, oc_Stderr = '''', oc_ExitCode = 0\<rparr>"
proof -
  let ?calls = "[cat_call ''kc-a'', cat_call ''kc-b'']"
  obtain s' where "run (par [0, 1, 0, 1, 0, 1] (map (start_call counting_os print_kubeconfig (\<lambda>_. '''')) ?calls)) fresh_host =
    ([Inr \<lparr>oc_Stdout = ''kc-a'', oc_Stderr = '''', oc_ExitCode = 0\<rparr>, Inr \<lparr>oc_Stdout = ''kc-b'', oc_Stderr = '''', oc_ExitCode = 0\<rparr>], s')"
    using cats_run by blast
  note steps = world_of_pool [OF pool_steps_par [OF this], of "leaves_temp counting_os drawn_names"]
  have "clean counting_os drawn_names fresh_host" by (simp add: clean_def fresh_host_def)
  from commands_side_by_side [OF counting_os_lawful this steps] show ?thesis
    by (intro exI [of _ s']) (auto simp: less_Suc_eq)
qed


end
