(* ===== verification/Kube.thy ===== *)
theory Kube
  imports Config Exec
begin

text \<open>
  The Kubernetes side: values of unstructured objects, and the libraries the program calls
  (\<open>client-go\<close>, \<open>apimachinery\<close>, \<open>gojq\<close>, \<open>yaml.v3\<close>) as the fields of the record
  \<open>kube\<close>, which every definition that uses them takes as an argument. A client handle is
  a value of the type variable \<open>'c\<close>; a call to an API server reads and changes the state
  \<open>'w\<close> of the outside world.

  \<open>internal/server/clients.go\<close> and \<open>internal/capi/kubeconfig.go\<close>, which only combine
  such calls, are modelled here too.
\<close>

subsection \<open>Objects and libraries\<close>

datatype json =
    J_Null
  | J_Bool bool
  | J_Int int64
  | J_Float float64
  | J_Str string
  | J_Arr "json list"
  | J_Obj "(string \<times> json) list"

text \<open>\<open>schema.GroupVersionResource\<close> names a kind of custom resource.\<close>

record gvr =
  gvr_Group :: string
  gvr_Version :: string
  gvr_Resource :: string

definition clusterGVR :: gvr where
  "clusterGVR = \<lparr>gvr_Group = ''cluster.x-k8s.io'', gvr_Version = ''v1beta1'', gvr_Resource = ''clusters''\<rparr>"

definition openStackGVR :: gvr where
  "openStackGVR =
     \<lparr>gvr_Group = ''infrastructure.cluster.x-k8s.io'', gvr_Version = ''v1beta1'', gvr_Resource = ''openstackclusters''\<rparr>"

text \<open>An unstructured object, with what \<open>GetNamespace\<close> and \<open>GetName\<close> return.\<close>

record item =
  item_Namespace :: string
  item_Name :: string
  item_Object :: json

record cloud =
  cl_Auth :: "string gomap"
  cl_RegionName :: string
  cl_Cacert :: string
  cl_AuthType :: string
  cl_Interface :: string
  cl_IdentityAPIVersion :: string

record policy_rule =
  pr_APIGroups :: "string list"
  pr_Resources :: "string list"
  pr_NonResourceURLs :: "string list"
  pr_Verbs :: "string list"

record cluster_role =
  cr_Name :: string
  cr_Rules :: "policy_rule list"

record cluster_role_binding =
  crb_Name :: string
  crb_RoleRef :: "string \<times> string \<times> string"
  crb_Subjects :: "(string \<times> string \<times> string) list"

text \<open>The part of an admin kubeconfig that a read-only one is built from.\<close>

record admin_cluster =
  ac_Server :: string
  ac_CertificateAuthorityData :: string

record ('c, 'w) kube =
  \<comment> \<open>strconv.Quote, and what the compiler makes of an out-of-range float\<close>
  k_quote :: "string \<Rightarrow> string"
  k_oor :: "float64 \<Rightarrow> int64"
  \<comment> \<open>clientcmd and client construction\<close>
  k_load :: "string \<Rightarrow> 'c res"
  k_contexts :: "'c \<Rightarrow> string list"
  k_client_config :: "'c \<Rightarrow> string \<Rightarrow> 'c res"
  k_new_dynamic :: "'c \<Rightarrow> 'c res"
  k_new_typed :: "'c \<Rightarrow> 'c res"
  \<comment> \<open>API calls; a list takes a namespace and a label selector, empty for none\<close>
  k_list :: "'c \<Rightarrow> gvr \<Rightarrow> string \<Rightarrow> string \<Rightarrow> 'w \<Rightarrow> item list res \<times> 'w"
  k_get_secret :: "'c \<Rightarrow> string \<Rightarrow> string \<Rightarrow> 'w \<Rightarrow> string gomap res \<times> 'w"
  k_create_sa :: "'c \<Rightarrow> string \<Rightarrow> string \<Rightarrow> 'w \<Rightarrow> unit res \<times> 'w"
  k_create_role :: "'c \<Rightarrow> cluster_role \<Rightarrow> 'w \<Rightarrow> unit res \<times> 'w"
  k_update_role :: "'c \<Rightarrow> cluster_role \<Rightarrow> 'w \<Rightarrow> unit res \<times> 'w"
  k_create_binding :: "'c \<Rightarrow> cluster_role_binding \<Rightarrow> 'w \<Rightarrow> unit res \<times> 'w"
  k_update_binding :: "'c \<Rightarrow> cluster_role_binding \<Rightarrow> 'w \<Rightarrow> unit res \<times> 'w"
  k_delete_binding :: "'c \<Rightarrow> string \<Rightarrow> 'w \<Rightarrow> unit res \<times> 'w"
  k_create_token :: "'c \<Rightarrow> string \<Rightarrow> string \<Rightarrow> int64 \<Rightarrow> 'w \<Rightarrow> string res \<times> 'w"
  \<comment> \<open>unstructured accessors: the value found, or the zero value\<close>
  k_nested_string :: "json \<Rightarrow> string list \<Rightarrow> string"
  k_nested_strings :: "json \<Rightarrow> string list \<Rightarrow> string list"
  k_nested_field :: "json \<Rightarrow> string list \<Rightarrow> json option"
  \<comment> \<open>gojq (the first output of a compiled query) and yaml.v3\<close>
  k_jq :: "string \<Rightarrow> (json \<Rightarrow> json res option) res"
  k_yaml_decode :: "string \<Rightarrow> json res"
  k_yaml_encode :: "json \<Rightarrow> string res"
  k_yaml_clouds :: "string \<Rightarrow> cloud gomap res"
  k_yaml_admin_clusters :: "string \<Rightarrow> admin_cluster list res"

text \<open>One call to the outside is one atomic step.\<close>

definition api :: "('w \<Rightarrow> 'a \<times> 'w) \<Rightarrow> (('w, 'm) host_scheme, 'a) prog" where
  "api f = call (\<lambda>s. (fst (f (outside s)), s\<lparr>outside := snd (f (outside s))\<rparr>))"

lemma run_api [run_simps, simp]:
  "run (api f) s = (fst (f (outside s)), s\<lparr>outside := snd (f (outside s))\<rparr>)"
  by (simp add: api_def)

subsection \<open>Kubeconfigs and clients\<close>

definition GetContexts :: "('c, 'w) kube \<Rightarrow> string \<Rightarrow> string list res" where
  "GetContexts K kubeconfigYAML = res_bind (k_load K kubeconfigYAML) (\<lambda>raw. Inr (sort (k_contexts K raw)))"

definition RESTConfigForContext :: "('c, 'w) kube \<Rightarrow> string \<Rightarrow> string \<Rightarrow> 'c res" where
  "RESTConfigForContext K kubeconfigYAML context =
     res_bind (k_load K kubeconfigYAML) (\<lambda>raw. k_client_config K raw context)"

record 'c clients =
  Dynamic :: 'c
  Core :: 'c
  Rbac :: 'c

definition clientsFromKubeconfigBytes :: "('c, 'w) kube \<Rightarrow> string \<Rightarrow> string \<Rightarrow> 'c clients res" where
  "clientsFromKubeconfigBytes K data context =
     res_bind (wrap_res [Txt ''server: building rest config: ''] (RESTConfigForContext K data context)) (\<lambda>restCfg.
     res_bind (wrap_res [Txt ''server: building dynamic client: ''] (k_new_dynamic K restCfg)) (\<lambda>dyn.
     res_bind (wrap_res [Txt ''server: building typed client: ''] (k_new_typed K restCfg)) (\<lambda>clientset.
     Inr \<lparr>Dynamic = dyn, Core = clientset, Rbac = clientset\<rparr>)))"

definition RealClientsForContext ::
    "('w, 'm) host_scheme os \<Rightarrow> ('c, 'w) kube \<Rightarrow> kubeconfig_source \<Rightarrow> string
     \<Rightarrow> (('w, 'm) host_scheme, 'c clients res) prog" where
  "RealClientsForContext os K src context =
     ebind (wrap_err [Txt ''server: reading kubeconfig '', Txt (src_Path src), Txt '': '']
              (call (\<lambda>s. (os_ReadFile os (src_Path src) s, s))))
       (\<lambda>data. Done (clientsFromKubeconfigBytes K data context))"

definition ClientsFromKubeconfigYAML :: "('c, 'w) kube \<Rightarrow> string \<Rightarrow> ('c \<times> 'c) res" where
  "ClientsFromKubeconfigYAML K kubeconfigYAML =
     res_bind (clientsFromKubeconfigBytes K kubeconfigYAML '''') (\<lambda>cl. Inr (Core cl, Rbac cl))"

subsection \<open>A concrete instance\<close>

text \<open>
  Libraries and API servers that refuse everything; examples override the calls they need.
\<close>

definition refused :: goerr where
  "refused = Lib_Error ''connection refused''"

definition offline_kube :: "('c, 'w) kube" where
  "offline_kube = \<lparr>
     k_quote = (\<lambda>s. s), k_oor = (\<lambda>_. 0),
     k_load = (\<lambda>_. Inl refused), k_contexts = (\<lambda>_. []), k_client_config = (\<lambda>_ _. Inl refused),
     k_new_dynamic = Inr, k_new_typed = Inr,
     k_list = (\<lambda>_ _ _ _ w. (Inl refused, w)),
     k_get_secret = (\<lambda>_ _ _ w. (Inl refused, w)), k_create_sa = (\<lambda>_ _ _ w. (Inl refused, w)),
     k_create_role = (\<lambda>_ _ w. (Inl refused, w)), k_update_role = (\<lambda>_ _ w. (Inl refused, w)),
     k_create_binding = (\<lambda>_ _ w. (Inl refused, w)), k_update_binding = (\<lambda>_ _ w. (Inl refused, w)),
     k_delete_binding = (\<lambda>_ _ w. (Inl refused, w)), k_create_token = (\<lambda>_ _ _ _ w. (Inl refused, w)),
     k_nested_string = (\<lambda>_ _. ''''), k_nested_strings = (\<lambda>_ _. []), k_nested_field = (\<lambda>_ _. None),
     k_jq = (\<lambda>_. Inl refused), k_yaml_decode = (\<lambda>_. Inl refused), k_yaml_encode = (\<lambda>_. Inl refused),
     k_yaml_clouds = (\<lambda>_. Inl refused), k_yaml_admin_clusters = (\<lambda>_. Inl refused)\<rparr>"

end
