(* ===== verification/Capi.thy ===== *)
theory Capi
  imports Kube
begin

text \<open>
  \<open>internal/capi/clusters.go\<close>, \<open>kubeconfig_fetch.go\<close>, \<open>transform.go\<close> and
  \<open>openstack.go\<close>: what the program reads from a management cluster, and how it turns it
  into cluster lists, kubeconfigs, OpenStack credentials and API server addresses.
\<close>

text \<open>A name in single quotes inside a message.\<close>

definition single_quoted :: "string \<Rightarrow> frag" where
  "single_quoted s = Txt (CHR 0x27 # s @ [CHR 0x27])"

subsection \<open>Custom fields and the cluster list\<close>

text \<open>The jq query for all items at once; the keys are sorted, so it is the same for every
  iteration order of the map.\<close>

definition custom_fields_query :: "(string \<Rightarrow> string) \<Rightarrow> string gomap \<Rightarrow> string" where
  "custom_fields_query quote customFields =
     (let keys = sort (map fst customFields);
          parts = map (\<lambda>k. quote k @ '': ('' @ or_empty (map_of customFields k) @ '')'') keys
      in ''[.items[] | {'' @ go_join '', '' parts @ ''}]'')"

definition nonempty_strings :: "json \<Rightarrow> string gomap" where
  "nonempty_strings raw =
     (case raw of
        J_Obj obj \<Rightarrow>
          List.map_filter (\<lambda>(k, fv). case fv of J_Str s \<Rightarrow> (if s \<noteq> '''' then Some (k, s) else None) | _ \<Rightarrow> None) obj
      | _ \<Rightarrow> [])"

text \<open>What \<open>%T\<close> prints for a value that the query returns.\<close>

fun go_type :: "json \<Rightarrow> string" where
  "go_type J_Null = ''<nil>''"
| "go_type (J_Bool _) = ''bool''"
| "go_type (J_Int _) = ''int''"
| "go_type (J_Float _) = ''float64''"
| "go_type (J_Str _) = ''string''"
| "go_type (J_Arr _) = ''[]interface {}''"
| "go_type (J_Obj _) = ''map[string]interface {}''"

definition evalCustomFields ::
    "('c, 'w) kube \<Rightarrow> json list \<Rightarrow> string gomap \<Rightarrow> string gomap list res" where
  "evalCustomFields K items customFields =
     res_bind (k_jq K (custom_fields_query (k_quote K) customFields)) (\<lambda>code.
     (case code (J_Obj [(''items'', J_Arr items)]) of
        None \<Rightarrow> Inl (Errorf [Txt ''jq: produced no output''])
      | Some (Inl e) \<Rightarrow> Inl e
      | Some (Inr (J_Arr rawResults)) \<Rightarrow> Inr (map nonempty_strings rawResults)
      | Some (Inr v) \<Rightarrow> Inl (Errorf [Txt ''jq: expected an array result, got '', Txt (go_type v)])))"

definition attach_fields :: "capi_cluster list \<Rightarrow> string gomap list \<Rightarrow> capi_cluster list" where
  "attach_fields clusters fieldValues =
     map (\<lambda>i. if i < length fieldValues \<and> fieldValues ! i \<noteq> []
              then (clusters ! i)\<lparr>CustomFields := fieldValues ! i\<rparr> else clusters ! i)
       [0..<length clusters]"

definition ListClustersForContext ::
    "('c, 'w) kube \<Rightarrow> 'c \<Rightarrow> string \<Rightarrow> string \<Rightarrow> string gomap
     \<Rightarrow> (('w, 'm) host_scheme, capi_cluster list res) prog" where
  "ListClustersForContext K dyn kubeconfigName context customFields =
     ebind (wrap_err [Txt ''capi: listing clusters: ''] (api (k_list K dyn clusterGVR '''' ''''))) (\<lambda>items.
       let clusters = map (\<lambda>it. bare_cluster kubeconfigName context (item_Namespace it) (item_Name it)) items
       in if clusters = [] \<or> customFields = [] then Done (Inr clusters)
          else Done (res_bind
             (wrap_res [Txt ''capi: evaluating custom_fields: '']
                (evalCustomFields K (map item_Object items) customFields))
             (\<lambda>fieldValues. Inr (attach_fields clusters fieldValues))))"

subsection \<open>Workload kubeconfigs\<close>

definition FetchWorkloadKubeconfig ::
    "('c, 'w) kube \<Rightarrow> 'c \<Rightarrow> string \<Rightarrow> string \<Rightarrow> (('w, 'm) host_scheme, string res) prog" where
  "FetchWorkloadKubeconfig K core namespace clusterName =
     (let name = clusterName @ ''-kubeconfig'' in
      ebind (wrap_err [Txt ''capi: fetching secret '', Txt namespace, Txt ''/'', Txt name, Txt '': '']
               (api (k_get_secret K core namespace name))) (\<lambda>data.
        Done (case map_of data ''value'' of
            None \<Rightarrow> Inl (Errorf [Txt ''fetchWorkloadKubeconfig: secret '', Quo name, Txt '' has no '', single_quoted ''value'', Txt '' key''])
          | Some v \<Rightarrow>
              if v = '''' then
                Inl (Errorf [Txt ''fetchWorkloadKubeconfig: secret '', Quo name, Txt '' has no '', single_quoted ''value'', Txt '' key''])
              else Inr v)))"

definition transform_query :: "kubeconfig_transforms \<Rightarrow> string" where
  "transform_query t =
     go_join '' | ''
       ((if tr_Clusters t \<noteq> '''' then [''.clusters |= map('' @ tr_Clusters t @ '')''] else [])
        @ (if tr_Contexts t \<noteq> '''' then [''.contexts |= map('' @ tr_Contexts t @ '')''] else [])
        @ (if tr_Users t \<noteq> '''' then [''.users |= map('' @ tr_Users t @ '')''] else []))"

definition ApplyKubeconfigTransform ::
    "('c, 'w) kube \<Rightarrow> string \<Rightarrow> kubeconfig_transforms \<Rightarrow> string res" where
  "ApplyKubeconfigTransform K kcYAML transforms =
     res_bind (k_jq K (transform_query transforms)) (\<lambda>code.
     res_bind (wrap_res [Txt ''capi: parsing kubeconfig for transform: ''] (k_yaml_decode K kcYAML)) (\<lambda>inp.
     (case code inp of
        None \<Rightarrow> Inl (Errorf [Txt ''jq: transform produced no output''])
      | Some (Inl e) \<Rightarrow> Inl e
      | Some (Inr v) \<Rightarrow>
          wrap_res [Txt ''capi: rendering transformed kubeconfig: ''] (k_yaml_encode K v))))"

subsection \<open>OpenStack\<close>

definition fetchOpenStackCluster ::
    "('c, 'w) kube \<Rightarrow> 'c \<Rightarrow> string \<Rightarrow> string \<Rightarrow> (('w, 'm) host_scheme, json option res) prog" where
  "fetchOpenStackCluster K dyn namespace clusterName =
     ebind (wrap_err [Txt ''capi: listing OpenStackClusters: '']
              (api (k_list K dyn openStackGVR namespace (''cluster.x-k8s.io/cluster-name='' @ clusterName))))
       (\<lambda>items. Done (Inr (case items of [] \<Rightarrow> None | it # _ \<Rightarrow> Some (item_Object it))))"

definition auth_value :: "cloud \<Rightarrow> string \<Rightarrow> string" where
  "auth_value c k = or_empty (map_of (cl_Auth c) k)"

text \<open>The calls of the closure \<open>set\<close>, in order; only non-empty values are stored.\<close>

definition openstack_env :: "cloud \<Rightarrow> string gomap" where
  "openstack_env c =
     filter (\<lambda>(k, v). v \<noteq> '''')
       [(''OS_AUTH_URL'', auth_value c ''auth_url''),
        (''OS_USERNAME'', auth_value c ''username''),
        (''OS_PASSWORD'', auth_value c ''password''),
        (''OS_PROJECT_NAME'', auth_value c ''project_name''),
        (''OS_USER_DOMAIN_NAME'', auth_value c ''user_domain_name''),
        (''OS_PROJECT_DOMAIN_NAME'', auth_value c ''project_domain_name''),
        (''OS_REGION_NAME'', cl_RegionName c),
        (''OS_CACERT'', cl_Cacert c),
        (''OS_APPLICATION_CREDENTIAL_ID'', auth_value c ''application_credential_id''),
        (''OS_APPLICATION_CREDENTIAL_SECRET'', auth_value c ''application_credential_secret''),
        (''OS_AUTH_TYPE'', if cl_AuthType c = '''' then auth_value c ''auth_type'' else cl_AuthType c),
        (''OS_INTERFACE'', cl_Interface c),
        (''OS_IDENTITY_API_VERSION'', cl_IdentityAPIVersion c)]"

definition default_to :: "string \<Rightarrow> string \<Rightarrow> string" where
  "default_to d s = (if s = '''' then d else s)"

definition FetchOpenStackEnv ::
    "('c, 'w) kube \<Rightarrow> 'c \<Rightarrow> 'c \<Rightarrow> string \<Rightarrow> string \<Rightarrow> (('w, 'm) host_scheme, string gomap res) prog" where
  "FetchOpenStackEnv K dyn core namespace clusterName =
     ebind (fetchOpenStackCluster K dyn namespace clusterName) (\<lambda>osc.
     case osc of
       None \<Rightarrow> Done (Inl (Errorf [Txt ''No OpenStackCluster found for cluster '', single_quoted clusterName,
                  Txt '' in namespace '', single_quoted namespace]))
     | Some obj \<Rightarrow>
       let secretName = default_to (clusterName @ ''-cloud-config'')
             (k_nested_string K obj [''spec'', ''identityRef'', ''name'']);
           cloudName = default_to ''openstack'' (k_nested_string K obj [''spec'', ''cloudName'']) in
       ebind (wrap_err [Txt ''capi: fetching secret '', Txt namespace, Txt ''/'', Txt secretName, Txt '': '']
                (api (k_get_secret K core namespace secretName))) (\<lambda>data.
       let raw = or_empty (map_of data ''clouds.yaml'') in
       if raw = '''' then
         Done (Inl (Errorf [Txt ''Secret '', single_quoted secretName, Txt '' has no '', single_quoted ''clouds.yaml'', Txt '' key'']))
       else
         Done (res_bind (wrap_res [Txt ''capi: parsing clouds.yaml: ''] (k_yaml_clouds K raw)) (\<lambda>clouds.
           case map_of clouds cloudName of
             None \<Rightarrow> Inl (Errorf [Txt ''OpenStack cloud '', single_quoted cloudName, Txt '' not found in clouds.yaml''])
           | Some c \<Rightarrow> Inr (openstack_env c)))))"

text \<open>A port that may be a JSON string or a number.\<close>

definition nestedStringOrNumber :: "('c, 'w) kube \<Rightarrow> json \<Rightarrow> string list \<Rightarrow> string" where
  "nestedStringOrNumber K obj path =
     (case k_nested_field K obj path of
        Some (J_Str s) \<Rightarrow> s
      | Some (J_Int n) \<Rightarrow> itoa (sint n)
      | Some (J_Float x) \<Rightarrow> itoa (sint (float_to_int64 (k_oor K) x))
      | _ \<Rightarrow> '''')"

text \<open>\<open>None\<close> is \<open>ok = false\<close>: the API server needs no tunnel, or has no usable address.\<close>

definition api_server_info :: "('c, 'w) kube \<Rightarrow> json \<Rightarrow> (string \<times> string) option" where
  "api_server_info K obj =
     (if k_nested_strings K obj [''spec'', ''apiServerLoadBalancer'', ''allowedCIDRs''] = [] then None
      else
        let host = k_nested_string K obj [''spec'', ''controlPlaneEndpoint'', ''host''];
            port = nestedStringOrNumber K obj [''spec'', ''controlPlaneEndpoint'', ''port'']
        in if host = '''' \<or> port = '''' then None else Some (host, port))"

definition FetchAPIServerInfo ::
    "('c, 'w) kube \<Rightarrow> 'c \<Rightarrow> string \<Rightarrow> string \<Rightarrow> (('w, 'm) host_scheme, (string \<times> string) option res) prog" where
  "FetchAPIServerInfo K dyn namespace clusterName =
     ebind (fetchOpenStackCluster K dyn namespace clusterName) (\<lambda>osc.
       Done (Inr (case osc of None \<Rightarrow> None | Some obj \<Rightarrow> api_server_info K obj)))"

subsection \<open>What the reads return\<close>

lemma custom_fields_query_order:
  assumes "same_gomap m m'"
  shows "custom_fields_query q m = custom_fields_query q m'"
  using same_gomap_keys [OF assms] assms
  by (simp add: custom_fields_query_def same_gomap_def)

lemma nonempty_strings_values: "(k, v) \<in> set (nonempty_strings raw) \<Longrightarrow> v \<noteq> ''''"
  by (auto simp: nonempty_strings_def List.map_filter_def split: json.splits if_splits)

lemma attach_fields_cases:
  assumes "i < length clusters"
  shows "attach_fields clusters fvs ! i =
    (if i < length fvs \<and> fvs ! i \<noteq> [] then (clusters ! i)\<lparr>CustomFields := fvs ! i\<rparr> else clusters ! i)"
  using assms by (simp add: attach_fields_def)

lemma length_attach_fields [simp]: "length (attach_fields clusters fvs) = length clusters"
  by (simp add: attach_fields_def)

definition listed_as :: "string \<Rightarrow> string \<Rightarrow> item \<Rightarrow> capi_cluster \<Rightarrow> bool" where
  "listed_as kn ctx it c \<longleftrightarrow>
     KubeconfigName c = kn \<and> Context c = ctx \<and> Namespace c = item_Namespace it \<and> Name c = item_Name it
     \<and> (\<forall>(k, v) \<in> set (CustomFields c). v \<noteq> '''')"

lemma evalCustomFields_values:
  assumes "evalCustomFields K items cf = Inr fvs"
  shows "\<forall>f \<in> set fvs. \<forall>(k, v) \<in> set f. v \<noteq> ''''"
proof -
  from assms obtain code where code: "(case code (J_Obj [(''items'', J_Arr items)]) of
        None \<Rightarrow> Inl (Errorf [Txt ''jq: produced no output''])
      | Some (Inl e) \<Rightarrow> Inl e
      | Some (Inr (J_Arr rawResults)) \<Rightarrow> Inr (map nonempty_strings rawResults)
      | Some (Inr v) \<Rightarrow> Inl (Errorf [Txt ''jq: expected an array result, got '', Txt (go_type v)])) = Inr fvs"
    by (auto simp: evalCustomFields_def res_bind_eq_Inr)
  then obtain raw where "fvs = map nonempty_strings raw"
    by (cases "code (J_Obj [(''items'', J_Arr items)])") (auto split: sum.split_asm json.split_asm)
  then show ?thesis by (auto dest: nonempty_strings_values)
qed

lemma attach_fields_listed:
  assumes "\<forall>f \<in> set fvs. \<forall>(k, v) \<in> set f. v \<noteq> ''''"
  shows "list_all2 (listed_as kn ctx) items
    (attach_fields (map (\<lambda>it. bare_cluster kn ctx (item_Namespace it) (item_Name it)) items) fvs)"
  using assms
  by (auto simp: list_all2_conv_all_nth attach_fields_cases listed_as_def bare_cluster_def)

text \<open>
  C32: a successful listing has one cluster for every item the API server returned, in the
  same order, under the given kubeconfig entry and context, with the item's namespace and
  name; a custom field never has an empty value. A cluster that the query yields nothing for
  is listed without fields.
\<close>

theorem list_clusters_complete:
  assumes "fst (k_list K dyn clusterGVR '''' '''' (outside s)) = Inr items"
    and "fst (run (ListClustersForContext K dyn kn ctx cf) s) = Inr clusters"
  shows "list_all2 (listed_as kn ctx) items clusters"
proof -
  let ?bare = "map (\<lambda>it. bare_cluster kn ctx (item_Namespace it) (item_Name it)) items"
  have bare: "list_all2 (listed_as kn ctx) items ?bare"
    by (auto simp: list_all2_conv_all_nth listed_as_def bare_cluster_def)
  show ?thesis
  proof (cases "items = [] \<or> cf = []")
    case True
    with assms bare show ?thesis
      by (auto simp: ListClustersForContext_def run_ebind run_wrap_err)
  next
    case False
    with assms obtain fvs where "evalCustomFields K (map item_Object items) cf = Inr fvs"
      "clusters = attach_fields ?bare fvs"
      by (auto simp: ListClustersForContext_def run_ebind run_wrap_err res_bind_eq_Inr)
    then show ?thesis
      using attach_fields_listed evalCustomFields_values by blast
  qed
qed

theorem list_clusters_complete_witness:
  "list_all2 (listed_as ''prod'' ''eu'') [\<lparr>item_Namespace = ''team'', item_Name = ''web'', item_Object = J_Null\<rparr>]
     [bare_cluster ''prod'' ''eu'' ''team'' ''web'']"
proof -
  let ?items = "[\<lparr>item_Namespace = ''team'', item_Name = ''web'', item_Object = J_Null\<rparr>]"
  let ?K = "offline_kube\<lparr>k_list := \<lambda>(_::unit) _ _ _ w. (Inr ?items, w)\<rparr> :: (unit, unit) kube"
  have "fst (k_list ?K () clusterGVR '''' '''' (outside sample_host)) = Inr ?items" by simp
  moreover have "fst (run (ListClustersForContext ?K () ''prod'' ''eu'' []) sample_host) =
      Inr [bare_cluster ''prod'' ''eu'' ''team'' ''web'']"
    by (simp add: ListClustersForContext_def run_ebind run_wrap_err)
  ultimately show ?thesis by (rule list_clusters_complete)
qed

text \<open>
  The jq query, and with it the whole evaluation, does not depend on the order in which
  Go visits the map of custom fields.
\<close>

theorem custom_fields_order_irrelevant:
  assumes "same_gomap cf cf'"
  shows "evalCustomFields K items cf = evalCustomFields K items cf'"
  by (simp add: evalCustomFields_def custom_fields_query_order [OF assms])

lemma distinct_names_filter: "distinct (map fst xs) \<Longrightarrow> distinct (map fst (filter P xs))"
  by (induction xs) auto

lemma list_all_filter_nonempty:
  "list_all (\<lambda>(k, v). A k) xs \<Longrightarrow> list_all (\<lambda>(k, v). A k \<and> v \<noteq> []) (filter (\<lambda>(k, v). v \<noteq> []) xs)"
  by (induction xs) auto

lemma map_of_filter_nonempty:
  "distinct (map fst xs) \<Longrightarrow> map_of (filter (\<lambda>(k, v). v \<noteq> []) xs) k =
     (case map_of xs k of None \<Rightarrow> None | Some v \<Rightarrow> if v = [] then None else Some v)"
  by (induction xs) (auto simp: map_of_eq_None_iff image_iff split: option.splits)

theorem custom_fields_order_irrelevant_witness:
  "evalCustomFields (offline_kube :: (unit, unit) kube) [] [(''b'', ''.x''), (''a'', ''.y'')] =
   evalCustomFields (offline_kube :: (unit, unit) kube) [] [(''a'', ''.y''), (''b'', ''.x'')]"
proof (rule custom_fields_order_irrelevant)
  show "same_gomap [(''b'', ''.x''), (''a'', ''.y'')] [(''a'', ''.y''), (''b'', ''.x'')]"
    by (auto simp: same_gomap_def gomap_ok_def)
qed

text \<open>
  The credentials that are handed to a command have no empty values, no repeated names
  and only names that start with OS_ (so they cannot redirect KUBECONFIG or PATH), and the
  authentication type of the cloud itself wins over the one in its auth section.
\<close>

theorem openstack_env_sound:
  "distinct (map fst (openstack_env c))
   \<and> list_all (\<lambda>(k, v). prefix ''OS_'' k \<and> v \<noteq> '''') (openstack_env c)
   \<and> map_of (openstack_env c) ''OS_AUTH_TYPE'' =
       (if cl_AuthType c \<noteq> '''' then Some (cl_AuthType c)
        else if auth_value c ''auth_type'' \<noteq> '''' then Some (auth_value c ''auth_type'') else None)"
proof (intro conjI)
  show "distinct (map fst (openstack_env c))"
    unfolding openstack_env_def by (rule distinct_names_filter) simp
  show "list_all (\<lambda>(k, v). prefix ''OS_'' k \<and> v \<noteq> '''') (openstack_env c)"
    unfolding openstack_env_def by (rule list_all_filter_nonempty) simp
  show "map_of (openstack_env c) ''OS_AUTH_TYPE'' =
       (if cl_AuthType c \<noteq> '''' then Some (cl_AuthType c)
        else if auth_value c ''auth_type'' \<noteq> '''' then Some (auth_value c ''auth_type'') else None)"
    unfolding openstack_env_def by (subst map_of_filter_nonempty) simp_all
qed

end
