(* ===== verification/ReadOnly.thy ===== *)
theory ReadOnly
  imports Kube
begin

text \<open>
  \<open>internal/capi/readonly.go\<close>: the read-only service account of a workload cluster and the
  kubeconfig that is minted for it.

  The API server is a parameter. \<open>lawful_rbac\<close> states the documented behaviour of the calls
  that are used (\<open>Create\<close> fails with AlreadyExists on an existing object, \<open>Update\<close>
  replaces it, a binding's roleRef is immutable) against a view of the RBAC objects it
  stores; \<open>rbac_server\<close> is a server that behaves so.
\<close>

subsection \<open>The objects\<close>

definition readOnlySAName :: string where
  "readOnlySAName = ''capi-shell-mcp-read-only''"

definition readOnlyNamespace :: string where
  "readOnlyNamespace = ''kube-system''"

definition readOnlyClusterRole :: cluster_role where
  "readOnlyClusterRole =
     \<lparr>cr_Name = readOnlySAName,
      cr_Rules =
        [\<lparr>pr_APIGroups = [''*''], pr_Resources = [''*''], pr_NonResourceURLs = [],
          pr_Verbs = [''get'', ''list'', ''watch'']\<rparr>,
         \<lparr>pr_APIGroups = [], pr_Resources = [], pr_NonResourceURLs = [''*''], pr_Verbs = [''get'']\<rparr>]\<rparr>"

definition readOnlyClusterRoleBinding :: cluster_role_binding where
  "readOnlyClusterRoleBinding =
     \<lparr>crb_Name = readOnlySAName,
      crb_RoleRef = (''rbac.authorization.k8s.io'', ''ClusterRole'', readOnlySAName),
      crb_Subjects = [(''ServiceAccount'', readOnlySAName, readOnlyNamespace)]\<rparr>"

subsection \<open>Ensuring the RBAC objects\<close>

definition IsAlreadyExists :: "goerr \<Rightarrow> bool" where
  "IsAlreadyExists e \<longleftrightarrow> api_reason_of e = Some Already_Exists"

definition isImmutableRoleRefError :: "(string \<Rightarrow> string) \<Rightarrow> goerr \<Rightarrow> bool" where
  "isImmutableRoleRefError quote e \<longleftrightarrow>
     api_reason_of e = Some Invalid_Object
     \<and> contains_str ''roleRef'' (err_text quote e) \<and> contains_str ''immutable'' (err_text quote e)"

definition ensure_service_account :: "('c, 'w) kube \<Rightarrow> 'c \<Rightarrow> (('w, 'm) host_scheme, unit res) prog" where
  "ensure_service_account K core =
     pbind (api (k_create_sa K core readOnlyNamespace readOnlySAName)) (\<lambda>r.
       Done (case r of
           Inr _ \<Rightarrow> Inr ()
         | Inl e \<Rightarrow> if IsAlreadyExists e then Inr ()
                   else Inl (Wrapf [Txt ''capi: creating read-only ServiceAccount: ''] e)))"

definition ensure_cluster_role :: "('c, 'w) kube \<Rightarrow> 'c \<Rightarrow> (('w, 'm) host_scheme, unit res) prog" where
  "ensure_cluster_role K rbac =
     pbind (api (k_create_role K rbac readOnlyClusterRole)) (\<lambda>r.
       case r of
         Inr _ \<Rightarrow> Done (Inr ())
       | Inl e \<Rightarrow>
           if \<not> IsAlreadyExists e then
             Done (Inl (Wrapf [Txt ''capi: creating read-only ClusterRole: ''] e))
           else wrap_err [Txt ''capi: replacing read-only ClusterRole: '']
                  (api (k_update_role K rbac readOnlyClusterRole)))"

definition ensure_binding :: "('c, 'w) kube \<Rightarrow> 'c \<Rightarrow> (('w, 'm) host_scheme, unit res) prog" where
  "ensure_binding K rbac =
     pbind (api (k_create_binding K rbac readOnlyClusterRoleBinding)) (\<lambda>r.
       case r of
         Inr _ \<Rightarrow> Done (Inr ())
       | Inl e \<Rightarrow>
           if \<not> IsAlreadyExists e then
             Done (Inl (Wrapf [Txt ''capi: creating read-only ClusterRoleBinding: ''] e))
           else
             pbind (api (k_update_binding K rbac readOnlyClusterRoleBinding)) (\<lambda>r.
             case r of
               Inr _ \<Rightarrow> Done (Inr ())
             | Inl e \<Rightarrow>
                 if \<not> isImmutableRoleRefError (k_quote K) e then
                   Done (Inl (Wrapf [Txt ''capi: replacing read-only ClusterRoleBinding: ''] e))
                 else
                   ebind (wrap_err [Txt ''capi: deleting read-only ClusterRoleBinding for recreate: '']
                            (api (k_delete_binding K rbac readOnlySAName))) (\<lambda>_.
                   wrap_err [Txt ''capi: recreating read-only ClusterRoleBinding: '']
                            (api (k_create_binding K rbac readOnlyClusterRoleBinding)))))"

definition EnsureReadOnlyRBAC :: "('c, 'w) kube \<Rightarrow> 'c \<Rightarrow> 'c \<Rightarrow> (('w, 'm) host_scheme, unit res) prog" where
  "EnsureReadOnlyRBAC K core rbac =
     ebind (ensure_service_account K core) (\<lambda>_.
     ebind (ensure_cluster_role K rbac) (\<lambda>_.
     ensure_binding K rbac))"

subsection \<open>The read-only kubeconfig\<close>

definition readonly_document :: "admin_cluster \<Rightarrow> string \<Rightarrow> json" where
  "readonly_document info token =
     J_Obj
       [(''apiVersion'', J_Str ''v1''),
        (''kind'', J_Str ''Config''),
        (''clusters'', J_Arr [J_Obj
           [(''name'', J_Str ''workload''),
            (''cluster'', J_Obj
               [(''server'', J_Str (ac_Server info)), (''certificate-authority-data'', J_Str (ac_CertificateAuthorityData info))])]]),
        (''contexts'', J_Arr [J_Obj
           [(''name'', J_Str ''readonly''),
            (''context'', J_Obj
               [(''cluster'', J_Str ''workload''), (''user'', J_Str readOnlySAName),
                (''namespace'', J_Str readOnlyNamespace)])]]),
        (''current-context'', J_Str ''readonly''),
        (''users'', J_Arr [J_Obj
           [(''name'', J_Str readOnlySAName), (''user'', J_Obj [(''token'', J_Str token)])]])]"

definition CreateReadOnlyKubeconfig ::
    "('c, 'w) kube \<Rightarrow> 'c \<Rightarrow> 'c \<Rightarrow> string \<Rightarrow> int64 \<Rightarrow> (('w, 'm) host_scheme, string res) prog" where
  "CreateReadOnlyKubeconfig K core rbac adminKcYAML durationSeconds =
     (case wrap_res [Txt ''capi: parsing admin kubeconfig: ''] (k_yaml_admin_clusters K adminKcYAML) of
        Inl e \<Rightarrow> Done (Inl e)
      | Inr [] \<Rightarrow> Done (Inl (Errorf [Txt ''createReadOnlyKubeconfig: no cluster found in admin kubeconfig'']))
      | Inr (clusterInfo # _) \<Rightarrow>
          ebind (EnsureReadOnlyRBAC K core rbac) (\<lambda>_.
          ebind (wrap_err [Txt ''capi: requesting read-only token: '']
                   (api (k_create_token K core readOnlyNamespace readOnlySAName durationSeconds))) (\<lambda>tok.
          let token = trim_space tok in
          if token = '''' then
            Done (Inl (Errorf [Txt ''createReadOnlyKubeconfig: token request returned no token'']))
          else Done (wrap_res [Txt ''capi: rendering read-only kubeconfig: '']
                       (k_yaml_encode K (readonly_document clusterInfo token))))))"

subsection \<open>What the API server promises\<close>

record rbac_view =
  v_account :: bool
  v_role :: "cluster_role option"
  v_binding :: "cluster_role_binding option"

text \<open>
  \<open>V\<close> reads the three objects this program manages from the state of the world. A create
  succeeds on an absent object and fails with AlreadyExists, changing nothing, on a present
  one. A replacement (or a deletion) of a present object succeeds. The update of a binding
  may also be refused, when it would change the roleRef, with the API server's error for
  that: Invalid, with both words in its message.
\<close>

definition create_law ::
    "('w \<Rightarrow> rbac_view) \<Rightarrow> ('w \<Rightarrow> unit res \<times> 'w) \<Rightarrow> (rbac_view \<Rightarrow> bool) \<Rightarrow> (rbac_view \<Rightarrow> rbac_view) \<Rightarrow> bool" where
  "create_law V f present stored \<longleftrightarrow>
     (\<forall>w r w'. f w = (r, w') \<longrightarrow>
        (case r of
           Inr _ \<Rightarrow> \<not> present (V w) \<and> V w' = stored (V w)
         | Inl e \<Rightarrow> IsAlreadyExists e \<and> present (V w) \<and> V w' = V w))"

definition replace_law ::
    "('w \<Rightarrow> rbac_view) \<Rightarrow> ('w \<Rightarrow> unit res \<times> 'w) \<Rightarrow> (rbac_view \<Rightarrow> bool) \<Rightarrow> (rbac_view \<Rightarrow> rbac_view) \<Rightarrow> bool" where
  "replace_law V f present stored \<longleftrightarrow>
     (\<forall>w r w'. f w = (r, w') \<longrightarrow>
        (case r of Inr _ \<Rightarrow> V w' = stored (V w) | Inl e \<Rightarrow> \<not> present (V w)))"

definition rebind_law ::
    "(string \<Rightarrow> string) \<Rightarrow> ('w \<Rightarrow> rbac_view) \<Rightarrow> (cluster_role_binding \<Rightarrow> 'w \<Rightarrow> unit res \<times> 'w) \<Rightarrow> bool" where
  "rebind_law quote V f \<longleftrightarrow>
     (\<forall>x w r w'. f x w = (r, w') \<longrightarrow>
        (case r of
           Inr _ \<Rightarrow> V w' = (V w)\<lparr>v_binding := Some x\<rparr>
         | Inl e \<Rightarrow> V w' = V w \<and>
             (case v_binding (V w) of None \<Rightarrow> True
              | Some old \<Rightarrow> crb_RoleRef old \<noteq> crb_RoleRef x \<and> isImmutableRoleRefError quote e)))"

definition lawful_rbac ::
    "('c, 'w) kube \<Rightarrow> 'c \<Rightarrow> 'c \<Rightarrow> ('w \<Rightarrow> rbac_view) \<Rightarrow> bool" where
  "lawful_rbac K core rbac V \<longleftrightarrow>
     create_law V (k_create_sa K core readOnlyNamespace readOnlySAName) v_account (v_account_update (\<lambda>_. True))
   \<and> (\<forall>x. create_law V (k_create_role K rbac x) (\<lambda>v. v_role v \<noteq> None) (v_role_update (\<lambda>_. Some x)))
   \<and> (\<forall>x. replace_law V (k_update_role K rbac x) (\<lambda>v. v_role v \<noteq> None) (v_role_update (\<lambda>_. Some x)))
   \<and> (\<forall>x. create_law V (k_create_binding K rbac x) (\<lambda>v. v_binding v \<noteq> None) (v_binding_update (\<lambda>_. Some x)))
   \<and> rebind_law (k_quote K) V (k_update_binding K rbac)
   \<and> replace_law V (k_delete_binding K rbac readOnlySAName) (\<lambda>v. v_binding v \<noteq> None)
       (v_binding_update (\<lambda>_. None))"

lemma create_lawD:
  assumes "create_law V f present stored" "f w = (r, w')"
  shows "case r of
      Inr _ \<Rightarrow> \<not> present (V w) \<and> V w' = stored (V w)
    | Inl e \<Rightarrow> IsAlreadyExists e \<and> present (V w) \<and> V w' = V w"
  using assms unfolding create_law_def by blast

lemma replace_lawD:
  assumes "replace_law V f present stored" "f w = (r, w')"
  shows "case r of Inr _ \<Rightarrow> V w' = stored (V w) | Inl e \<Rightarrow> \<not> present (V w)"
  using assms unfolding replace_law_def by blast

lemma rebind_lawD:
  assumes "rebind_law q V f" "f x w = (r, w')"
  shows "case r of
      Inr _ \<Rightarrow> V w' = (V w)\<lparr>v_binding := Some x\<rparr>
    | Inl e \<Rightarrow> V w' = V w \<and> (v_binding (V w) \<noteq> None \<longrightarrow> isImmutableRoleRefError q e)"
proof -
  have "case r of
           Inr _ \<Rightarrow> V w' = (V w)\<lparr>v_binding := Some x\<rparr>
         | Inl e \<Rightarrow> V w' = V w \<and>
             (case v_binding (V w) of None \<Rightarrow> True
              | Some old \<Rightarrow> crb_RoleRef old \<noteq> crb_RoleRef x \<and> isImmutableRoleRefError q e)"
    using assms unfolding rebind_law_def by blast
  then show ?thesis by (auto split: sum.splits option.splits)
qed

lemma lawful_rbacD:
  assumes "lawful_rbac K core rbac V"
  shows "create_law V (k_create_sa K core readOnlyNamespace readOnlySAName) v_account (v_account_update (\<lambda>_. True))"
    and "create_law V (k_create_role K rbac x) (\<lambda>v. v_role v \<noteq> None) (v_role_update (\<lambda>_. Some x))"
    and "replace_law V (k_update_role K rbac x) (\<lambda>v. v_role v \<noteq> None) (v_role_update (\<lambda>_. Some x))"
    and "create_law V (k_create_binding K rbac y) (\<lambda>v. v_binding v \<noteq> None) (v_binding_update (\<lambda>_. Some y))"
    and "rebind_law (k_quote K) V (k_update_binding K rbac)"
    and "replace_law V (k_delete_binding K rbac readOnlySAName) (\<lambda>v. v_binding v \<noteq> None)
       (v_binding_update (\<lambda>_. None))"
  using assms unfolding lawful_rbac_def by blast+

lemma ensure_service_account_lawful:
  assumes "lawful_rbac K core rbac V" "run (ensure_service_account K core) s = (r, s')"
  shows "r = Inr () \<and> V (outside s') = (V (outside s))\<lparr>v_account := True\<rparr>"
proof (cases "k_create_sa K core readOnlyNamespace readOnlySAName (outside s)")
  case (Pair r0 w')
  with create_lawD [OF lawful_rbacD(1) [OF assms(1)] Pair] assms(2) show ?thesis
    by (auto simp: ensure_service_account_def run_pbind split: sum.splits)
qed

lemma ensure_cluster_role_lawful:
  assumes "lawful_rbac K core rbac V" "run (ensure_cluster_role K rbac) s = (r, s')"
  shows "r = Inr () \<and> V (outside s') = (V (outside s))\<lparr>v_role := Some readOnlyClusterRole\<rparr>"
proof (cases "k_create_role K rbac readOnlyClusterRole (outside s)")
  case (Pair r0 w0)
  note create = create_lawD [OF lawful_rbacD(2) [OF assms(1)] Pair]
  obtain r1 w1 where upd: "k_update_role K rbac readOnlyClusterRole w0 = (r1, w1)"
    by (cases "k_update_role K rbac readOnlyClusterRole w0")
  show ?thesis
    using create replace_lawD [OF lawful_rbacD(3) [OF assms(1)] upd] assms(2) Pair upd
    by (auto simp: ensure_cluster_role_def run_pbind run_wrap_err split: sum.splits)
qed

lemma ensure_binding_lawful:
  assumes "lawful_rbac K core rbac V" "run (ensure_binding K rbac) s = (r, s')"
  shows "r = Inr () \<and> V (outside s') = (V (outside s))\<lparr>v_binding := Some readOnlyClusterRoleBinding\<rparr>"
proof (cases "k_create_binding K rbac readOnlyClusterRoleBinding (outside s)")
  case (Pair r0 w0)
  note create = create_lawD [OF lawful_rbacD(4) [OF assms(1)] Pair]
  obtain r1 w1 where upd: "k_update_binding K rbac readOnlyClusterRoleBinding w0 = (r1, w1)"
    by (cases "k_update_binding K rbac readOnlyClusterRoleBinding w0")
  obtain r2 w2 where del: "k_delete_binding K rbac readOnlySAName w1 = (r2, w2)"
    by (cases "k_delete_binding K rbac readOnlySAName w1")
  obtain r3 w3 where again: "k_create_binding K rbac readOnlyClusterRoleBinding w2 = (r3, w3)"
    by (cases "k_create_binding K rbac readOnlyClusterRoleBinding w2")
  show ?thesis
    using create rebind_lawD [OF lawful_rbacD(5) [OF assms(1)] upd] replace_lawD [OF lawful_rbacD(6) [OF assms(1)] del]
      create_lawD [OF lawful_rbacD(4) [OF assms(1)] again] assms(2) Pair upd del again
    by (auto simp: ensure_binding_def run_pbind run_ebind run_wrap_err split: sum.splits)
qed

text \<open>
  C17: whatever RBAC objects a cluster starts with, on a server that behaves as documented
  the call succeeds and leaves exactly the read-only account, role and binding in place, also
  when an existing binding has to be deleted because its immutable roleRef differs.
\<close>

theorem ensure_rbac_converges:
  assumes "lawful_rbac K core rbac V"
  shows "fst (run (EnsureReadOnlyRBAC K core rbac) s) = Inr ()
    \<and> V (outside (snd (run (EnsureReadOnlyRBAC K core rbac) s))) =
        (V (outside s))\<lparr>v_account := True, v_role := Some readOnlyClusterRole,
           v_binding := Some readOnlyClusterRoleBinding\<rparr>"
proof -
  obtain r1 s1 where sa: "run (ensure_service_account K core) s = (r1, s1)"
    by (cases "run (ensure_service_account K core) s")
  obtain r2 s2 where role: "run (ensure_cluster_role K rbac) s1 = (r2, s2)"
    by (cases "run (ensure_cluster_role K rbac) s1")
  obtain r3 s3 where bind: "run (ensure_binding K rbac) s2 = (r3, s3)"
    by (cases "run (ensure_binding K rbac) s2")
  show ?thesis
    using ensure_service_account_lawful [OF assms sa] ensure_cluster_role_lawful [OF assms role]
      ensure_binding_lawful [OF assms bind] sa role bind
    by (simp add: EnsureReadOnlyRBAC_def run_ebind)
qed

definition exists_error :: goerr where
  "exists_error = Api_Error Already_Exists ''already exists''"

definition rbac_server :: "(unit, rbac_view) kube" where
  "rbac_server = offline_kube\<lparr>
     k_create_sa := (\<lambda>_ _ _ w. if v_account w then (Inl exists_error, w) else (Inr (), w\<lparr>v_account := True\<rparr>)),
     k_create_role := (\<lambda>_ x w. if v_role w \<noteq> None then (Inl exists_error, w) else (Inr (), w\<lparr>v_role := Some x\<rparr>)),
     k_update_role := (\<lambda>_ x w. if v_role w = None then (Inl refused, w) else (Inr (), w\<lparr>v_role := Some x\<rparr>)),
     k_create_binding := (\<lambda>_ x w. if v_binding w \<noteq> None then (Inl exists_error, w)
                            else (Inr (), w\<lparr>v_binding := Some x\<rparr>)),
     k_update_binding := (\<lambda>_ x w. case v_binding w of None \<Rightarrow> (Inl refused, w)
         | Some old \<Rightarrow> if crb_RoleRef old \<noteq> crb_RoleRef x
             then (Inl (Api_Error Invalid_Object ''roleRef: Invalid value: cannot change, field is immutable''), w)
             else (Inr (), w\<lparr>v_binding := Some x\<rparr>)),
     k_delete_binding := (\<lambda>_ _ w. if v_binding w = None then (Inl refused, w) else (Inr (), w\<lparr>v_binding := None\<rparr>))\<rparr>"

lemma rbac_server_lawful: "lawful_rbac rbac_server () () (\<lambda>w. w)"
proof -
  have "isImmutableRoleRefError q (Api_Error Invalid_Object ''roleRef: Invalid value: cannot change, field is immutable'')"
    for q
    by (simp add: isImmutableRoleRefError_def)
  then show ?thesis
    by (auto simp: lawful_rbac_def create_law_def replace_law_def rebind_law_def rbac_server_def exists_error_def IsAlreadyExists_def split: option.splits if_splits)
qed

theorem ensure_rbac_converges_witness:
  "v_binding (outside (snd (run (EnsureReadOnlyRBAC rbac_server () ())
     \<lparr>files = Map.empty, outside = \<lparr>v_account = True, v_role = None,
        v_binding = Some (readOnlyClusterRoleBinding\<lparr>crb_RoleRef := ('''', ''ClusterRole'', ''cluster-admin'')\<rparr>)\<rparr>\<rparr>)))
   = Some readOnlyClusterRoleBinding"
  using ensure_rbac_converges [OF rbac_server_lawful,
      of "\<lparr>files = Map.empty, outside = \<lparr>v_account = True, v_role = None,
        v_binding = Some (readOnlyClusterRoleBinding\<lparr>crb_RoleRef := ('''', ''ClusterRole'', ''cluster-admin'')\<rparr>)\<rparr>\<rparr>"]
  by simp

text \<open>
  C18: a read-only kubeconfig is built from three things only: the server and certificate of
  the first cluster of the admin kubeconfig, and a token that was requested in this very call,
  for the read-only account and the given lifetime, after the RBAC objects were ensured. No
  credential of the admin kubeconfig can reach it.
\<close>

theorem readonly_kubeconfig_provenance:
  assumes "fst (run (CreateReadOnlyKubeconfig K core rbac adminKC secs) s) = Inr kc"
  shows "\<exists>info rest s1 tok.
      k_yaml_admin_clusters K adminKC = Inr (info # rest)
    \<and> run (EnsureReadOnlyRBAC K core rbac) s = (Inr (), s1)
    \<and> fst (k_create_token K core readOnlyNamespace readOnlySAName secs (outside s1)) = Inr tok
    \<and> trim_space tok \<noteq> ''''
    \<and> k_yaml_encode K (readonly_document info (trim_space tok)) = Inr kc"
proof (cases "k_yaml_admin_clusters K adminKC")
  case (Inl e)
  with assms show ?thesis by (simp add: CreateReadOnlyKubeconfig_def)
next
  case (Inr cs)
  with assms obtain info rest where cs: "cs = info # rest"
    by (cases cs) (auto simp: CreateReadOnlyKubeconfig_def)
  obtain r1 s1 where ens: "run (EnsureReadOnlyRBAC K core rbac) s = (r1, s1)"
    by (cases "run (EnsureReadOnlyRBAC K core rbac) s")
  let ?tok = "fst (k_create_token K core readOnlyNamespace readOnlySAName secs (outside s1))"
  from assms Inr cs ens obtain tok where "r1 = Inr ()" "?tok = Inr tok" "trim_space tok \<noteq> ''''"
    "k_yaml_encode K (readonly_document info (trim_space tok)) = Inr kc"
    by (cases r1; cases ?tok)
       (auto simp: CreateReadOnlyKubeconfig_def run_ebind run_wrap_err Let_def split: if_splits)
  with Inr cs ens show ?thesis by simp
qed

definition sample_admin_cluster :: admin_cluster where
  "sample_admin_cluster = \<lparr>ac_Server = ''https://10.0.0.1:6443'', ac_CertificateAuthorityData = ''Q0E=''\<rparr>"

definition granting_server :: "(unit, rbac_view) kube" where
  "granting_server = rbac_server\<lparr>k_yaml_admin_clusters := \<lambda>_. Inr [sample_admin_cluster],
     k_create_token := \<lambda>_ _ _ _ w. (Inr ''tok'', w), k_yaml_encode := \<lambda>_. Inr ''doc''\<rparr>"

theorem readonly_kubeconfig_provenance_witness:
  "\<exists>info rest s1 tok. k_yaml_admin_clusters granting_server ''admin'' = Inr (info # rest)
    \<and> run (EnsureReadOnlyRBAC granting_server () ()) \<lparr>files = Map.empty, outside = \<lparr>v_account = False, v_role = None, v_binding = None\<rparr>\<rparr> = (Inr (), s1)
    \<and> fst (k_create_token granting_server () readOnlyNamespace readOnlySAName 3600 (outside s1)) = Inr tok
    \<and> trim_space tok \<noteq> '''' \<and> k_yaml_encode granting_server (readonly_document info (trim_space tok)) = Inr ''doc''"
proof -
  let ?s = "\<lparr>files = Map.empty, outside = \<lparr>v_account = False, v_role = None, v_binding = None\<rparr>\<rparr>"
  have "trim_space ''tok'' = ''tok''"
    by (rule trim_space_graphic) (simp add: graphic_def)
  then have "fst (run (CreateReadOnlyKubeconfig granting_server () () ''admin'' 3600) ?s) = Inr ''doc''"
    by (simp add: CreateReadOnlyKubeconfig_def EnsureReadOnlyRBAC_def ensure_service_account_def granting_server_def
        ensure_cluster_role_def ensure_binding_def rbac_server_def run_ebind run_pbind run_wrap_err)
  from readonly_kubeconfig_provenance [OF this] show ?thesis .
qed

end
