(* ===== verification/Proxy.thy ===== *)
theory Proxy
  imports Kube Store "HOL-Library.AList"
begin

text \<open>
  \<open>internal/proxy/manager.go\<close> and \<open>clock.go\<close>: sshuttle tunnels to API servers.

  \<open>daemon\<close> extends the state of the machine with what the daemon keeps in memory for its
  tunnels: the clock, the table \<open>processEntries\<close>, the entries it points to (the code
  shares them by pointer), the armed timers (deadline and key of their callback), and the
  processes that were sent SIGTERM. References of entries and timers are fresh numbers.

  Each \<open>Lock .. Unlock\<close> section is one step, and so is every access to a shared field
  and every operation of the clock outside of one. Timer callbacks and the goroutine that
  waits for the exit of a process are programs of their own, to be run beside the calls.
\<close>

subsection \<open>State\<close>

record proc_entry =
  pe_process :: nat
  pe_timer :: nat

record 'w daemon = "'w host" +
  now :: int
  processEntries :: "nat gomap"
  entry_at :: "nat \<Rightarrow> proc_entry"
  armed :: "nat \<rightharpoonup> int \<times> string"
  next_ref :: nat
  terminated :: "nat list"

text \<open>
  What the manager is built with, and the code it calls: the execer; the spawner (a process
  number, or an error); the wait for an early exit (the inner option is what
  \<open>cmd.ProcessState\<close> says); whether the daemon runs under systemd; and
  \<open>singleflight.Group.Do\<close>, which lets a call join another one that is under way for the
  same key and hands it that call's result.
\<close>

record ('w, 's) tunnel_deps =
  px_exec :: "string \<Rightarrow> string list \<Rightarrow> exec_options \<Rightarrow> 'w host \<Rightarrow> exec_output res \<times> 'w host"
  px_spawn :: "string \<Rightarrow> string \<Rightarrow> string \<Rightarrow> 'w host \<Rightarrow> nat res \<times> 'w host"
  px_await :: "nat \<Rightarrow> 'w host \<Rightarrow> int option option \<times> 'w host"
  px_under_systemd :: bool
  px_shared :: "string \<Rightarrow> 's \<Rightarrow> unit res option"

text \<open>The outside acts on the machine only, never on the daemon's memory.\<close>

definition machine :: "('w, 'm) host_scheme \<Rightarrow> 'w host" where
  "machine s = \<lparr>files = files s, outside = outside s\<rparr>"

definition on_host :: "('w host \<Rightarrow> 'a \<times> 'w host) \<Rightarrow> ('w, 'm) host_scheme \<Rightarrow> 'a \<times> ('w, 'm) host_scheme" where
  "on_host f s = (case f (machine s) of (a, h) \<Rightarrow> (a, s\<lparr>files := files h, outside := outside h\<rparr>))"

lemma machine_put [simp]:
  "machine (s\<lparr>files := files h, outside := outside h\<rparr>) = (h :: 'w host)"
  "machine (h :: 'w host) = h"
  by (simp_all add: machine_def)

lemma fst_on_host [simp]: "fst (on_host f s) = fst (f (machine s))"
  by (simp add: on_host_def split: prod.split)

subsection \<open>Names\<close>

definition unitPrefix :: string where
  "unitPrefix = ''capi-shell-api-endpoint-proxy-sshuttle-''"

definition unitSuffix :: string where
  "unitSuffix = ''.service''"

definition startupWindow :: duration where
  "startupWindow = 1000000000"

definition targetKey :: "string \<Rightarrow> string \<Rightarrow> string" where
  "targetKey apiServerIP apiServerPort = apiServerIP @ '':'' @ apiServerPort"

definition unitName :: "string \<Rightarrow> string \<Rightarrow> string" where
  "unitName apiServerIP apiServerPort = unitPrefix @ apiServerIP @ '':'' @ apiServerPort @ unitSuffix"

definition DefaultSpawnProcess ::
    "(string \<Rightarrow> string list \<Rightarrow> 'w host \<Rightarrow> nat res \<times> 'w host)
     \<Rightarrow> string \<Rightarrow> string \<Rightarrow> string \<Rightarrow> 'w host \<Rightarrow> nat res \<times> 'w host" where
  "DefaultSpawnProcess start_cmd sshuttleHost apiServerIP apiServerPort =
     start_cmd ''sshuttle'' [''-r'', sshuttleHost, apiServerIP @ '':'' @ apiServerPort]"

definition IsUnderSystemd :: "string list \<Rightarrow> bool" where
  "IsUnderSystemd environ \<longleftrightarrow> list_ex (prefix ''INVOCATION_ID='') environ"

subsection \<open>Clock and table\<close>

text \<open>\<open>time.AfterFunc\<close>, \<open>Timer.Stop\<close>; a non-positive delay is due at once.\<close>

definition AfterFunc :: "duration \<Rightarrow> string \<Rightarrow> ('w, 'm) daemon_scheme \<Rightarrow> nat \<times> ('w, 'm) daemon_scheme" where
  "AfterFunc d key s =
     (next_ref s, s\<lparr>armed := (armed s)(next_ref s \<mapsto> (now s + max 0 (sint d), key)), next_ref := Suc (next_ref s)\<rparr>)"

definition Stop :: "nat \<Rightarrow> ('w, 'm) daemon_scheme \<Rightarrow> unit \<times> ('w, 'm) daemon_scheme" where
  "Stop timer s = ((), s\<lparr>armed := (armed s)(timer := None)\<rparr>)"

definition lookup_entry :: "string \<Rightarrow> ('w, 'm) daemon_scheme \<Rightarrow> nat option \<times> ('w, 'm) daemon_scheme" where
  "lookup_entry key s = (map_of (processEntries s) key, s)"

definition load_timer :: "nat \<Rightarrow> ('w, 'm) daemon_scheme \<Rightarrow> nat \<times> ('w, 'm) daemon_scheme" where
  "load_timer a s = (pe_timer (entry_at s a), s)"

definition store_timer :: "nat \<Rightarrow> nat \<Rightarrow> ('w, 'm) daemon_scheme \<Rightarrow> unit \<times> ('w, 'm) daemon_scheme" where
  "store_timer a timer s = ((), s\<lparr>entry_at := (entry_at s)(a := (entry_at s a)\<lparr>pe_timer := timer\<rparr>)\<rparr>)"

definition add_entry :: "string \<Rightarrow> nat \<Rightarrow> nat \<Rightarrow> ('w, 'm) daemon_scheme \<Rightarrow> nat \<times> ('w, 'm) daemon_scheme" where
  "add_entry key pid timer s =
     (next_ref s,
      s\<lparr>entry_at := (entry_at s)(next_ref s := \<lparr>pe_process = pid, pe_timer = timer\<rparr>),
        processEntries := AList.update key (next_ref s) (processEntries s),
        next_ref := Suc (next_ref s)\<rparr>)"

definition take_entry :: "string \<Rightarrow> ('w, 'm) daemon_scheme \<Rightarrow> nat option \<times> ('w, 'm) daemon_scheme" where
  "take_entry key s =
     (map_of (processEntries s) key, s\<lparr>processEntries := AList.delete key (processEntries s)\<rparr>)"

definition signal_entry :: "nat \<Rightarrow> ('w, 'm) daemon_scheme \<Rightarrow> unit \<times> ('w, 'm) daemon_scheme" where
  "signal_entry a s = ((), s\<lparr>terminated := terminated s @ [pe_process (entry_at s a)]\<rparr>)"

subsection \<open>Directly spawned tunnels\<close>

definition killProcessEntry :: "string \<Rightarrow> (('w, 'm) daemon_scheme, unit) prog" where
  "killProcessEntry key =
     pbind (call (take_entry key)) (\<lambda>found.
     case found of
       None \<Rightarrow> Done ()
     | Some e \<Rightarrow>
         pbind (call (load_timer e)) (\<lambda>timer.
         pbind (call (Stop timer)) (\<lambda>_.
         call (signal_entry e))))"

definition await_startup ::
    "('w, 's) tunnel_deps \<Rightarrow> nat \<Rightarrow> int \<Rightarrow> ('w, 'm) daemon_scheme \<Rightarrow> int option option \<times> ('w, 'm) daemon_scheme" where
  "await_startup px pid started s =
     (case on_host (px_await px pid) s of
        (Some st, s') \<Rightarrow> (Some st, s')
      | (None, s') \<Rightarrow> (None, s'\<lparr>now := max (now s') (started + sint startupWindow)\<rparr>))"

definition ensureProcessProxy ::
    "('w, 's) tunnel_deps \<Rightarrow> string \<Rightarrow> string \<Rightarrow> string \<Rightarrow> string \<Rightarrow> duration
     \<Rightarrow> (('w, 'm) daemon_scheme, unit res) prog" where
  "ensureProcessProxy px key apiServerIP apiServerPort sshuttleHost d =
     pbind (call (lookup_entry key)) (\<lambda>existing.
     case existing of
       Some e \<Rightarrow>
         pbind (call (load_timer e)) (\<lambda>old.
         pbind (call (Stop old)) (\<lambda>_.
         pbind (call (AfterFunc d key)) (\<lambda>timer.
         pbind (call (store_timer e timer)) (\<lambda>_.
         Done (Inr ())))))
     | None \<Rightarrow>
         ebind (wrap_err [Txt ''proxy: spawning sshuttle: '']
                  (call (on_host (px_spawn px sshuttleHost apiServerIP apiServerPort)))) (\<lambda>pid.
         pbind (call (\<lambda>s. (now s, s))) (\<lambda>started.
         pbind (call (await_startup px pid started)) (\<lambda>exited.
         case exited of
           Some st \<Rightarrow>
             Done (Inl (Errorf [Txt ''sshuttle exited early with code '',
               Txt (itoa (case st of None \<Rightarrow> - 1 | Some code \<Rightarrow> code))]))
         | None \<Rightarrow>
             pbind (call (AfterFunc d key)) (\<lambda>timer.
             pbind (call (add_entry key pid timer)) (\<lambda>_.
             Done (Inr ())))))))"

text \<open>The callback of an armed timer, and the goroutine that waits for the tunnel's exit.\<close>

definition timer_due :: "nat \<Rightarrow> ('w, 'm) daemon_scheme \<Rightarrow> string option \<times> ('w, 'm) daemon_scheme" where
  "timer_due timer s =
     (case armed s timer of
        Some (deadline, key) \<Rightarrow>
          if deadline \<le> now s then (Some key, s\<lparr>armed := (armed s)(timer := None)\<rparr>) else (None, s)
      | None \<Rightarrow> (None, s))"

definition timer_callback :: "nat \<Rightarrow> (('w, 'm) daemon_scheme, unit) prog" where
  "timer_callback timer =
     pbind (call (timer_due timer)) (\<lambda>due. case due of None \<Rightarrow> Done () | Some key \<Rightarrow> killProcessEntry key)"

definition drop_exited :: "string \<Rightarrow> nat \<Rightarrow> ('w, 'm) daemon_scheme \<Rightarrow> unit \<times> ('w, 'm) daemon_scheme" where
  "drop_exited key e s =
     ((), if map_of (processEntries s) key = Some e
          then s\<lparr>armed := (armed s)(pe_timer (entry_at s e) := None),
                 processEntries := AList.delete key (processEntries s)\<rparr>
          else s)"

definition KillAllProcessProxies :: "(('w, 'm) daemon_scheme, unit) prog" where
  "KillAllProcessProxies =
     pbind (call (\<lambda>s. (map fst (processEntries s), s))) (\<lambda>keys.
     pbind (pseq (map killProcessEntry keys)) (\<lambda>_. Done ()))"

subsection \<open>Tunnels as systemd units\<close>

definition isUnitActive :: "('w, 's) tunnel_deps \<Rightarrow> string \<Rightarrow> (('w, 'm) host_scheme, bool) prog" where
  "isUnitActive px name =
     pbind (call (on_host (px_exec px ''systemctl'' [''--user'', ''is-active'', name] no_options))) (\<lambda>r.
     Done (case r of Inl e \<Rightarrow> False | Inr out \<Rightarrow> trim_space (Stdout out) = ''active''))"

definition ensureSystemdProxy ::
    "('w, 's) tunnel_deps \<Rightarrow> string \<Rightarrow> string \<Rightarrow> string \<Rightarrow> duration \<Rightarrow> (('w, 'm) host_scheme, unit res) prog" where
  "ensureSystemdProxy px apiServerIP apiServerPort sshuttleHost d =
     (let name = unitName apiServerIP apiServerPort;
          ttlSeconds = itoa (sint (duration_seconds d)) in
      pbind (isUnitActive px name) (\<lambda>active.
      if active then
        ebind (wrap_err [Txt ''proxy: extending '', Txt name, Txt '': '']
                 (call (on_host (px_exec px ''systemctl''
                    [''--user'', ''set-property'', name, ''RuntimeMaxSec='' @ ttlSeconds] no_options))))
          (\<lambda>_. Done (Inr ()))
      else
        ebind (wrap_err [Txt ''proxy: starting systemd-run tunnel: '']
                 (call (on_host (px_exec px ''systemd-run''
                    [''--user'', ''--unit='' @ name, ''--property=RuntimeMaxSec='' @ ttlSeconds,
                     ''--property=Restart=on-failure'', ''--property=RestartSec=2'',
                     ''--property=StartLimitIntervalSec=60'', ''--property=StartLimitBurst=3'',
                     ''--collect'', ''--slice=capi-shell-api-endpoint-proxy.slice'', ''--'',
                     ''sshuttle'', ''-r'', sshuttleHost, apiServerIP @ '':'' @ apiServerPort] no_options))))
          (\<lambda>_. Done (Inr ()))))"

subsection \<open>EnsureProxy\<close>

definition singleflight_Do ::
    "('w, 's) tunnel_deps \<Rightarrow> string \<Rightarrow> ('s, unit res) prog \<Rightarrow> ('s, unit res) prog" where
  "singleflight_Do px key p =
     pbind (call (\<lambda>s. (px_shared px key s, s))) (\<lambda>joined.
     case joined of None \<Rightarrow> p | Some r \<Rightarrow> Done r)"

definition EnsureProxy ::
    "('w, ('w, 'm) daemon_scheme) tunnel_deps \<Rightarrow> string \<Rightarrow> string \<Rightarrow> string \<Rightarrow> duration
     \<Rightarrow> (('w, 'm) daemon_scheme, unit res) prog" where
  "EnsureProxy px apiServerIP apiServerPort sshuttleHost d =
     (let key = targetKey apiServerIP apiServerPort in
      singleflight_Do px key
        (if px_under_systemd px then ensureSystemdProxy px apiServerIP apiServerPort sshuttleHost d
         else ensureProcessProxy px key apiServerIP apiServerPort sshuttleHost d))"

subsection \<open>Leases\<close>

text \<open>
  What the manager promises about directly spawned tunnels: a table of leases, from keys to
  the instants at which the tunnels are killed. In a good state each tracked tunnel has one
  armed timer, its own, and no other timer is armed.
\<close>

definition tunnels_ok :: "('w, 'm) daemon_scheme \<Rightarrow> bool" where
  "tunnels_ok s \<longleftrightarrow>
     gomap_ok (processEntries s)
   \<and> (\<forall>t. armed s t \<noteq> None \<longrightarrow> t < next_ref s)
   \<and> (\<forall>key e. map_of (processEntries s) key = Some e \<longrightarrow>
        e < next_ref s \<and> (\<exists>deadline. armed s (pe_timer (entry_at s e)) = Some (deadline, key)))
   \<and> (\<forall>t deadline key. armed s t = Some (deadline, key) \<longrightarrow>
        (\<exists>e. map_of (processEntries s) key = Some e \<and> pe_timer (entry_at s e) = t))"

definition lease :: "('w, 'm) daemon_scheme \<Rightarrow> string \<Rightarrow> int option" where
  "lease s key =
     (case map_of (processEntries s) key of
        None \<Rightarrow> None
      | Some e \<Rightarrow> map_option fst (armed s (pe_timer (entry_at s e))))"

lemma tunnels_okD:
  assumes "tunnels_ok s"
  shows "gomap_ok (processEntries s)"
    and "armed s t \<noteq> None \<Longrightarrow> t < next_ref s"
    and "map_of (processEntries s) key = Some e \<Longrightarrow> e < next_ref s"
    and "map_of (processEntries s) key = Some e \<Longrightarrow> \<exists>deadline. armed s (pe_timer (entry_at s e)) = Some (deadline, key)"
    and "armed s t = Some (deadline, key) \<Longrightarrow>
      \<exists>e. map_of (processEntries s) key = Some e \<and> pe_timer (entry_at s e) = t"
  using assms unfolding tunnels_ok_def by blast+

lemma tracked_inj:
  assumes "tunnels_ok s" "map_of (processEntries s) k = Some e" "map_of (processEntries s) k' = Some e'"
    and "pe_timer (entry_at s e) = pe_timer (entry_at s e')"
  shows "k = k'"
  using tunnels_okD(4) [OF assms(1,2)] tunnels_okD(4) [OF assms(1,3)] assms(4) by auto

lemma gomap_ok_update: "gomap_ok m \<Longrightarrow> gomap_ok (AList.update k v m)"
  by (simp add: gomap_ok_def distinct_update)

lemma gomap_ok_delete: "gomap_ok m \<Longrightarrow> gomap_ok (AList.delete k m)"
  by (simp add: gomap_ok_def distinct_delete)

lemmas table_simps =
  update_conv' delete_conv' gomap_ok_update gomap_ok_delete

text \<open>Removing an entry together with its timer; arming a new timer for an entry.\<close>

lemma remove_tunnel_ok:
  assumes "tunnels_ok s" "map_of (processEntries s) key = Some e"
    and "processEntries s' = AList.delete key (processEntries s)"
    and "armed s' = (armed s)(pe_timer (entry_at s e) := None)"
    and "entry_at s' = entry_at s" "next_ref s' = next_ref s"
  shows "tunnels_ok s' \<and> lease s' = (lease s)(key := None)"
proof
  note D = tunnels_okD [OF assms(1)]
  have others: "pe_timer (entry_at s e') \<noteq> pe_timer (entry_at s e)"
    if "map_of (processEntries s) k = Some e'" "k \<noteq> key" for k e'
    using tracked_inj [OF assms(1) that(1) assms(2)] that(2) by auto
  show "tunnels_ok s'"
    unfolding tunnels_ok_def assms(3-6)
    using D(1,2,3,4) others D(5) assms(2) by (auto simp: table_simps) force
  show "lease s' = (lease s)(key := None)"
    using others by (auto simp: lease_def assms(3-6) table_simps split: option.splits)
qed

lemma tunnels_ok_outside [simp]:
  "tunnels_ok (s\<lparr>files := f, outside := w\<rparr>) = tunnels_ok s"
  "tunnels_ok (s\<lparr>now := t\<rparr>) = tunnels_ok s"
  "tunnels_ok (s\<lparr>terminated := ps\<rparr>) = tunnels_ok s"
  by (simp_all add: tunnels_ok_def)

lemma lease_outside [simp]:
  "lease (s\<lparr>files := f, outside := w\<rparr>) = lease s"
  "lease (s\<lparr>now := t\<rparr>) = lease s"
  "lease (s\<lparr>terminated := ps\<rparr>) = lease s"
  by (simp_all add: lease_def fun_eq_iff split: option.split)

lemma on_host_outside: "on_host f s = (a, s') \<Longrightarrow> \<exists>fs w. s' = s\<lparr>files := fs, outside := w\<rparr>"
  by (auto simp: on_host_def split: prod.splits)

lemma lease_armed:
  assumes "tunnels_ok s"
  shows "lease s key = Some deadline \<longleftrightarrow> (\<exists>t. armed s t = Some (deadline, key))"
proof
  assume "lease s key = Some deadline"
  then obtain e where e: "map_of (processEntries s) key = Some e" "map_option fst (armed s (pe_timer (entry_at s e))) = Some deadline"
    by (auto simp: lease_def split: option.splits)
  with tunnels_okD(4) [OF assms e(1)] show "\<exists>t. armed s t = Some (deadline, key)" by auto
next
  assume "\<exists>t. armed s t = Some (deadline, key)"
  then obtain t e where "armed s t = Some (deadline, key)" "map_of (processEntries s) key = Some e" "pe_timer (entry_at s e) = t"
    using tunnels_okD(5) [OF assms] by blast
  then show "lease s key = Some deadline" by (simp add: lease_def)
qed

lemma lease_eqI:
  assumes "tunnels_ok s" "\<And>k deadline. (\<exists>t. armed s t = Some (deadline, k)) \<longleftrightarrow> l k = Some deadline"
  shows "lease s = l"
proof
  fix k
  have same: "lease s k = Some deadline \<longleftrightarrow> l k = Some deadline" for deadline
    unfolding lease_armed [OF assms(1)] by (rule assms(2))
  show "lease s k = l k"
  proof (cases "l k")
    case None
    with same have "\<forall>deadline. lease s k \<noteq> Some deadline" by simp
    with None show ?thesis by (cases "lease s k") simp_all
  next
    case (Some deadline)
    with same show ?thesis by simp
  qed
qed

lemma arm_entry_tunnels:
  assumes "tunnels_ok s" "map_of (processEntries s) key = Some e"
    and s': "s' = s\<lparr>armed := (armed s)(pe_timer (entry_at s e) := None, next_ref s \<mapsto> (deadline, key)),
        entry_at := (entry_at s)(e := (entry_at s e)\<lparr>pe_timer := next_ref s\<rparr>), next_ref := Suc (next_ref s)\<rparr>"
  shows "tunnels_ok s'"
  unfolding tunnels_ok_def
proof (intro conjI allI impI)
  note D = tunnels_okD [OF assms(1)]
  have others: "e' \<noteq> e \<and> pe_timer (entry_at s e') \<noteq> pe_timer (entry_at s e) \<and> pe_timer (entry_at s e') < next_ref s"
    if "map_of (processEntries s) k = Some e'" "k \<noteq> key" for k e'
    using tracked_inj [OF assms(1) that(1) assms(2)] that(2) D(2) D(4) [OF that(1)] by auto
  show "gomap_ok (processEntries s')" using D(1) s' by simp
  show "t < next_ref s'" if "armed s' t \<noteq> None" for t
    using that D(2) s' by (auto split: if_splits intro: less_SucI)
  show "e' < next_ref s'" if "map_of (processEntries s') k = Some e'" for k e'
    using that D(3) s' by (auto intro: less_SucI)
  show "\<exists>dl. armed s' (pe_timer (entry_at s' e')) = Some (dl, k)" if "map_of (processEntries s') k = Some e'" for k e'
    using that assms(2) others [of k e'] D(4) [of k e'] s' by (cases "k = key") auto
  show "\<exists>e'. map_of (processEntries s') k = Some e' \<and> pe_timer (entry_at s' e') = t" if "armed s' t = Some (dl, k)" for t dl k
    using that assms(2) D(5) [of t dl k] s' by (cases "t = next_ref s") (auto split: if_splits)
qed

lemma arm_entry_ok:
  assumes "tunnels_ok s" "map_of (processEntries s) key = Some e"
    and s': "s' = s\<lparr>armed := (armed s)(pe_timer (entry_at s e) := None, next_ref s \<mapsto> (deadline, key)),
        entry_at := (entry_at s)(e := (entry_at s e)\<lparr>pe_timer := next_ref s\<rparr>), next_ref := Suc (next_ref s)\<rparr>"
  shows "tunnels_ok s' \<and> lease s' = (lease s)(key \<mapsto> deadline)"
proof
  show ok: "tunnels_ok s'" by (rule arm_entry_tunnels [OF assms])
  have "armed s (next_ref s) = None" using tunnels_okD(2) [OF assms(1), of "next_ref s"] by (metis less_irrefl)
  moreover have "t = pe_timer (entry_at s e) \<longleftrightarrow> k = key" if "armed s t = Some (dl, k)" for t dl k
    using tunnels_okD(4) [OF assms(1,2)] tunnels_okD(5) [OF assms(1) that] assms(2) that by auto
  ultimately have "armed s' t = Some (dl, k) \<longleftrightarrow> t = next_ref s \<and> dl = deadline \<and> k = key \<or> k \<noteq> key \<and> armed s t = Some (dl, k)" for t dl k
    using s' by auto
  then show "lease s' = (lease s)(key \<mapsto> deadline)"
    using lease_armed [OF assms(1)] by (intro lease_eqI [OF ok]) auto
qed

lemma new_tunnel_tunnels:
  assumes "tunnels_ok s" "map_of (processEntries s) key = None"
    and s': "s' = s\<lparr>armed := (armed s)(next_ref s \<mapsto> (deadline, key)),
        entry_at := (entry_at s)(Suc (next_ref s) := \<lparr>pe_process = pid, pe_timer = next_ref s\<rparr>),
        processEntries := AList.update key (Suc (next_ref s)) (processEntries s),
        next_ref := Suc (Suc (next_ref s))\<rparr>"
  shows "tunnels_ok s'"
  unfolding tunnels_ok_def
proof (intro conjI allI impI)
  note D = tunnels_okD [OF assms(1)]
  have others: "e' \<noteq> Suc (next_ref s) \<and> pe_timer (entry_at s e') \<noteq> next_ref s"
    if "map_of (processEntries s) k = Some e'" for k e'
    using D(2) [of "pe_timer (entry_at s e')"] D(3) [OF that] D(4) [OF that] by auto
  show "gomap_ok (processEntries s')" using D(1) s' by (simp add: table_simps)
  show "t < next_ref s'" if "armed s' t \<noteq> None" for t
    using that D(2) [of t] s' by (auto split: if_splits)
  show "e' < next_ref s'" if "map_of (processEntries s') k = Some e'" for k e'
    using that D(3) [of k e'] s' by (auto simp: table_simps split: if_splits)
  show "\<exists>dl. armed s' (pe_timer (entry_at s' e')) = Some (dl, k)" if "map_of (processEntries s') k = Some e'" for k e'
    using that others [of k e'] D(4) [of k e'] s' by (auto simp: table_simps split: if_splits)
  show "\<exists>e'. map_of (processEntries s') k = Some e' \<and> pe_timer (entry_at s' e') = t" if t: "armed s' t = Some (dl, k)" for t dl k
  proof (cases "t = next_ref s")
    case True
    with t s' show ?thesis by (auto simp: table_simps)
  next
    case False
    with t s' obtain e' where e': "map_of (processEntries s) k = Some e'" "pe_timer (entry_at s e') = t"
      using D(5) [of t dl k] by auto
    with assms(2) have "k \<noteq> key" by auto
    with e' others [of k e'] s' show ?thesis by (auto simp: table_simps)
  qed
qed

lemma new_tunnel_ok:
  assumes "tunnels_ok s" "map_of (processEntries s) key = None"
    and s': "s' = s\<lparr>armed := (armed s)(next_ref s \<mapsto> (deadline, key)),
        entry_at := (entry_at s)(Suc (next_ref s) := \<lparr>pe_process = pid, pe_timer = next_ref s\<rparr>),
        processEntries := AList.update key (Suc (next_ref s)) (processEntries s),
        next_ref := Suc (Suc (next_ref s))\<rparr>"
  shows "tunnels_ok s' \<and> lease s' = (lease s)(key \<mapsto> deadline)"
proof
  show ok: "tunnels_ok s'" by (rule new_tunnel_tunnels [OF assms])
  have "armed s (next_ref s) = None" using tunnels_okD(2) [OF assms(1), of "next_ref s"] by (metis less_irrefl)
  moreover have "armed s t \<noteq> Some (dl, key)" for t dl
    using tunnels_okD(5) [OF assms(1), of t dl key] assms(2) by auto
  ultimately have "armed s' t = Some (dl, k) \<longleftrightarrow> t = next_ref s \<and> dl = deadline \<and> k = key \<or> k \<noteq> key \<and> armed s t = Some (dl, k)" for t dl k
    using s' by auto
  then show "lease s' = (lease s)(key \<mapsto> deadline)"
    using lease_armed [OF assms(1)] by (intro lease_eqI [OF ok]) auto
qed

lemma run_killProcessEntry:
  "run (killProcessEntry key) s =
    ((), case map_of (processEntries s) key of
       None \<Rightarrow> s
     | Some e \<Rightarrow> s\<lparr>processEntries := AList.delete key (processEntries s),
         armed := (armed s)(pe_timer (entry_at s e) := None),
         terminated := terminated s @ [pe_process (entry_at s e)]\<rparr>)"
proof (cases "map_of (processEntries s) key")
  case None
  then have "AList.delete key (processEntries s) = processEntries s"
    by (simp add: delete_id map_of_eq_None_iff)
  with None show ?thesis by (simp add: killProcessEntry_def run_pbind take_entry_def)
next
  case (Some e)
  then show ?thesis
    by (simp add: killProcessEntry_def run_pbind take_entry_def load_timer_def Stop_def signal_entry_def)
qed

lemma killProcessEntry_ok:
  assumes "tunnels_ok s" "run (killProcessEntry key) s = (u, s')"
  shows "tunnels_ok s' \<and> lease s' = (lease s)(key := None)"
proof (cases "map_of (processEntries s) key")
  case None
  with assms show ?thesis by (auto simp: run_killProcessEntry lease_def fun_eq_iff)
next
  case (Some e)
  show ?thesis
    by (rule remove_tunnel_ok [OF assms(1) Some])
       (use assms(2) Some in \<open>auto simp: run_killProcessEntry\<close>)
qed

lemma timer_callback_ok:
  assumes "tunnels_ok s" "timer_due t s = (Some key, s1)" "run (killProcessEntry key) s1 = (u, s')"
  shows "tunnels_ok s' \<and> lease s' = (lease s)(key := None) \<and> (\<exists>deadline. lease s key = Some deadline \<and> deadline \<le> now s)"
proof -
  from assms(2) obtain deadline where t: "armed s t = Some (deadline, key)" "deadline \<le> now s"
    and s1: "s1 = s\<lparr>armed := (armed s)(t := None)\<rparr>"
    by (auto simp: timer_due_def split: option.splits prod.splits if_splits)
  from tunnels_okD(5) [OF assms(1) t(1)] obtain e
    where e: "map_of (processEntries s) key = Some e" "pe_timer (entry_at s e) = t" by blast
  have "tunnels_ok s' \<and> lease s' = (lease s)(key := None)"
    by (rule remove_tunnel_ok [OF assms(1) e(1)])
       (use assms(3) e s1 in \<open>auto simp: run_killProcessEntry\<close>)
  with t e show ?thesis by (auto simp: lease_def)
qed

lemma drop_exited_ok:
  assumes "tunnels_ok s" "drop_exited key e s = (u, s')" "map_of (processEntries s) key = Some e"
  shows "tunnels_ok s' \<and> lease s' = (lease s)(key := None)"
  by (rule remove_tunnel_ok [OF assms(1,3)]) (use assms in \<open>auto simp: drop_exited_def\<close>)

lemma renewal_ok:
  assumes "tunnels_ok s" "run (ensureProcessProxy px key ip port host d) s = (r, s')"
    and "map_of (processEntries s) key = Some e"
  shows "tunnels_ok s' \<and>
    lease s' = (case r of Inl _ \<Rightarrow> lease s | Inr _ \<Rightarrow> (lease s)(key \<mapsto> now s' + max 0 (sint d)))"
proof -
  have "s' = s\<lparr>armed := (armed s)(pe_timer (entry_at s e) := None, next_ref s \<mapsto> (now s + max 0 (sint d), key)),
        entry_at := (entry_at s)(e := (entry_at s e)\<lparr>pe_timer := next_ref s\<rparr>), next_ref := Suc (next_ref s)\<rparr>"
    "r = Inr ()"
    using assms(2,3)
    by (auto simp: ensureProcessProxy_def run_pbind lookup_entry_def load_timer_def Stop_def
        AfterFunc_def store_timer_def)
  then show ?thesis using arm_entry_ok [OF assms(1,3)] by simp
qed

lemma ensureProcessProxy_ok:
  assumes "tunnels_ok s" "run (ensureProcessProxy px key ip port host d) s = (r, s')"
  shows "tunnels_ok s' \<and>
    lease s' = (case r of Inl _ \<Rightarrow> lease s | Inr _ \<Rightarrow> (lease s)(key \<mapsto> now s' + max 0 (sint d)))"
proof (cases "map_of (processEntries s) key")
  case (Some e)
  with renewal_ok [OF assms] show ?thesis .
next
  case None
  obtain r1 s1 where spawn: "on_host (px_spawn px host ip port) s = (r1, s1)"
    by (cases "on_host (px_spawn px host ip port) s")
  then obtain fs w where s1: "s1 = s\<lparr>files := fs, outside := w\<rparr>" by (blast dest: on_host_outside)
  have ok1: "tunnels_ok s1" "lease s1 = lease s" using assms(1) s1 by simp_all
  show ?thesis
  proof (cases r1)
    case (Inl e)
    with assms(2) None spawn ok1 show ?thesis
      by (auto simp: ensureProcessProxy_def run_pbind run_ebind run_wrap_err lookup_entry_def)
  next
    case (Inr pid)
    obtain r2 s2 where await: "on_host (px_await px pid) s1 = (r2, s2)"
      by (cases "on_host (px_await px pid) s1")
    then obtain fs' w' where s2: "s2 = s1\<lparr>files := fs', outside := w'\<rparr>" by (blast dest: on_host_outside)
    have ok2: "tunnels_ok s2" "lease s2 = lease s" using ok1 s2 by simp_all
    note defs = ensureProcessProxy_def run_pbind run_ebind run_wrap_err lookup_entry_def await_startup_def
      AfterFunc_def add_entry_def
    show ?thesis
    proof (cases r2)
      case (Some st)
      with assms(2) None spawn Inr await ok2 show ?thesis by (auto simp: defs)
    next
      case none2: None
      let ?s3 = "s2\<lparr>now := max (now s2) (now s1 + sint startupWindow)\<rparr>"
      have ok: "tunnels_ok ?s3" "lease ?s3 = lease s" using ok2 by simp_all
      have look: "map_of (processEntries ?s3) key = None" using None s1 s2 by simp
      have "r = Inr ()" and s': "s' = ?s3\<lparr>armed := (armed ?s3)(next_ref ?s3 \<mapsto> (now ?s3 + max 0 (sint d), key)),
        entry_at := (entry_at ?s3)(Suc (next_ref ?s3) := \<lparr>pe_process = pid, pe_timer = next_ref ?s3\<rparr>),
        processEntries := AList.update key (Suc (next_ref ?s3)) (processEntries ?s3),
        next_ref := Suc (Suc (next_ref ?s3))\<rparr>"
        using assms(2) None spawn Inr await none2 by (auto simp: defs)
      with new_tunnel_ok [OF ok(1) look s'] ok(2) s' show ?thesis by simp
    qed
  qed
qed

lemma killAll_pseq:
  assumes "gomap_ok ents" "processEntries s = ents"
  shows "run (pseq (map killProcessEntry (map fst ents))) s =
     (map (\<lambda>_. ()) ents,
      s\<lparr>processEntries := [],
        armed := fold (\<lambda>(k, e) a. a(pe_timer (entry_at s e) := None)) ents (armed s),
        terminated := terminated s @ map (\<lambda>(k, e). pe_process (entry_at s e)) ents\<rparr>)"
  using assms
proof (induction ents arbitrary: s)
  case Nil
  then show ?case by simp
next
  case (Cons x xs)
  obtain k e where x: "x = (k, e)" by (cases x)
  let ?s = "s\<lparr>processEntries := xs, armed := (armed s)(pe_timer (entry_at s e) := None),
      terminated := terminated s @ [pe_process (entry_at s e)]\<rparr>"
  have k: "k \<notin> fst ` set xs" "gomap_ok xs"
    using Cons.prems(1) by (auto simp: gomap_ok_def x)
  then have "run (killProcessEntry k) s = ((), ?s)"
    by (simp add: run_killProcessEntry x Cons.prems(2) delete_id)
  moreover have "run (pseq (map killProcessEntry (map fst xs))) ?s =
     (map (\<lambda>_. ()) xs,
      ?s\<lparr>processEntries := [],
        armed := fold (\<lambda>(k, e) a. a(pe_timer (entry_at ?s e) := None)) xs (armed ?s),
        terminated := terminated ?s @ map (\<lambda>(k, e). pe_process (entry_at ?s e)) xs\<rparr>)"
    by (rule Cons.IH) (use k in simp_all)
  ultimately show ?case by (simp add: run_pbind x fun_upd_def)
qed

lemma fold_disarm:
  "fold (\<lambda>(k, e) a. a(f e := None)) ents a t = (if t \<in> f ` snd ` set ents then None else a t)"
  by (induction ents arbitrary: a) (auto simp: image_iff)

lemma run_KillAll:
  assumes "gomap_ok (processEntries s)"
  shows "run KillAllProcessProxies s =
     ((), s\<lparr>processEntries := [],
        armed := fold (\<lambda>(k, e) a. a(pe_timer (entry_at s e) := None)) (processEntries s) (armed s),
        terminated := terminated s @ map (\<lambda>(k, e). pe_process (entry_at s e)) (processEntries s)\<rparr>)"
  using killAll_pseq [OF assms refl] by (simp add: KillAllProcessProxies_def run_pbind)

lemma killAll_disarms:
  assumes "tunnels_ok s" "run KillAllProcessProxies s = (u, s')"
  shows "processEntries s' = [] \<and> armed s' = Map.empty"
proof -
  have "armed s t = None" if "t \<notin> (\<lambda>e. pe_timer (entry_at s e)) ` snd ` set (processEntries s)" for t
  proof (rule ccontr)
    assume "armed s t \<noteq> None"
    then obtain dl k e where "map_of (processEntries s) k = Some e" "pe_timer (entry_at s e) = t"
      using tunnels_okD(5) [OF assms(1)] by fastforce
    then show False using that map_of_SomeD by force
  qed
  with assms(2) run_KillAll [OF tunnels_okD(1) [OF assms(1)]] show ?thesis
    by (auto simp: fold_disarm [where f = "\<lambda>e. pe_timer (entry_at s e)"] fun_eq_iff)
qed

lemma killAll_ok:
  assumes "tunnels_ok s" "run KillAllProcessProxies s = (u, s')"
  shows "tunnels_ok s' \<and> lease s' = Map.empty"
  using killAll_disarms [OF assms] by (auto simp: tunnels_ok_def lease_def gomap_ok_def)

subsection \<open>The tunnels as a state machine\<close>

text \<open>
  Whole calls and callbacks, one after the other, between changes of the outside: what
  happens is labelled with what it means for the leases.
\<close>

datatype lease_event = Granted string int | Lapsed string | Lost string | All_Lost | Unchanged

inductive tunnel_step ::
    "('w, 's) tunnel_deps \<Rightarrow> ('w, 'm) daemon_scheme \<Rightarrow> lease_event \<Rightarrow> ('w, 'm) daemon_scheme \<Rightarrow> bool"
  for px where
  granted: "run (ensureProcessProxy px key ip port host d) s = (Inr (), s')
    \<Longrightarrow> tunnel_step px s (Granted key (now s' + max 0 (sint d))) s'"
| refused: "run (ensureProcessProxy px key ip port host d) s = (Inl e, s')
    \<Longrightarrow> tunnel_step px s Unchanged s'"
| fired: "timer_due t s = (Some key, s1) \<Longrightarrow> run (killProcessEntry key) s1 = (u, s')
    \<Longrightarrow> tunnel_step px s (Lapsed key) s'"
| exited: "map_of (processEntries s) key = Some e \<Longrightarrow> drop_exited key e s = (u, s')
    \<Longrightarrow> tunnel_step px s (Lost key) s'"
| stopped: "run KillAllProcessProxies s = (u, s') \<Longrightarrow> tunnel_step px s All_Lost s'"
| elapsed: "now s \<le> t \<Longrightarrow> tunnel_step px s Unchanged (s\<lparr>now := t\<rparr>)"
| machine_changed: "tunnel_step px s Unchanged (s\<lparr>files := fs, outside := w\<rparr>)"

inductive_cases tunnel_stepE: "tunnel_step px s ev s'"

inductive tunnel_run ::
    "('w, 's) tunnel_deps \<Rightarrow> ('w, 'm) daemon_scheme \<Rightarrow> lease_event list \<Rightarrow> ('w, 'm) daemon_scheme \<Rightarrow> bool"
  for px where
  start: "tunnel_run px s [] s"
| more: "tunnel_run px s evs s1 \<Longrightarrow> tunnel_step px s1 ev s2 \<Longrightarrow> tunnel_run px s (evs @ [ev]) s2"

text \<open>The same on the level of leases.\<close>

primrec lease_after :: "lease_event \<Rightarrow> (string \<rightharpoonup> int) \<Rightarrow> (string \<rightharpoonup> int)" where
  "lease_after (Granted key deadline) l = l(key \<mapsto> deadline)"
| "lease_after (Lapsed key) l = l(key := None)"
| "lease_after (Lost key) l = l(key := None)"
| "lease_after All_Lost l = Map.empty"
| "lease_after Unchanged l = l"

lemma tunnel_step_refines:
  assumes "tunnel_step px s ev s'" "tunnels_ok s"
  shows "tunnels_ok s' \<and> lease s' = lease_after ev (lease s)
    \<and> (\<forall>key. ev = Lapsed key \<longrightarrow> (\<exists>deadline. lease s key = Some deadline \<and> deadline \<le> now s))"
  using assms(1)
proof cases
  case (granted key ip port host d)
  with ensureProcessProxy_ok [OF assms(2), of px key ip port host d] show ?thesis by auto
next
  case (refused key ip port host d e)
  with ensureProcessProxy_ok [OF assms(2), of px key ip port host d] show ?thesis by auto
next
  case (fired t key s1 u)
  with timer_callback_ok [OF assms(2)] show ?thesis by auto
next
  case (exited key e u)
  with drop_exited_ok [OF assms(2)] show ?thesis by auto
next
  case (stopped u)
  with killAll_ok [OF assms(2)] show ?thesis by auto
next
  case (elapsed t)
  with assms(2) show ?thesis by simp
next
  case (machine_changed fs w)
  with assms(2) show ?thesis by simp
qed

lemmas ensure_steps =
  ensureProcessProxy_def run_pbind run_ebind run_wrap_err lookup_entry_def load_timer_def
  Stop_def AfterFunc_def store_timer_def await_startup_def add_entry_def

lemma now_kill [simp]: "now (snd (run (killProcessEntry key) s)) = now s"
  by (simp add: run_killProcessEntry split: option.split)

lemma now_kills [simp]: "now (snd (run (pseq (map killProcessEntry keys)) s)) = now s"
proof (induction keys arbitrary: s)
  case (Cons k ks)
  obtain s1 where s1: "run (killProcessEntry k) s = ((), s1)" by (cases "run (killProcessEntry k) s") simp
  obtain us s2 where s2: "run (pseq (map killProcessEntry ks)) s1 = (us, s2)"
    by (cases "run (pseq (map killProcessEntry ks)) s1")
  show ?case
    using now_kill [of k s] Cons [of s1] s1 s2 by (simp add: run_pbind)
qed simp

lemma now_killAll: "run KillAllProcessProxies s = (u, s') \<Longrightarrow> now s' = now s"
  using now_kills [of "map fst (processEntries s)" s]
  by (auto simp: KillAllProcessProxies_def run_pbind split: prod.splits)

lemma now_ensure: "run (ensureProcessProxy px key ip port host d) s = (r, s') \<Longrightarrow> now s \<le> now s'"
  by (auto simp: ensure_steps split: option.splits prod.splits sum.splits dest!: on_host_outside)

text \<open>The clock of a run never goes back.\<close>

lemma tunnel_step_now: "tunnel_step px s ev s' \<Longrightarrow> now s \<le> now s'"
  by (erule tunnel_stepE)
     (auto simp: timer_due_def run_killProcessEntry drop_exited_def dest: now_ensure now_killAll
       split: option.splits prod.splits if_splits)

lemma tunnel_run_now: "tunnel_run px s evs s' \<Longrightarrow> now s \<le> now s'"
  by (induction rule: tunnel_run.induct) (auto dest: tunnel_step_now)

lemma tunnel_run_refines:
  "tunnel_run px s evs s' \<Longrightarrow> tunnels_ok s \<Longrightarrow> tunnels_ok s' \<and> lease s' = fold lease_after evs (lease s)"
  by (induction rule: tunnel_run.induct) (auto dest: tunnel_step_refines)

definition idle_daemon :: "(string \<rightharpoonup> string \<times> nat) \<Rightarrow> 'w \<Rightarrow> int \<Rightarrow> 'w daemon" where
  "idle_daemon fs w t =
     \<lparr>files = fs, outside = w, now = t, processEntries = [], entry_at = (\<lambda>_. \<lparr>pe_process = 0, pe_timer = 0\<rparr>),
      armed = Map.empty, next_ref = 0, terminated = []\<rparr>"

lemma idle_daemon_ok: "tunnels_ok (idle_daemon fs w t)" "lease (idle_daemon fs w t) = Map.empty"
  by (simp_all add: tunnels_ok_def idle_daemon_def gomap_ok_def lease_def fun_eq_iff)

text \<open>
  C8: from the start of the daemon, after any sequence of calls, timer callbacks, exits of
  tunnels and changes of the outside that do not overlap, each tracked tunnel has exactly one
  armed timer, no other timer is armed, and the table of leases is what the sequence says:
  the latest successful call for a key decides its deadline.
\<close>

theorem tunnels_refine_leases:
  assumes "tunnel_run px (idle_daemon fs w t) evs s"
  shows "tunnels_ok s \<and> lease s = fold lease_after evs Map.empty"
  using tunnel_run_refines [OF assms idle_daemon_ok(1)] by (simp add: idle_daemon_ok)

definition sample_deps :: "('w, 's) tunnel_deps" where
  "sample_deps = \<lparr>px_exec = (\<lambda>_ _ _ h. (Inl refused, h)), px_spawn = (\<lambda>_ _ _ h. (Inr 7, h)),
     px_await = (\<lambda>_ h. (None, h)), px_under_systemd = False, px_shared = (\<lambda>_ _. None)\<rparr>"

lemma sample_start:
  "map_of (processEntries s) key = None \<Longrightarrow>
   fst (run (ensureProcessProxy sample_deps key ip port host d) s) = Inr ()"
  by (simp add: ensure_steps sample_deps_def on_host_def)

lemma sample_run:
  "\<exists>s. tunnel_run (sample_deps :: ('w, unit) tunnel_deps) (idle_daemon fs w t)
      [Granted ''a:1'' (now s + max 0 (sint (d :: duration)))] s"
proof -
  let ?out = "run (ensureProcessProxy (sample_deps :: ('w, unit) tunnel_deps) ''a:1'' ''a'' ''1'' ''h'' d) (idle_daemon fs w t)"
  have "?out = (Inr (), snd ?out)"
    using sample_start [of "idle_daemon fs w t" "''a:1''" "''a''" "''1''" "''h''" d]
    by (simp add: idle_daemon_def prod_eq_iff)
  from tunnel_run.more [OF tunnel_run.start tunnel_step.granted [OF this]] show ?thesis by fastforce
qed

theorem tunnels_refine_leases_witness:
  "\<exists>s :: unit daemon. lease s = [''a:1'' \<mapsto> now s + 60]"
proof -
  obtain s where "tunnel_run (sample_deps :: (unit, unit) tunnel_deps) (idle_daemon Map.empty () 0) [Granted ''a:1'' (now s + 60)] s"
    using sample_run [of Map.empty "()" 0 60] by auto
  from tunnels_refine_leases [OF this] show ?thesis by auto
qed
subsection \<open>Lifetime of a tunnel\<close>

definition ends_early :: "string \<Rightarrow> lease_event \<Rightarrow> bool" where
  "ends_early key ev \<longleftrightarrow> ev = Lost key \<or> ev = All_Lost \<or> (\<exists>deadline. ev = Granted key deadline)"

lemma lease_kept:
  assumes "tunnel_run px s evs s'" "tunnels_ok s" "lease s key = Some deadline"
    and "now s' < deadline" "\<forall>ev \<in> set evs. \<not> ends_early key ev"
  shows "lease s' key = Some deadline"
  using assms
proof (induction rule: tunnel_run.induct)
  case (start s)
  then show ?case by simp
next
  case (more s evs s1 ev s2)
  have "now s1 < deadline" using more(2,6) tunnel_step_now by fastforce
  with more have lease1: "lease s1 key = Some deadline" by simp
  have "ev \<noteq> Lapsed key"
    using tunnel_step_refines [OF more(2)] tunnel_run_refines [OF more(1)] more(4) lease1 \<open>now s1 < deadline\<close> by fastforce
  moreover have "lease s2 = lease_after ev (lease s1)"
    using tunnel_step_refines [OF more(2)] tunnel_run_refines [OF more(1)] more(4) by blast
  ultimately show ?case
    using lease1 more(7) by (cases ev) (auto simp: ends_early_def)
qed



text \<open>
  A call for a directly spawned tunnel fails only when no tunnel is tracked under the
  key and the process cannot be started or exits within the startup window (the message then
  names its exit code); nothing of the attempt stays in the daemon's memory, neither an entry
  nor an armed timer.
\<close>

theorem failed_start_leaves_nothing:
  assumes "run (ensureProcessProxy px key ip port host d) s = (Inl e, s')"
  shows "s' = s\<lparr>files := files s', outside := outside s'\<rparr>
    \<and> map_of (processEntries s) key = None
    \<and> ((\<exists>e0. fst (px_spawn px host ip port (machine s)) = Inl e0 \<and> e = Wrapf [Txt ''proxy: spawning sshuttle: ''] e0)
      \<or> (\<exists>pid h1 st. px_spawn px host ip port (machine s) = (Inr pid, h1) \<and> fst (px_await px pid h1) = Some st
          \<and> e = Errorf [Txt ''sshuttle exited early with code '',
              Txt (itoa (case st of None \<Rightarrow> - 1 | Some code \<Rightarrow> code))]))"
proof (cases "px_spawn px host ip port (machine s)")
  case (Pair r h1)
  show ?thesis
  proof (cases r)
    case (Inl e0)
    with assms Pair show ?thesis
      by (auto simp: ensure_steps on_host_def split: option.splits)
  next
    case (Inr pid)
    with assms Pair show ?thesis
      by (auto simp: ensure_steps on_host_def split: option.splits prod.splits)
  qed
qed

theorem failed_start_leaves_nothing_witness:
  "armed (snd (run (ensureProcessProxy (sample_deps\<lparr>px_await := \<lambda>_ h. (Some (Some 1), h)\<rparr> :: (unit, unit) tunnel_deps)
       ''a:1'' ''a'' ''1'' ''h'' 60) (idle_daemon Map.empty () 0))) = Map.empty"
proof -
  let ?px = "sample_deps\<lparr>px_await := \<lambda>_ h. (Some (Some 1), h)\<rparr> :: (unit, unit) tunnel_deps"
  let ?s = "idle_daemon Map.empty () 0 :: unit daemon"
  let ?out = "run (ensureProcessProxy ?px ''a:1'' ''a'' ''1'' ''h'' 60) ?s"
  have "?out = (Inl (projl (fst ?out)), snd ?out)"
    by (simp add: ensure_steps sample_deps_def on_host_def idle_daemon_def)
  from failed_start_leaves_nothing [OF this]
  have "snd ?out = ?s\<lparr>files := files (snd ?out), outside := outside (snd ?out)\<rparr>" by blast
  then have "armed (snd ?out) = armed (?s\<lparr>files := files (snd ?out), outside := outside (snd ?out)\<rparr>)"
    by (rule arg_cong)
  then show ?thesis by (simp add: idle_daemon_def)
qed

text \<open>
  Stopping the daemon sends SIGTERM to the process of every tracked tunnel, exactly once
  and in the order of the table, forgets all of them and leaves no timer armed.
\<close>

theorem kill_all_complete:
  assumes "tunnels_ok s"
  shows "processEntries (snd (run KillAllProcessProxies s)) = []
    \<and> armed (snd (run KillAllProcessProxies s)) = Map.empty
    \<and> terminated (snd (run KillAllProcessProxies s)) =
        terminated s @ map (\<lambda>(key, e). pe_process (entry_at s e)) (processEntries s)"
  using killAll_disarms [OF assms, of "()"] run_KillAll [OF tunnels_okD(1) [OF assms]] by simp

theorem kill_all_complete_witness:
  "terminated (snd (run KillAllProcessProxies (snd (run (ensureProcessProxy
       (sample_deps :: (unit, unit) tunnel_deps) ''a:1'' ''a'' ''1'' ''h'' 60) (idle_daemon Map.empty () 0))))) = [7]"
proof -
  let ?s0 = "idle_daemon Map.empty () 0 :: unit daemon"
  let ?out = "run (ensureProcessProxy (sample_deps :: (unit, unit) tunnel_deps) ''a:1'' ''a'' ''1'' ''h'' 60) ?s0"
  have "tunnels_ok (snd ?out)"
    using ensureProcessProxy_ok [OF idle_daemon_ok(1), of "sample_deps :: (unit, unit) tunnel_deps" "''a:1''"
      "''a''" "''1''" "''h''" 60 Map.empty "()" 0 "fst ?out" "snd ?out"] by simp
  moreover have "map (\<lambda>(key, e). pe_process (entry_at (snd ?out) e)) (processEntries (snd ?out)) = [7]"
    "terminated (snd ?out) = []"
    by (simp_all add: ensure_steps sample_deps_def on_host_def idle_daemon_def)
  ultimately show ?thesis using kill_all_complete [of "snd ?out"] by (simp only: append_Nil)
qed

subsection \<open>Overlapping calls and callbacks\<close>

text \<open>
  C40: the renewal of a lease is not protected against the callback of the timer it replaces.
  For any tracked tunnel whose timer is due there is an interleaving of the renewal and the
  callback after which the renewal has reported success although its tunnel has been
  signalled and is no longer tracked; moreover the renewal has armed a timer for a key that
  has no tunnel, which the invariant of non-overlapping calls excludes, and which will kill
  the next tunnel that is started for the key.
\<close>

theorem renewal_race:
  assumes "tunnels_ok s" "map_of (processEntries s) key = Some e"
    and "t = pe_timer (entry_at s e)" "lease s key = Some deadline" "deadline \<le> now s"
  shows "\<exists>s'. run (par [0, 1, 1, 1, 1, 1, 0, 0, 0, 0]
        [pbind (ensureProcessProxy px key ip port host d) (\<lambda>r. Done (Some r)),
         pbind (timer_callback t) (\<lambda>_. Done None)]) s = ([Some (Inr ()), None], s')
    \<and> lease s' key = None
    \<and> pe_process (entry_at s e) \<in> set (terminated s')
    \<and> (\<exists>t'. armed s' t' = Some (now s' + max 0 (sint d), key))
    \<and> \<not> tunnels_ok s'"
proof -
  have t: "armed s t = Some (deadline, key)"
    using tunnels_okD(4) [OF assms(1,2)] assms(2,3,4) by (auto simp: lease_def)
  let ?s' = "s\<lparr>processEntries := AList.delete key (processEntries s),
      armed := (armed s)(t := None, next_ref s \<mapsto> (now s + max 0 (sint d), key)),
      entry_at := (entry_at s)(e := (entry_at s e)\<lparr>pe_timer := next_ref s\<rparr>),
      next_ref := Suc (next_ref s), terminated := terminated s @ [pe_process (entry_at s e)]\<rparr>"
  have "t < next_ref s" using tunnels_okD(2) [OF assms(1)] t by simp
  with assms(2,3,5) t have run: "run (par [0, 1, 1, 1, 1, 1, 0, 0, 0, 0]
        [pbind (ensureProcessProxy px key ip port host d) (\<lambda>r. Done (Some r)),
         pbind (timer_callback t) (\<lambda>_. Done None)]) s = ([Some (Inr ()), None], ?s')"
    by (simp add: ensureProcessProxy_def timer_callback_def killProcessEntry_def call_def
        lookup_entry_def take_entry_def timer_due_def load_timer_def Stop_def signal_entry_def
        AfterFunc_def store_timer_def)
  have stale: "armed ?s' (next_ref s) = Some (now ?s' + max 0 (sint d), key)" by simp
  have gone: "map_of (processEntries ?s') key = None" by (simp add: delete_conv')
  have "\<not> tunnels_ok ?s'"
    using tunnels_okD(5) [OF _ stale] gone by force
  with run stale gone show ?thesis
    by (intro exI [of _ ?s']) (auto simp: lease_def)
qed

theorem renewal_race_witness:
  "\<exists>s'. lease s' ''a:1'' = None \<and> \<not> tunnels_ok (s' :: unit daemon)
     \<and> (\<exists>t'. armed s' t' = Some (now s' + 60, ''a:1''))"
proof -
  let ?s = "(idle_daemon Map.empty () 5)\<lparr>processEntries := [(''a:1'', 1)], next_ref := 2,
      entry_at := \<lambda>_. \<lparr>pe_process = 7, pe_timer = 0\<rparr>, armed := [0 \<mapsto> (5, ''a:1'')]\<rparr> :: unit daemon"
  have "tunnels_ok ?s"
    by (simp add: tunnels_ok_def idle_daemon_def gomap_ok_def)
  from renewal_race [OF this, of "''a:1''" 1 0 5 "sample_deps :: (unit, unit) tunnel_deps" "''a''" "''1''" "''h''" 60]
  show ?thesis by (auto simp: idle_daemon_def lease_def)
qed

lemma stale_timer_kills:
  assumes "armed s t = Some (old, key)" "old \<le> now s"
    and "map_of (processEntries s) key = Some e"
  shows "pe_process (entry_at s e) \<in> set (terminated (snd (run (timer_callback t) s)))
    \<and> map_of (processEntries (snd (run (timer_callback t) s))) key = None"
  using assms
  by (simp add: timer_callback_def run_pbind timer_due_def run_killProcessEntry delete_conv')

text \<open>
  A time to live that is not positive (the configuration accepts zero) can leak a tunnel:
  the timer is armed before the entry is published, so its callback may run in between, find
  nothing, and never come back. The call reports success and the tunnel stays tracked with no
  armed timer, that is, without an end.
\<close>

theorem zero_ttl_leak:
  assumes "sint d \<le> 0" "map_of (processEntries s) key = None" "gomap_ok (processEntries s)"
    and "px_spawn px host ip port (machine s) = (Inr pid, h1)" "px_await px pid h1 = (None, h2)"
  shows "\<exists>s' e. run (par [0, 0, 0, 0, 0, 1, 1, 0]
        [pbind (ensureProcessProxy px key ip port host d) (\<lambda>r. Done (Some r)),
         pbind (timer_callback (next_ref s)) (\<lambda>_. Done None)]) s = ([Some (Inr ()), None], s')
    \<and> map_of (processEntries s') key = Some e \<and> pe_process (entry_at s' e) = pid
    \<and> armed s' (pe_timer (entry_at s' e)) = None"
proof -
  have "AList.delete key (processEntries s) = processEntries s"
    using assms(2) by (simp add: delete_id map_of_eq_None_iff)
  with assms show ?thesis
    by (simp add: ensureProcessProxy_def wrap_err_def ebind_def timer_callback_def killProcessEntry_def
        call_def on_host_def await_startup_def lookup_entry_def take_entry_def timer_due_def AfterFunc_def add_entry_def
        update_conv' max_absorb1)
qed

theorem zero_ttl_leak_witness:
  "\<exists>(s' :: unit daemon) e. map_of (processEntries s') ''a:1'' = Some e \<and> armed s' (pe_timer (entry_at s' e)) = None"
  using zero_ttl_leak [of 0 "idle_daemon Map.empty () 0 :: unit daemon" "''a:1''"
      "sample_deps :: (unit, unit) tunnel_deps" "''h''" "''a''" "''1''" 7
      "\<lparr>files = Map.empty, outside = ()\<rparr>" "\<lparr>files = Map.empty, outside = ()\<rparr>"]
  by (auto simp: idle_daemon_def sample_deps_def gomap_ok_def machine_def)

subsection \<open>Names of tunnels\<close>

lemma target_names:
  assumes "colon_free port" "colon_free port'"
  shows "targetKey ip port = targetKey ip' port' \<longleftrightarrow> ip = ip' \<and> port = port'"
  using append_sep_eq_last [of "CHR '':''" port port' ip ip'] assms
  by (simp add: targetKey_def colon_free_def)

lemma unitName_key: "unitName ip port = unitPrefix @ targetKey ip port @ unitSuffix"
  by (simp add: unitName_def targetKey_def)

lemma unit_names:
  assumes "colon_free port" "colon_free port'"
  shows "unitName ip port = unitName ip' port' \<longleftrightarrow> ip = ip' \<and> port = port'"
  using target_names [OF assms] by (simp add: unitName_key)

text \<open>
  Two targets share a table key or a unit name only if they are the same address and
  port; a port never contains a colon, an address may (IPv6).
\<close>

theorem tunnel_names_injective:
  assumes "colon_free port" "colon_free port'"
  shows "(targetKey ip port = targetKey ip' port' \<longleftrightarrow> ip = ip' \<and> port = port')
    \<and> (unitName ip port = unitName ip' port' \<longleftrightarrow> ip = ip' \<and> port = port')"
  using target_names [OF assms] unit_names [OF assms] by blast

theorem tunnel_names_injective_witness:
  "unitName ''::1'' ''6443'' \<noteq> unitName ''::1:6443'' ''6443''"
  using tunnel_names_injective [of "''6443''" "''6443''" "''::1''" "''::1:6443''"]
  by (simp add: colon_free_def)

subsection \<open>Units\<close>

text \<open>
  What systemd promises, for a view \<open>V\<close> of the active units and their RuntimeMaxSec:
  is-active answers for the active units and changes nothing; set-property replaces the limit
  of an active unit; systemd-run makes the unit active. A failing command changes no unit.
\<close>

definition unit_args :: "string \<Rightarrow> string \<Rightarrow> string list \<Rightarrow> string list" where
  "unit_args name secs cmd =
     [''--user'', ''--unit='' @ name, ''--property=RuntimeMaxSec='' @ secs,
      ''--property=Restart=on-failure'', ''--property=RestartSec=2'',
      ''--property=StartLimitIntervalSec=60'', ''--property=StartLimitBurst=3'',
      ''--collect'', ''--slice=capi-shell-api-endpoint-proxy.slice'', ''--''] @ cmd"

definition lawful_systemd ::
    "(string \<Rightarrow> string list \<Rightarrow> exec_options \<Rightarrow> 'w host \<Rightarrow> exec_output res \<times> 'w host)
     \<Rightarrow> ('w host \<Rightarrow> string \<rightharpoonup> string) \<Rightarrow> bool" where
  "lawful_systemd ex V \<longleftrightarrow>
     (\<forall>name h r h'. ex ''systemctl'' [''--user'', ''is-active'', name] no_options h = (r, h') \<longrightarrow>
        V h' = V h \<and> (V h name \<noteq> None \<longleftrightarrow> (\<exists>out. r = Inr out \<and> trim_space (Stdout out) = ''active'')))
   \<and> (\<forall>name secs h r h'. ex ''systemctl'' [''--user'', ''set-property'', name, ''RuntimeMaxSec='' @ secs] no_options h = (r, h') \<longrightarrow>
        V h' = (case r of Inl e \<Rightarrow> V h | Inr out \<Rightarrow> (V h)(name := map_option (\<lambda>_. secs) (V h name))))
   \<and> (\<forall>name secs cmd h r h'. ex ''systemd-run'' (unit_args name secs cmd) no_options h = (r, h') \<longrightarrow>
        V h' = (case r of Inl e \<Rightarrow> V h | Inr out \<Rightarrow> (V h)(name \<mapsto> secs)))"

lemma lawful_systemdD:
  assumes "lawful_systemd ex V"
  shows "ex ''systemctl'' [''--user'', ''is-active'', name] no_options h = (r, h') \<Longrightarrow>
      V h' = V h \<and> (V h name \<noteq> None \<longleftrightarrow> (\<exists>out. r = Inr out \<and> trim_space (Stdout out) = ''active''))"
    and "ex ''systemctl'' [''--user'', ''set-property'', name, ''RuntimeMaxSec='' @ secs] no_options h = (r, h') \<Longrightarrow>
      V h' = (case r of Inl e \<Rightarrow> V h | Inr out \<Rightarrow> (V h)(name := map_option (\<lambda>_. secs) (V h name)))"
    and "ex ''systemd-run'' (unit_args name secs cmd) no_options h = (r, h') \<Longrightarrow>
      V h' = (case r of Inl e \<Rightarrow> V h | Inr out \<Rightarrow> (V h)(name \<mapsto> secs))"
  using assms unfolding lawful_systemd_def by blast+

lemma on_host_plain [simp]: "on_host f (h :: 'w host) = f h"
  by (cases "f h") (simp add: on_host_def)

text \<open>
  Under systemd a call looks at the machine only and changes the machine only, so a
  restarted daemon with an empty memory treats every tunnel as before.
\<close>

theorem systemd_ignores_memory:
  "run (ensureSystemdProxy px ip port sshuttleHost d) s =
   on_host (run (ensureSystemdProxy px ip port sshuttleHost d)) s"
  by (simp add: ensureSystemdProxy_def isUnitActive_def run_pbind run_ebind run_wrap_err Let_def
      on_host_def [of _ s] on_host_def wrap_res_def split: prod.split sum.split)

lemma ensureSystemdProxy_lawful:
  assumes "lawful_systemd (px_exec px) V"
    and "run (ensureSystemdProxy px ip port sshuttleHost d) h = (r, h')"
  shows "V h' = (case r of Inl e \<Rightarrow> V h
    | Inr _ \<Rightarrow> (V h)(unitName ip port \<mapsto> itoa (sint (duration_seconds d))))"
proof -
  note law = lawful_systemdD [OF assms(1)]
  let ?name = "unitName ip port" and ?secs = "itoa (sint (duration_seconds d))"
  obtain r1 h1 where active: "px_exec px ''systemctl'' [''--user'', ''is-active'', ?name] no_options h = (r1, h1)"
    by (cases "px_exec px ''systemctl'' [''--user'', ''is-active'', ?name] no_options h")
  obtain r2 h2 where ext: "px_exec px ''systemctl''
      [''--user'', ''set-property'', ?name, ''RuntimeMaxSec='' @ ?secs] no_options h1 = (r2, h2)"
    by (cases "px_exec px ''systemctl'' [''--user'', ''set-property'', ?name, ''RuntimeMaxSec='' @ ?secs] no_options h1")
  obtain r3 h3 where start: "px_exec px ''systemd-run''
      (unit_args ?name ?secs [''sshuttle'', ''-r'', sshuttleHost, ip @ '':'' @ port]) no_options h1 = (r3, h3)"
    by (cases "px_exec px ''systemd-run''
      (unit_args ?name ?secs [''sshuttle'', ''-r'', sshuttleHost, ip @ '':'' @ port]) no_options h1")
  let ?up = "(case r1 of Inl e \<Rightarrow> False | Inr out \<Rightarrow> trim_space (Stdout out) = ''active'')"
  have up: "V h ?name \<noteq> None \<longleftrightarrow> ?up" and V1: "V h1 = V h"
    using law(1) [OF active] by (auto split: sum.split)
  have run: "(r, h') = (if ?up then (wrap_res [Txt ''proxy: extending '', Txt ?name, Txt '': ''] (map_sum id (\<lambda>_. ()) r2), h2)
      else (wrap_res [Txt ''proxy: starting systemd-run tunnel: ''] (map_sum id (\<lambda>_. ()) r3), h3))"
    unfolding assms(2) [symmetric]
    using active ext start
    by (simp add: ensureSystemdProxy_def isUnitActive_def run_pbind run_ebind run_wrap_err Let_def
        unit_args_def wrap_res_def split: sum.split)
  show ?thesis
  proof (cases ?up)
    case True
    with up obtain secs where "V h ?name = Some secs" by blast
    with True run V1 law(2) [OF ext] show ?thesis by (cases r2) auto
  next
    case False
    with run V1 law(3) [OF start] show ?thesis by (cases r3) auto
  qed
qed

subsection \<open>The contract of both kinds of tunnels\<close>

text \<open>
  \<open>leases\<close> is a table from tunnel names; a successful call for a target sets the entry of
  its name and no other, a failing call changes nothing.
\<close>

locale lease_keeper =
  fixes good :: "'s \<Rightarrow> bool"
    and leases :: "'s \<Rightarrow> string \<rightharpoonup> 'v"
    and name_of :: "string \<Rightarrow> string \<Rightarrow> string"
    and ensure :: "string \<Rightarrow> string \<Rightarrow> string \<Rightarrow> duration \<Rightarrow> 's \<Rightarrow> unit res \<times> 's"
  assumes keeps_good: "good s \<Longrightarrow> ensure ip port sh d s = (r, s') \<Longrightarrow> good s'"
    and grants: "good s \<Longrightarrow> ensure ip port sh d s = (Inr (), s') \<Longrightarrow>
      \<exists>v. leases s' = (leases s)(name_of ip port \<mapsto> v)"
    and refuses: "good s \<Longrightarrow> ensure ip port sh d s = (Inl e, s') \<Longrightarrow> leases s' = leases s"
    and names: "colon_free port \<Longrightarrow> colon_free port' \<Longrightarrow>
      name_of ip port = name_of ip' port' \<longleftrightarrow> ip = ip' \<and> port = port'"
begin

primrec ensure_all :: "(string \<times> string) list \<Rightarrow> string \<Rightarrow> duration \<Rightarrow> 's \<Rightarrow> (string \<times> string) list \<times> 's" where
  "ensure_all [] sh d s = ([], s)"
| "ensure_all (x # xs) sh d s =
     (case ensure (fst x) (snd x) sh d s of
        (r, s1) \<Rightarrow> (case ensure_all xs sh d s1 of (up, s2) \<Rightarrow> ((if isl r then up else x # up), s2)))"

lemma ensure_leases:
  "good s \<Longrightarrow> ensure ip port sh d s = (r, s') \<Longrightarrow>
   dom (leases s') = (if isl r then dom (leases s) else insert (name_of ip port) (dom (leases s)))"
  by (cases r) (auto dest: grants refuses)

lemma ensure_all_leases:
  "good s \<Longrightarrow> ensure_all xs sh d s = (up, s') \<Longrightarrow>
   dom (leases s') = dom (leases s) \<union> (\<lambda>x. name_of (fst x) (snd x)) ` set up"
proof (induction xs arbitrary: s up s')
  case Nil
  then show ?case by simp
next
  case (Cons x xs)
  obtain r s1 where one: "ensure (fst x) (snd x) sh d s = (r, s1)"
    by (cases "ensure (fst x) (snd x) sh d s")
  obtain up1 s2 where rest: "ensure_all xs sh d s1 = (up1, s2)" by (cases "ensure_all xs sh d s1")
  have "up = (if isl r then up1 else x # up1)" "s' = s2" using Cons.prems(2) one rest by simp_all
  then show ?case
    using Cons.IH [OF keeps_good [OF Cons.prems(1) one] rest] ensure_leases [OF Cons.prems(1) one]
    by (auto split: if_splits)
qed

text \<open>After any calls the leased targets are exactly those of before and the successful ones.\<close>

lemma ensure_all_exact:
  assumes "good s" "ensure_all xs sh d s = (up, s')" "\<forall>x \<in> set up. colon_free (snd x)" "colon_free port"
  shows "name_of ip port \<in> dom (leases s') \<longleftrightarrow> name_of ip port \<in> dom (leases s) \<or> (ip, port) \<in> set up"
  using ensure_all_leases [OF assms(1,2)] names assms(3,4) by (force simp: image_iff)

end

lemma ensureProcessProxy_keeps:
  "tunnels_ok s \<Longrightarrow> run (ensureProcessProxy px key ip port host d) s = (r, s') \<Longrightarrow> tunnels_ok s'"
  using ensureProcessProxy_ok [of s px key ip port host d r s'] by simp

lemma ensureProcessProxy_granted:
  "tunnels_ok s \<Longrightarrow> run (ensureProcessProxy px key ip port host d) s = (Inr (), s') \<Longrightarrow>
   \<exists>v. lease s' = (lease s)(key \<mapsto> v)"
  using ensureProcessProxy_ok [of s px key ip port host d "Inr ()" s'] by auto

lemma ensureProcessProxy_refused:
  "tunnels_ok s \<Longrightarrow> run (ensureProcessProxy px key ip port host d) s = (Inl e, s') \<Longrightarrow> lease s' = lease s"
  using ensureProcessProxy_ok [of s px key ip port host d "Inl e" s'] by simp

interpretation process_tunnels: lease_keeper tunnels_ok lease targetKey
  "\<lambda>ip port sh d. run (ensureProcessProxy px (targetKey ip port) ip port sh d)" for px
  by unfold_locales
     (erule (1) ensureProcessProxy_keeps ensureProcessProxy_granted ensureProcessProxy_refused target_names)+

lemma ensureSystemdProxy_granted:
  "lawful_systemd (px_exec px) V \<Longrightarrow> run (ensureSystemdProxy px ip port sh d) h = (Inr (), h') \<Longrightarrow>
   \<exists>v. V h' = (V h)(unitName ip port \<mapsto> v)"
  using ensureSystemdProxy_lawful [of px V ip port sh d h "Inr ()" h'] by auto

lemma ensureSystemdProxy_refused:
  "lawful_systemd (px_exec px) V \<Longrightarrow> run (ensureSystemdProxy px ip port sh d) h = (Inl e, h') \<Longrightarrow> V h' = V h"
  using ensureSystemdProxy_lawful [of px V ip port sh d h "Inl e" h'] by simp

interpretation unit_tunnels: lease_keeper "\<lambda>_. lawful_systemd (px_exec px) V" V unitName
  "\<lambda>ip port sh d. run (ensureSystemdProxy px ip port sh d)" for px V
  by unfold_locales
     (assumption | erule (1) ensureSystemdProxy_granted ensureSystemdProxy_refused unit_names)+

text \<open>
  C22: on a systemd that behaves as documented a successful call leaves the unit of the
  target active with exactly the new time to live as its limit, whether it was active before
  or not; no other unit changes, and a failing call changes none.
\<close>

theorem systemd_lease:
  assumes "lawful_systemd (px_exec px) V"
  shows "V (snd (run (ensureSystemdProxy px ip port sshuttleHost d) h)) =
    (case fst (run (ensureSystemdProxy px ip port sshuttleHost d) h) of
       Inl e \<Rightarrow> V h
     | Inr _ \<Rightarrow> (V h)(unitName ip port \<mapsto> itoa (sint (duration_seconds d))))"
  by (rule ensureSystemdProxy_lawful [OF assms]) simp

definition sample_systemd ::
    "string \<Rightarrow> string list \<Rightarrow> exec_options \<Rightarrow> (string \<rightharpoonup> string) host
     \<Rightarrow> exec_output res \<times> (string \<rightharpoonup> string) host" where
  "sample_systemd file_name args opts h =
     (let done = Inr \<lparr>Stdout = ''active'', Stderr = ''''\<rparr> in
      if file_name = ''systemctl'' \<and> length args = 3 then
        (if outside h (args ! 2) = None then (Inl refused, h) else (done, h))
      else if file_name = ''systemctl'' then
        (done, h\<lparr>outside := (outside h)(args ! 2 := map_option (\<lambda>_. drop 14 (args ! 3)) (outside h (args ! 2)))\<rparr>)
      else (done, h\<lparr>outside := (outside h)(drop 7 (args ! 1) \<mapsto> drop 25 (args ! 2))\<rparr>))"

lemma sample_systemd_lawful: "lawful_systemd sample_systemd outside"
proof -
  have "trim_space ''active'' = ''active''"
    by (rule trim_space_graphic) (simp add: graphic_def)
  then show ?thesis
    by (auto simp: lawful_systemd_def sample_systemd_def Let_def unit_args_def split: if_splits)
qed

theorem systemd_lease_witness:
  "outside (snd (run (ensureSystemdProxy (sample_deps\<lparr>px_exec := sample_systemd\<rparr> :: (string \<rightharpoonup> string, unit) tunnel_deps)
      ''10.0.0.1'' ''6443'' ''jump'' 60000000000) \<lparr>files = Map.empty, outside = Map.empty\<rparr>))
   = [''capi-shell-api-endpoint-proxy-sshuttle-10.0.0.1:6443.service'' \<mapsto> ''60'']"
proof -
  let ?px = "sample_deps\<lparr>px_exec := sample_systemd\<rparr> :: (string \<rightharpoonup> string, unit) tunnel_deps"
  let ?out = "run (ensureSystemdProxy ?px ''10.0.0.1'' ''6443'' ''jump'' 60000000000) \<lparr>files = Map.empty, outside = Map.empty\<rparr>"
  have "lawful_systemd (px_exec ?px) outside" by (simp add: sample_systemd_lawful)
  note lease = systemd_lease [OF this, of "''10.0.0.1''" "''6443''" "''jump''" 60000000000
      "\<lparr>files = Map.empty, outside = Map.empty\<rparr>"]
  have "fst ?out = Inr ()"
    by (simp add: ensureSystemdProxy_def isUnitActive_def run_pbind run_ebind run_wrap_err Let_def
        sample_systemd_def)
  moreover have "itoa (sint (duration_seconds 60000000000)) = ''60''"
  proof -
    have "itoa 60 = ''60''" by code_simp
    then show ?thesis using duration_seconds_exact [of 60000000000 60] by simp
  qed
  moreover have "unitName ''10.0.0.1'' ''6443'' = ''capi-shell-api-endpoint-proxy-sshuttle-10.0.0.1:6443.service''"
    by (simp add: unitName_def unitPrefix_def unitSuffix_def)
  ultimately show ?thesis using lease by simp
qed

end
