(* ===== verification/Overlap.thy ===== *)
theory Overlap
  imports Proxy Rely
begin

text \<open>
  The tunnel manager under concurrency. \<open>Proxy\<close> describes its operations one after the other;
  here any number of calls, timer callbacks, exits and shutdowns overlap. No sshuttle process
  is lost track of, as long as the calls for one key come one at a time, which is what
  \<open>singleflight.Group.Do\<close> is there for.

  \<open>running\<close> is a view of the machine: the sshuttle processes of the daemon that are alive.
\<close>

subsection \<open>Processes\<close>

text \<open>
  What \<open>os/exec\<close> promises: starting a command adds at most the process it returns, a failing
  start adds none; waiting adds none, and a process that was reported to have exited is gone.
\<close>

definition lawful_processes :: "('w, 's) tunnel_deps \<Rightarrow> ('w host \<Rightarrow> nat set) \<Rightarrow> bool" where
  "lawful_processes px running \<longleftrightarrow>
     (\<forall>host ip port h r h'. px_spawn px host ip port h = (r, h') \<longrightarrow>
        running h' \<subseteq> (case r of Inl e \<Rightarrow> running h | Inr pid \<Rightarrow> insert pid (running h)))
   \<and> (\<forall>pid h r h'. px_await px pid h = (r, h') \<longrightarrow>
        running h' \<subseteq> (case r of None \<Rightarrow> running h | Some st \<Rightarrow> running h - {pid}))"

definition tracked :: "('w, 'm) daemon_scheme \<Rightarrow> nat \<Rightarrow> bool" where
  "tracked s pid \<longleftrightarrow> (\<exists>key e. map_of (processEntries s) key = Some e \<and> pe_process (entry_at s e) = pid)"

text \<open>A process is accounted for when it is gone, tracked, or was sent SIGTERM.\<close>

definition accounted :: "('w host \<Rightarrow> nat set) \<Rightarrow> nat \<Rightarrow> ('w, 'm) daemon_scheme \<Rightarrow> bool" where
  "accounted running pid s \<longleftrightarrow> pid \<in> running (machine s) \<longrightarrow> tracked s pid \<or> pid \<in> set (terminated s)"

subsection \<open>Tasks\<close>

text \<open>
  What can be under way: the calls for one target, of which \<open>singleflight\<close> lets one run at a
  time; the callback of a timer; the goroutine that waits for the exit of a tracked process,
  which does nothing while the process is alive; and the shutdown.
\<close>

definition exit_watcher ::
    "('w host \<Rightarrow> nat set) \<Rightarrow> string \<Rightarrow> nat \<Rightarrow> (('w, 'm) daemon_scheme, unit) prog" where
  "exit_watcher running key e =
     call (\<lambda>s. if pe_process (entry_at s e) \<in> running (machine s) then ((), s) else drop_exited key e s)"

datatype tunnel_task =
    Tunnel_Calls string string "(string \<times> duration) list"
  | Timer_Fires nat
  | Exit_Seen string nat
  | Shutdown

fun task_key :: "tunnel_task \<Rightarrow> string option" where
  "task_key (Tunnel_Calls ip port calls) = Some (targetKey ip port)"
| "task_key _ = None"

fun perform ::
    "('w, ('w, 'm) daemon_scheme) tunnel_deps \<Rightarrow> ('w host \<Rightarrow> nat set) \<Rightarrow> tunnel_task \<Rightarrow> (('w, 'm) daemon_scheme, unit res list) prog" where
  "perform px running (Tunnel_Calls ip port calls) = pseq (map (\<lambda>(host, d). EnsureProxy px ip port host d) calls)"
| "perform px running (Timer_Fires t) = pbind (timer_callback t) (\<lambda>_. Done [])"
| "perform px running (Exit_Seen key e) = pbind (exit_watcher running key e) (\<lambda>_. Done [])"
| "perform px running Shutdown = pbind KillAllProcessProxies (\<lambda>_. Done [])"

definition one_flight :: "tunnel_task list \<Rightarrow> bool" where
  "one_flight tasks \<longleftrightarrow>
     (\<forall>i < length tasks. \<forall>j < length tasks. i \<noteq> j \<longrightarrow>
        task_key (tasks ! i) = None \<or> task_key (tasks ! i) \<noteq> task_key (tasks ! j))"

text \<open>
  Around the tasks anything may happen that leaves the tunnel manager's memory alone and
  starts no sshuttle process: time passes, processes exit, other parts of the daemon work.
\<close>

definition around_tunnels :: "('w host \<Rightarrow> nat set) \<Rightarrow> ('w, 'm) daemon_scheme \<Rightarrow> ('w, 'm) daemon_scheme \<Rightarrow> bool" where
  "around_tunnels running s s' \<longleftrightarrow>
     processEntries s' = processEntries s \<and> entry_at s' = entry_at s \<and> next_ref s' = next_ref s
     \<and> terminated s' = terminated s \<and> running (machine s') \<subseteq> running (machine s)"

subsection \<open>What a task relies on and guarantees\<close>

definition table_ok :: "('w, 'm) daemon_scheme \<Rightarrow> bool" where
  "table_ok s \<longleftrightarrow> gomap_ok (processEntries s) \<and> (\<forall>key e. map_of (processEntries s) key = Some e \<longrightarrow> e < next_ref s)"

definition later :: "('w, 'm) daemon_scheme \<Rightarrow> ('w, 'm) daemon_scheme \<Rightarrow> bool" where
  "later s s' \<longleftrightarrow>
     next_ref s \<le> next_ref s' \<and> set (terminated s) \<subseteq> set (terminated s')
     \<and> (\<forall>e < next_ref s. pe_process (entry_at s' e) = pe_process (entry_at s e))"

definition relies :: "string option \<Rightarrow> ('w, 'm) daemon_scheme \<Rightarrow> ('w, 'm) daemon_scheme \<Rightarrow> bool" where
  "relies k s s' \<longleftrightarrow>
     later s s' \<and> (\<forall>key. k = Some key \<longrightarrow> map_of (processEntries s) key = None \<longrightarrow> map_of (processEntries s') key = None)"

definition guarantees :: "string option \<Rightarrow> ('w, 'm) daemon_scheme \<Rightarrow> ('w, 'm) daemon_scheme \<Rightarrow> bool" where
  "guarantees k s s' \<longleftrightarrow>
     later s s' \<and> (\<forall>key. k \<noteq> Some key \<longrightarrow> map_of (processEntries s) key = None \<longrightarrow> map_of (processEntries s') key = None)"

lemma later_refl [simp]: "later s s"
  by (simp add: later_def)

lemma later_trans: "later s s' \<Longrightarrow> later s' s'' \<Longrightarrow> later s s''"
  by (auto simp: later_def)

interpretation tunnels: composition table_ok relies guarantees "accounted running"
    "\<lambda>k k'. k = None \<or> k \<noteq> k'" "around_tunnels running" for running
proof unfold_locales
  show "relies k s s''" if "relies k s s'" "relies k s' s''" for k and s s' s'' :: "('a, 'b) daemon_scheme"
    using that by (auto simp: relies_def intro: later_trans)
  show "relies k s s" for k and s :: "('a, 'b) daemon_scheme"
    by (simp add: relies_def)
  show "relies k' s s'" if "k = None \<or> k \<noteq> k'" "guarantees k s s'" for k k' and s s' :: "('a, 'b) daemon_scheme"
    using that by (auto simp: relies_def guarantees_def)
  show "table_ok s' \<and> relies k s s' \<and> (accounted running pid s \<longrightarrow> accounted running pid s')"
    if "around_tunnels running s s'" "table_ok s" for k pid and s s' :: "('a, 'b) daemon_scheme"
    using that by (auto simp: around_tunnels_def table_ok_def relies_def later_def accounted_def tracked_def)
qed

text \<open>A step that leaves the table, the processes and the record of signals as they are.\<close>

definition harmless :: "('w host \<Rightarrow> nat set) \<Rightarrow> ('w, 'm) daemon_scheme \<Rightarrow> ('w, 'm) daemon_scheme \<Rightarrow> bool" where
  "harmless running s s' \<longleftrightarrow>
     processEntries s' = processEntries s \<and> next_ref s \<le> next_ref s' \<and> terminated s' = terminated s
     \<and> (\<forall>e. pe_process (entry_at s' e) = pe_process (entry_at s e)) \<and> running (machine s') \<subseteq> running (machine s)"

lemma harmlessD:
  assumes "harmless running s s'"
  shows "guarantees k s s'" "table_ok s \<Longrightarrow> table_ok s'" "accounted running pid s \<Longrightarrow> accounted running pid s'"
  using assms by (auto simp: harmless_def guarantees_def later_def table_ok_def accounted_def tracked_def intro: less_le_trans)

lemma abides_harmless:
  assumes "\<And>s'. harmless running s' (snd (f s'))"
  shows "abides (relies k) (guarantees k) table_ok (accounted running) (call f) s"
  using harmlessD [OF assms] by (intro abides_call) blast

lemma harmless_steps:
  "harmless running s (snd (Stop t s))" "harmless running s (snd (AfterFunc d key s))"
  "harmless running s (snd (load_timer e s))" "harmless running s (snd (store_timer e t s))"
  "harmless running s (snd (lookup_entry key s))" "harmless running s (snd (timer_due t s))"
  "harmless running s (snd (h s, s))"
  by (auto simp: harmless_def Stop_def AfterFunc_def load_timer_def store_timer_def lookup_entry_def timer_due_def machine_def
      split: option.split)

lemma ebind_wrap_call:
  "ebind (wrap_err fs (call f)) k =
   pbind (call f) (\<lambda>r. case r of Inl e \<Rightarrow> Done (Inl (Wrapf fs e)) | Inr a \<Rightarrow> k a)"
  by (auto simp: ebind_def wrap_err_def call_def fun_eq_iff split: sum.split)

subsection \<open>Killing an entry\<close>

text \<open>An entry that exists keeps its process, whatever happens to the table.\<close>

definition entry_of :: "nat \<Rightarrow> nat \<Rightarrow> ('w, 'm) daemon_scheme \<Rightarrow> bool" where
  "entry_of e pid s \<longleftrightarrow> e < next_ref s \<and> pe_process (entry_at s e) = pid"

lemma entry_of_later: "entry_of e pid s \<Longrightarrow> relies k s s' \<Longrightarrow> entry_of e pid s'"
  by (auto simp: entry_of_def relies_def later_def)

lemma kill_rest_restores:
  assumes "entry_of e pid s"
  shows "restores (relies k) table_ok (accounted running pid)
    (pbind (call (load_timer e)) (\<lambda>timer. pbind (call (Stop timer)) (\<lambda>_. call (signal_entry e)))) s"
proof -
  have signal: "restores (relies k) table_ok (accounted running pid) (call (signal_entry e)) s1" if "entry_of e pid s1" for s1
    using entry_of_later [OF that] by (auto simp: call_def signal_entry_def accounted_def entry_of_def)
  have stop: "restores (relies k) table_ok (accounted running pid) (pbind (call (Stop timer)) (\<lambda>_. call (signal_entry e))) s1"
    if "entry_of e pid s1" for s1 timer
    using entry_of_later [OF that] by (intro restores_step disjI2 signal) (auto simp: Stop_def entry_of_def)
  show ?thesis
    using entry_of_later [OF assms] by (intro restores_step disjI2 stop) (auto simp: load_timer_def)
qed

text \<open>Taking an entry out affects its own process only.\<close>

lemma tracked_delete:
  assumes "tracked s pid" "processEntries s' = AList.delete key (processEntries s)" "entry_at s' = entry_at s"
    and "\<forall>e. map_of (processEntries s) key = Some e \<longrightarrow> pe_process (entry_at s e) \<noteq> pid"
  shows "tracked s' pid"
proof -
  from assms(1) obtain k e where "map_of (processEntries s) k = Some e" "pe_process (entry_at s e) = pid"
    by (auto simp: tracked_def)
  moreover from this assms(4) have "k \<noteq> key" by auto
  ultimately show ?thesis unfolding tracked_def assms(2,3) by (auto simp: table_simps)
qed

lemma abides_killProcessEntry:
  fixes s :: "('w, 'm) daemon_scheme"
  shows "abides (relies k) (guarantees k) table_ok (accounted running) (killProcessEntry key) s"
  unfolding killProcessEntry_def
proof (rule abides_step)
  fix s' :: "('w, 'm) daemon_scheme" and pid
  assume ok: "table_ok s'"
  then show "guarantees k s' (snd (take_entry key s')) \<and> table_ok (snd (take_entry key s'))"
    by (auto simp: take_entry_def guarantees_def later_def table_ok_def table_simps)
  let ?rest = "\<lambda>found. case found of None \<Rightarrow> Done ()
      | Some e \<Rightarrow> pbind (call (load_timer e)) (\<lambda>timer. pbind (call (Stop timer)) (\<lambda>_. call (signal_entry e)))"
  show "abides (relies k) (guarantees k) table_ok (accounted running) (?rest (fst (take_entry key s'))) (snd (take_entry key s'))"
  proof (cases "fst (take_entry key s')")
    case (Some e)
    have "abides (relies k) (guarantees k) table_ok (accounted running) (call (signal_entry e)) s1" for s1 :: "('w, 'm) daemon_scheme"
      by (rule abides_call)
         (auto simp: signal_entry_def guarantees_def later_def table_ok_def accounted_def tracked_def machine_def)
    then have "abides (relies k) (guarantees k) table_ok (accounted running)
        (pbind (call (load_timer e)) (\<lambda>timer. pbind (call (Stop timer)) (\<lambda>_. call (signal_entry e)))) s1" for s1 :: "('w, 'm) daemon_scheme"
      by (intro abides_pbind [OF abides_harmless] harmless_steps)
    with Some show ?thesis by simp
  qed simp
  assume acc: "accounted running pid s'"
  show "accounted running pid (snd (take_entry key s'))
    \<or> restores (relies k) table_ok (accounted running pid) (?rest (fst (take_entry key s'))) (snd (take_entry key s'))"
  proof (cases "\<exists>e. map_of (processEntries s') key = Some e \<and> pe_process (entry_at s' e) = pid")
    case True
    then obtain e where e: "map_of (processEntries s') key = Some e" "pe_process (entry_at s' e) = pid" by blast
    with ok have "entry_of e pid (snd (take_entry key s'))" by (simp add: entry_of_def table_ok_def take_entry_def)
    from kill_rest_restores [OF this] e show ?thesis by (simp add: take_entry_def)
  next
    case False
    then have "tracked s' pid \<Longrightarrow> tracked (snd (take_entry key s')) pid"
      by (rule_tac tracked_delete) (auto simp: take_entry_def)
    with acc show ?thesis by (auto simp: take_entry_def accounted_def machine_def)
  qed
qed

lemma abides_timer_callback:
  "abides (relies k) (guarantees k) table_ok (accounted running) (timer_callback t) s"
  unfolding timer_callback_def
  by (intro abides_pbind abides_harmless harmless_steps) (simp add: abides_killProcessEntry split: option.split)

lemma abides_KillAll:
  "abides (relies k) (guarantees k) table_ok (accounted running) KillAllProcessProxies s"
  unfolding KillAllProcessProxies_def
  by (intro abides_pbind abides_harmless harmless_steps abides_pseq) (auto simp: abides_killProcessEntry)

lemma abides_exit_watcher:
  fixes s :: "('w, 'm) daemon_scheme"
  shows "abides (relies k) (guarantees k) table_ok (accounted running) (exit_watcher running key e) s"
  unfolding exit_watcher_def
proof (rule abides_call, intro conjI allI impI)
  fix s' :: "('w, 'm) daemon_scheme" and pid
  let ?f = "\<lambda>s. if pe_process (entry_at s e) \<in> running (machine s) then ((), s) else drop_exited key e s"
  assume ok: "table_ok s'"
  then show "guarantees k s' (snd (?f s'))" "table_ok (snd (?f s'))"
    by (auto simp: drop_exited_def guarantees_def later_def table_ok_def table_simps)
  assume acc: "accounted running pid s'"
  show "accounted running pid (snd (?f s'))"
  proof (cases "pe_process (entry_at s' e) \<notin> running (machine s') \<and> map_of (processEntries s') key = Some e")
    case True
    with acc have "pid \<in> running (machine s') \<Longrightarrow> tracked s' pid \<Longrightarrow> tracked (snd (drop_exited key e s')) pid"
      by (rule_tac tracked_delete) (auto simp: drop_exited_def)
    with True acc show ?thesis by (auto simp: drop_exited_def accounted_def machine_def)
  qed (use acc in \<open>auto simp: drop_exited_def\<close>)
qed

subsection \<open>Starting a tunnel\<close>

lemma machine_on_host [simp]: "machine (snd (on_host f s)) = snd (f (machine s))"
  by (simp add: on_host_def split: prod.split)

lemma on_host_memory [simp]:
  "processEntries (snd (on_host f s)) = processEntries s" "entry_at (snd (on_host f s)) = entry_at s"
  "next_ref (snd (on_host f s)) = next_ref s" "terminated (snd (on_host f s)) = terminated s"
  by (simp_all add: on_host_def split: prod.split)

lemma lawful_processesD:
  assumes "lawful_processes px running"
  shows "pid \<in> running (snd (px_spawn px host ip port h)) \<Longrightarrow> pid \<in> running h \<or> fst (px_spawn px host ip port h) = Inr pid"
    and "pid' \<in> running (snd (px_await px pid h)) \<Longrightarrow> pid' \<in> running h"
    and "pid' \<in> running (snd (px_await px pid h)) \<Longrightarrow> fst (px_await px pid h) = None \<or> pid' \<noteq> pid"
proof -
  have "running (snd (px_spawn px host ip port h)) \<subseteq> (case fst (px_spawn px host ip port h) of Inl e \<Rightarrow> running h | Inr pid \<Rightarrow> insert pid (running h))"
    using assms unfolding lawful_processes_def by (metis prod.collapse)
  then show "pid \<in> running (snd (px_spawn px host ip port h)) \<Longrightarrow> pid \<in> running h \<or> fst (px_spawn px host ip port h) = Inr pid"
    by (auto split: sum.splits)
  have "running (snd (px_await px pid h)) \<subseteq> (case fst (px_await px pid h) of None \<Rightarrow> running h | Some st \<Rightarrow> running h - {pid})"
    using assms unfolding lawful_processes_def by (metis prod.collapse)
  then show "pid' \<in> running (snd (px_await px pid h)) \<Longrightarrow> pid' \<in> running h"
    and "pid' \<in> running (snd (px_await px pid h)) \<Longrightarrow> fst (px_await px pid h) = None \<or> pid' \<noteq> pid"
    by (auto split: option.splits)
qed

lemma snd_await_startup:
  "\<exists>t. snd (await_startup px pid started s) = (snd (on_host (px_await px pid) s))\<lparr>now := t\<rparr>"
  "fst (await_startup px pid started s) = fst (px_await px pid (machine s))"
proof -
  obtain r h where "px_await px pid (machine s) = (r, h)" by force
  then show "fst (await_startup px pid started s) = fst (px_await px pid (machine s))"
    "\<exists>t. snd (await_startup px pid started s) = (snd (on_host (px_await px pid) s))\<lparr>now := t\<rparr>"
    by (auto simp: await_startup_def on_host_def split: option.split
        intro: exI [of _ "case r of None \<Rightarrow> max (now s) (started + sint startupWindow) | Some st \<Rightarrow> now s"])
qed

lemma await_memory [simp]:
  "processEntries (snd (await_startup px pid started s)) = processEntries s"
  "entry_at (snd (await_startup px pid started s)) = entry_at s"
  "next_ref (snd (await_startup px pid started s)) = next_ref s"
  "terminated (snd (await_startup px pid started s)) = terminated s"
  "machine (snd (await_startup px pid started s)) = snd (px_await px pid (machine s))"
  using snd_await_startup(1) [of px pid started s] by (auto simp: machine_def [of "_\<lparr>now := _\<rparr>"] simp flip: machine_def)

lemma await_harmless:
  "lawful_processes px running \<Longrightarrow> harmless running s (snd (await_startup px pid started s))"
  by (auto simp: harmless_def dest: lawful_processesD(2))

definition start_rest ::
    "('w, 's) tunnel_deps \<Rightarrow> string \<Rightarrow> duration \<Rightarrow> nat \<Rightarrow> int \<Rightarrow> int option option \<Rightarrow> (('w, 'm) daemon_scheme, unit res) prog" where
  "start_rest px key d pid started exited =
     (case exited of
        Some st \<Rightarrow> Done (Inl (Errorf [Txt ''sshuttle exited early with code '', Txt (itoa (case st of None \<Rightarrow> - 1 | Some code \<Rightarrow> code))]))
      | None \<Rightarrow> pbind (call (AfterFunc d key)) (\<lambda>timer. pbind (call (add_entry key pid timer)) (\<lambda>_. Done (Inr ()))))"

definition spawned_rest ::
    "('w, 's) tunnel_deps \<Rightarrow> string \<Rightarrow> duration \<Rightarrow> nat \<Rightarrow> (('w, 'm) daemon_scheme, unit res) prog" where
  "spawned_rest px key d pid =
     pbind (call (\<lambda>s. (now s, s))) (\<lambda>started. pbind (call (await_startup px pid started)) (start_rest px key d pid started))"

text \<open>A started process is put into the table, or has exited.\<close>

lemma spawned_rest_restores:
  fixes s :: "('w, 'm) daemon_scheme"
  assumes "lawful_processes px running"
  shows "restores (relies k) table_ok (accounted running pid) (spawned_rest px key d pid) s"
proof -
  have add: "restores (relies k) table_ok (accounted running pid)
      (pbind (call (AfterFunc d key)) (\<lambda>timer. pbind (call (add_entry key pid timer)) (\<lambda>_. Done (Inr ())))) s3" for s3 :: "('w, 'm) daemon_scheme"
    by (intro restores_step disjI2 disjI1) (auto simp: add_entry_def accounted_def tracked_def table_simps)
  have await: "restores (relies k) table_ok (accounted running pid)
      (pbind (call (await_startup px pid started)) (start_rest px key d pid started)) s1" for s1 :: "('w, 'm) daemon_scheme" and started
  proof (rule restores_step)
    fix s' :: "('w, 'm) daemon_scheme"
    show "accounted running pid (snd (await_startup px pid started s'))
      \<or> restores (relies k) table_ok (accounted running pid) (start_rest px key d pid started (fst (await_startup px pid started s')))
          (snd (await_startup px pid started s'))"
      using lawful_processesD(3) [OF assms, of pid pid "machine s'"] add
      by (cases "fst (px_await px pid (machine s'))")
         (auto simp: start_rest_def snd_await_startup accounted_def)
  qed
  show ?thesis unfolding spawned_rest_def by (rule restores_step) (simp add: await)
qed

lemma abides_add_entry:
  fixes s :: "('w, 'm) daemon_scheme"
  assumes "map_of (processEntries s) key = None"
  shows "abides (relies (Some key)) (guarantees (Some key)) table_ok (accounted running) (call (add_entry key pid timer)) s"
proof (rule abides_call, intro conjI allI impI)
  fix s' :: "('w, 'm) daemon_scheme" and pid'
  assume "relies (Some key) s s'" and ok: "table_ok s'"
  with assms have absent: "map_of (processEntries s') key = None" by (simp add: relies_def)
  show "guarantees (Some key) s' (snd (add_entry key pid timer s'))"
    by (auto simp: add_entry_def guarantees_def later_def table_simps)
  show "table_ok (snd (add_entry key pid timer s'))"
    using ok by (auto simp: add_entry_def table_ok_def table_simps less_SucI)
  have kept: "tracked (snd (add_entry key pid timer s')) pid'" if tr: "tracked s' pid'"
  proof -
    from tr obtain k e where at: "map_of (processEntries s') k = Some e" "pe_process (entry_at s' e) = pid'"
      by (auto simp: tracked_def)
    from at(1) ok have "e < next_ref s'" by (simp add: table_ok_def)
    moreover from at(1) absent have "k \<noteq> key" by auto
    ultimately show ?thesis
      using at unfolding tracked_def by (intro exI [of _ k] exI [of _ e]) (simp add: add_entry_def table_simps)
  qed
  assume "accounted running pid' s'"
  with kept show "accounted running pid' (snd (add_entry key pid timer s'))"
    by (auto simp: accounted_def) (auto simp: add_entry_def machine_def)
qed

lemma absent_later:
  "map_of (processEntries s) key = None \<Longrightarrow> relies (Some key) s s' \<Longrightarrow> map_of (processEntries s') key = None"
  by (simp add: relies_def)

lemma abides_then:
  assumes "\<And>s'. harmless running s' (snd (f s'))"
    and "\<And>s'. relies k s s' \<Longrightarrow> abides (relies k) (guarantees k) table_ok (accounted running) (q (fst (f s'))) (snd (f s'))"
  shows "abides (relies k) (guarantees k) table_ok (accounted running) (pbind (call f) q) s"
  using harmlessD [OF assms(1)] assms(2) by (intro abides_step) blast+

lemma abides_start_rest:
  fixes s :: "('w, 'm) daemon_scheme"
  assumes "map_of (processEntries s) key = None"
  shows "abides (relies (Some key)) (guarantees (Some key)) table_ok (accounted running) (start_rest px key d pid started exited) s"
proof -
  have add: "abides (relies (Some key)) (guarantees (Some key)) table_ok (accounted running)
      (pbind (call (add_entry key pid timer)) (\<lambda>_. Done (Inr ()))) s1"
    if "map_of (processEntries s1) key = None" for s1 :: "('w, 'm) daemon_scheme" and timer
    by (rule abides_pbind [OF abides_add_entry [OF that]]) simp
  have arm: "abides (relies (Some key)) (guarantees (Some key)) table_ok (accounted running)
      (pbind (call (AfterFunc d key)) (\<lambda>timer. pbind (call (add_entry key pid timer)) (\<lambda>_. Done (Inr ())))) s"
    using absent_later [OF assms] by (intro abides_then harmless_steps add) (auto simp: AfterFunc_def)
  show ?thesis using arm by (cases exited) (simp_all add: start_rest_def)
qed

lemma abides_spawned_rest:
  fixes s :: "('w, 'm) daemon_scheme"
  assumes "lawful_processes px running" "map_of (processEntries s) key = None"
  shows "abides (relies (Some key)) (guarantees (Some key)) table_ok (accounted running) (spawned_rest px key d pid) s"
proof -
  have await: "abides (relies (Some key)) (guarantees (Some key)) table_ok (accounted running)
      (pbind (call (await_startup px pid started)) (start_rest px key d pid started)) s1"
    if "map_of (processEntries s1) key = None" for s1 :: "('w, 'm) daemon_scheme" and started
    using absent_later [OF that] by (intro abides_then await_harmless [OF assms(1)] abides_start_rest) simp
  show ?thesis unfolding spawned_rest_def
    using absent_later [OF assms(2)] by (intro abides_then harmless_steps await) simp
qed

lemma ensureProcessProxy_steps:
  "ensureProcessProxy px key ip port host d =
     pbind (call (lookup_entry key)) (\<lambda>existing.
     case existing of
       Some e \<Rightarrow>
         pbind (call (load_timer e)) (\<lambda>old. pbind (call (Stop old)) (\<lambda>_. pbind (call (AfterFunc d key)) (\<lambda>timer.
         pbind (call (store_timer e timer)) (\<lambda>_. Done (Inr ())))))
     | None \<Rightarrow>
         pbind (call (on_host (px_spawn px host ip port))) (\<lambda>r.
         case r of Inl e \<Rightarrow> Done (Inl (Wrapf [Txt ''proxy: spawning sshuttle: ''] e)) | Inr pid \<Rightarrow> spawned_rest px key d pid))"
  unfolding ensureProcessProxy_def ebind_wrap_call spawned_rest_def start_rest_def [abs_def] ..

lemma abides_ensureProcessProxy:
  fixes s :: "('w, 'm) daemon_scheme"
  assumes "lawful_processes px running"
  shows "abides (relies (Some key)) (guarantees (Some key)) table_ok (accounted running) (ensureProcessProxy px key ip port host d) s"
proof -
  let ?rest = "\<lambda>r. case r of Inl e \<Rightarrow> Done (Inl (Wrapf [Txt ''proxy: spawning sshuttle: ''] e)) | Inr pid \<Rightarrow> spawned_rest px key d pid"
  have renew: "abides (relies (Some key)) (guarantees (Some key)) table_ok (accounted running)
      (pbind (call (load_timer e)) (\<lambda>old. pbind (call (Stop old)) (\<lambda>_. pbind (call (AfterFunc d key)) (\<lambda>timer.
         pbind (call (store_timer e timer)) (\<lambda>_. Done (Inr ())))))) s1" for s1 :: "('w, 'm) daemon_scheme" and e
    by (intro abides_pbind [OF abides_harmless] harmless_steps) simp
  have spawn: "abides (relies (Some key)) (guarantees (Some key)) table_ok (accounted running)
      (pbind (call (on_host (px_spawn px host ip port))) ?rest) s1"
    if absent: "map_of (processEntries s1) key = None" for s1 :: "('w, 'm) daemon_scheme"
  proof (rule abides_step)
    fix s2 :: "('w, 'm) daemon_scheme" and pid
    assume later: "relies (Some key) s1 s2" and ok: "table_ok s2"
    show "guarantees (Some key) s2 (snd (on_host (px_spawn px host ip port) s2)) \<and> table_ok (snd (on_host (px_spawn px host ip port) s2))"
      using ok by (auto simp: guarantees_def later_def table_ok_def)
    show "abides (relies (Some key)) (guarantees (Some key)) table_ok (accounted running)
        (?rest (fst (on_host (px_spawn px host ip port) s2))) (snd (on_host (px_spawn px host ip port) s2))"
      using absent_later [OF absent later] by (simp add: abides_spawned_rest [OF assms] split: sum.split)
    assume "accounted running pid s2"
    then show "accounted running pid (snd (on_host (px_spawn px host ip port) s2))
      \<or> restores (relies (Some key)) table_ok (accounted running pid) (?rest (fst (on_host (px_spawn px host ip port) s2)))
          (snd (on_host (px_spawn px host ip port) s2))"
      using lawful_processesD(1) [OF assms, of pid host ip port "machine s2"]
      by (auto simp: accounted_def tracked_def spawned_rest_restores [OF assms])
  qed
  show ?thesis unfolding ensureProcessProxy_steps
    by (intro abides_then harmless_steps) (auto simp: lookup_entry_def renew spawn split: option.split)
qed

lemma abides_EnsureProxy:
  fixes s :: "('w, 'm) daemon_scheme"
  assumes "lawful_processes px running" "\<not> px_under_systemd px"
  shows "abides (relies (Some (targetKey ip port))) (guarantees (Some (targetKey ip port))) table_ok (accounted running)
    (EnsureProxy px ip port host d) s"
  unfolding EnsureProxy_def singleflight_Do_def Let_def
  by (intro abides_then harmless_steps) (simp add: assms abides_ensureProcessProxy split: option.split)

lemma abides_perform:
  fixes s :: "('w, 'm) daemon_scheme"
  assumes "lawful_processes px running" "\<not> px_under_systemd px"
  shows "abides (relies (task_key task)) (guarantees (task_key task)) table_ok (accounted running) (perform px running task) s"
  by (cases task)
     (auto intro!: abides_pseq abides_EnsureProxy [OF assms] abides_pbind [OF abides_timer_callback]
        abides_pbind [OF abides_exit_watcher] abides_pbind [OF abides_KillAll])

subsection \<open>No process is lost\<close>

lemma tasks_account:
  assumes "lawful_processes px running" "\<not> px_under_systemd px" "one_flight tasks"
    and "table_ok s" "\<And>pid. accounted running pid s"
    and "(world_step (around_tunnels running))\<^sup>*\<^sup>* (s, map (perform px running) tasks) (s', map Done rs)"
  shows "table_ok s' \<and> accounted running pid s'"
proof (rule tunnels.all_restored [where ks = "map task_key tasks", OF _ assms(6,4)])
  show "map task_key tasks ! i = None \<or> map task_key tasks ! i \<noteq> map task_key tasks ! j"
    if "i < length (map task_key tasks)" "j < length (map task_key tasks)" "i \<noteq> j" for i j
    using assms(3) that by (simp add: one_flight_def)
  show "abides (relies (map task_key tasks ! i)) (guarantees (map task_key tasks ! i)) table_ok (accounted running)
      (map (perform px running) tasks ! i) s" if "i < length (map task_key tasks)" for i
    using that by (simp add: abides_perform [OF assms(1,2)])
qed (simp_all add: assms(5))

lemma shutdown_signals:
  assumes "table_ok s" "\<And>pid. accounted running pid s" "pid \<in> running (machine s)"
  shows "pid \<in> set (terminated (snd (run KillAllProcessProxies s)))"
proof -
  have "gomap_ok (processEntries s)" using assms(1) by (simp add: table_ok_def)
  moreover have "tracked s pid \<or> pid \<in> set (terminated s)" using assms(2,3) by (simp add: accounted_def)
  ultimately show ?thesis by (force simp: run_KillAll tracked_def dest: map_of_SomeD)
qed

text \<open>
  C9: however any calls for tunnels, timer callbacks, exits of tunnels and shutdowns
  overlap, with anything else going on around them, at the moment when they have all ended
  every living sshuttle process of the daemon is tracked in the table or was sent SIGTERM,
  provided that the calls for one address come one at a time, as singleflight ensures.
\<close>

theorem no_process_lost:
  assumes "lawful_processes px running" "\<not> px_under_systemd px" "one_flight tasks"
    and "processEntries s = []" "running (machine s) = {}"
    and "(world_step (around_tunnels running))\<^sup>*\<^sup>* (s, map (perform px running) tasks) (s', map Done rs)"
    and "pid \<in> running (machine s')"
  shows "tracked s' pid \<or> pid \<in> set (terminated s')"
proof -
  have "table_ok s" "\<And>pid. accounted running pid s"
    using assms(4,5) by (simp_all add: table_ok_def gomap_ok_def accounted_def)
  from tasks_account [OF assms(1-3) this assms(6), of pid] assms(7) show ?thesis by (simp add: accounted_def)
qed

text \<open>Processes are numbered in the order of their starts.\<close>

definition counting_deps :: "(nat set, 's) tunnel_deps" where
  "counting_deps = \<lparr>px_exec = (\<lambda>_ _ _ h. (Inl refused, h)),
     px_spawn = (\<lambda>_ _ _ h. (Inr (card (outside h)), h\<lparr>outside := insert (card (outside h)) (outside h)\<rparr>)),
     px_await = (\<lambda>_ h. (None, h)), px_under_systemd = False, px_shared = (\<lambda>_ _. None)\<rparr>"

lemma counting_lawful: "lawful_processes counting_deps outside"
  by (auto simp: lawful_processes_def counting_deps_def)

lemma counting_start:
  "let s' = snd (run (perform (counting_deps :: (nat set, nat set daemon) tunnel_deps) outside (Tunnel_Calls ''a'' ''1'' [(''h'', 60)])) (idle_daemon Map.empty {} 0))
   in outside s' = {0} \<and> terminated s' = [] \<and> processEntries s' = [(''a:1'', 1)] \<and> pe_process (entry_at s' 1) = 0"
  by (simp add: Let_def counting_deps_def EnsureProxy_def singleflight_Do_def ensure_steps on_host_def idle_daemon_def
      targetKey_def machine_def split_beta)

theorem no_process_lost_witness:
  "\<exists>s' :: nat set daemon. outside s' = {0} \<and> (tracked s' 0 \<or> 0 \<in> set (terminated s'))"
proof -
  let ?px = "counting_deps :: (nat set, nat set daemon) tunnel_deps"
  let ?task = "Tunnel_Calls ''a'' ''1'' [(''h'', 60)]"
  let ?s = "idle_daemon Map.empty {} 0 :: nat set daemon"
  obtain rs s' where run: "run (perform ?px outside ?task) ?s = (rs, s')" by force
  from world_of_pool [OF pool_steps_run_head [OF run]]
  have "(world_step (around_tunnels outside))\<^sup>*\<^sup>* (?s, map (perform ?px outside) [?task]) (s', map Done [rs])" by simp
  note lost = no_process_lost [OF counting_lawful _ _ _ _ this, of 0]
  have alive: "outside s' = {0}" using counting_start run by (simp add: Let_def)
  moreover have "tracked s' 0 \<or> 0 \<in> set (terminated s')"
    by (rule lost) (use alive in \<open>simp_all add: counting_deps_def one_flight_def idle_daemon_def machine_def\<close>)
  ultimately show ?thesis by blast
qed

subsection \<open>Shutting down while a tunnel starts\<close>

text \<open>
  The shutdown takes the keys of the table first. A tunnel whose process has been started but
  is still within the startup window is not in the table yet: the call enters it afterwards
  and reports success, and the process outlives the daemon.
\<close>

theorem shutdown_race:
  assumes "processEntries s = []" "pid \<notin> set (terminated s)"
    and "px_spawn px host ip port (machine s) = (Inr pid, h1)" "px_await px pid h1 = (None, h2)" "pid \<in> running h2"
  shows "\<exists>s'. run (par [0, 0, 0, 0, 1, 0, 0]
        [pbind (ensureProcessProxy px key ip port host d) (\<lambda>r. Done (Some r)),
         pbind KillAllProcessProxies (\<lambda>_. Done None)]) s = ([Some (Inr ()), None], s')
    \<and> pid \<in> running (machine s') \<and> pid \<notin> set (terminated s')"
  using assms
  by (simp add: ensureProcessProxy_def wrap_err_def ebind_def KillAllProcessProxies_def
      call_def on_host_def await_startup_def lookup_entry_def AfterFunc_def add_entry_def)
     (cases h2, simp add: machine_def)

theorem shutdown_race_witness:
  "\<exists>s' :: nat set daemon. 0 \<in> outside s' \<and> 0 \<notin> set (terminated s')"
  using shutdown_race [of "idle_daemon Map.empty {} 0 :: nat set daemon" 0
      "counting_deps :: (nat set, unit) tunnel_deps" "''h''" "''a''" "''1''" "\<lparr>files = Map.empty, outside = {0}\<rparr>"
      "\<lparr>files = Map.empty, outside = {0}\<rparr>" outside]
  by (auto simp: idle_daemon_def counting_deps_def machine_def)

end
