(* ===== verification/Server.thy ===== *)
theory Server
  imports Capi ReadOnly Proxy
begin

text \<open>
  \<open>internal/server\<close> (\<open>server.go\<close>, \<open>resolve.go\<close>, \<open>kubeconfig.go\<close>, \<open>target.go\<close>): the
  core of the tool server, which discovers clusters and fetches kubeconfigs through the two
  caches and the tunnel manager.

  The state \<open>server\<close> extends that of the tunnel manager with the two caches. A
  \<open>tool_server\<close> holds what does not change: the configuration, the operating system, the
  Kubernetes libraries, the execer and what the tunnel manager was built with. A call is a
  program whose steps are the critical sections of the caches and of the tunnel manager and
  the calls to the outside.
\<close>

subsection \<open>State\<close>

record 'w server = "'w daemon" +
  cache_store :: caches

record ('c, 'w, 's) tool_server =
  ts_cfg :: app_config
  ts_os :: "'w host os"
  ts_kube :: "('c, 'w) kube"
  ts_execer :: "string \<Rightarrow> string list \<Rightarrow> exec_options \<Rightarrow> 'w host \<Rightarrow> exec_output res \<times> 'w host"
  ts_proxy :: "('w, 's) tunnel_deps"

type_synonym ('c, 'w, 'm) tools = "('c, 'w, ('w, 'm) server_scheme) tool_server"

definition lift_os :: "'w host os \<Rightarrow> ('w, 'm) host_scheme os" where
  "lift_os os = \<lparr>os_random = on_host (os_random os), os_read_fault = (\<lambda>p s. os_read_fault os p (machine s)),
     os_write_fault = (\<lambda>p s. os_write_fault os p (machine s)), os_tempdir = os_tempdir os, os_environ = os_environ os\<rparr>"

record resolved_cluster =
  rc_Cluster :: capi_cluster
  rc_Source :: kubeconfig_source

subsection \<open>Kubeconfig entries and contexts\<close>

text \<open>Indexing a Go map with an absent key yields the zero value.\<close>

definition zero_source :: kubeconfig_source where
  "zero_source = \<lparr>src_Name = '''', src_Path = '''', src_Contexts = [], src_SshuttleHost = ''''\<rparr>"

definition sortedKubeconfigs :: "app_config \<Rightarrow> kubeconfig_source list" where
  "sortedKubeconfigs cfg =
     map (\<lambda>n. case map_of (cfg_Kubeconfigs cfg) n of None \<Rightarrow> zero_source | Some src \<Rightarrow> src)
       (sort (map fst (cfg_Kubeconfigs cfg)))"

definition clientsForContext ::
    "('c, 'w, 's) tool_server \<Rightarrow> kubeconfig_source \<Rightarrow> string \<Rightarrow> (('w, 'm) host_scheme, 'c clients res) prog" where
  "clientsForContext ts = RealClientsForContext (lift_os (ts_os ts)) (ts_kube ts)"

definition resolveContexts ::
    "('c, 'w, 's) tool_server \<Rightarrow> kubeconfig_source \<Rightarrow> (('w, 'm) host_scheme, string list res) prog" where
  "resolveContexts ts src =
     (if src_Contexts src \<noteq> [] then Done (Inr (src_Contexts src))
      else ebind (call (\<lambda>s. (os_ReadFile (lift_os (ts_os ts)) (src_Path src) s, s)))
             (\<lambda>data. Done (GetContexts (ts_kube ts) data)))"

subsection \<open>The cluster list\<close>

definition clusters_Get :: "string \<Rightarrow> ('w, 'm) server_scheme \<Rightarrow> capi_cluster list option \<times> ('w, 'm) server_scheme" where
  "clusters_Get key s =
     (case Get (now s) key (ClusterList (cache_store s)) of
        (v, c) \<Rightarrow> (v, s\<lparr>cache_store := (cache_store s)\<lparr>ClusterList := c\<rparr>\<rparr>))"

definition clusters_Set :: "string \<Rightarrow> capi_cluster list \<Rightarrow> ('w, 'm) server_scheme \<Rightarrow> unit \<times> ('w, 'm) server_scheme" where
  "clusters_Set key v s =
     ((), s\<lparr>cache_store := (cache_store s)\<lparr>ClusterList := Set (now s) key v (ClusterList (cache_store s))\<rparr>\<rparr>)"

definition listClustersCached ::
    "('c, 'w, 'm) tools \<Rightarrow> kubeconfig_source \<Rightarrow> string \<Rightarrow> (('w, 'm) server_scheme, capi_cluster list res) prog" where
  "listClustersCached ts src contextName =
     (let key = ClusterListKey (src_Name src) contextName in
      pbind (call (clusters_Get key)) (\<lambda>cached.
      case cached of
        Some clusters \<Rightarrow> Done (Inr clusters)
      | None \<Rightarrow>
          ebind (clientsForContext ts src contextName) (\<lambda>clients.
          ebind (ListClustersForContext (ts_kube ts) (Dynamic clients) (src_Name src) contextName
                   (cfg_CustomFields (ts_cfg ts))) (\<lambda>clusters.
          pbind (call (clusters_Set key clusters)) (\<lambda>_. Done (Inr clusters))))))"

definition clusters_of_source ::
    "('c, 'w, 'm) tools \<Rightarrow> kubeconfig_source \<Rightarrow> (('w, 'm) server_scheme, resolved_cluster list res) prog" where
  "clusters_of_source ts src =
     ebind (resolveContexts ts src) (\<lambda>contexts.
     ebind (eloop (listClustersCached ts src) contexts) (\<lambda>lists.
     Done (Inr (map (\<lambda>c. \<lparr>rc_Cluster = c, rc_Source = src\<rparr>) (concat lists)))))"

definition allResolvedClusters :: "('c, 'w, 'm) tools \<Rightarrow> (('w, 'm) server_scheme, resolved_cluster list res) prog" where
  "allResolvedClusters ts =
     ebind (eloop (clusters_of_source ts) (sortedKubeconfigs (ts_cfg ts))) (\<lambda>lists.
     Done (Inr (concat lists)))"

definition ListTargets :: "('c, 'w, 'm) tools \<Rightarrow> (('w, 'm) server_scheme, string list res) prog" where
  "ListTargets ts =
     ebind (allResolvedClusters ts) (\<lambda>resolved. Done (Inr (map (\<lambda>r. FormatTarget (rc_Cluster r)) resolved)))"

definition allKnownClusters :: "('c, 'w, 'm) tools \<Rightarrow> (('w, 'm) server_scheme, capi_cluster list res) prog" where
  "allKnownClusters ts =
     ebind (allResolvedClusters ts) (\<lambda>resolved. Done (Inr (map rc_Cluster resolved)))"

definition resolveClusterPatterns ::
    "('c, 'w, 'm) tools \<Rightarrow> string list \<Rightarrow> bool \<Rightarrow> (('w, 'm) server_scheme, string list res) prog" where
  "resolveClusterPatterns ts patterns strict = ResolveClusterPatterns patterns (allKnownClusters ts) strict"

subsection \<open>Kubeconfigs\<close>

definition kubeconfig_Get :: "string \<Rightarrow> ('w, 'm) server_scheme \<Rightarrow> cached_kubeconfig option \<times> ('w, 'm) server_scheme" where
  "kubeconfig_Get key s =
     (case Get (now s) key (KubeconfigCache (cache_store s)) of
        (v, c) \<Rightarrow> (v, s\<lparr>cache_store := (cache_store s)\<lparr>KubeconfigCache := c\<rparr>\<rparr>))"

definition kubeconfig_Set :: "string \<Rightarrow> cached_kubeconfig \<Rightarrow> ('w, 'm) server_scheme \<Rightarrow> unit \<times> ('w, 'm) server_scheme" where
  "kubeconfig_Set key v s =
     ((), s\<lparr>cache_store := (cache_store s)\<lparr>KubeconfigCache := Set (now s) key v (KubeconfigCache (cache_store s))\<rparr>\<rparr>)"

definition kubeconfigTTL :: "app_config \<Rightarrow> duration" where
  "kubeconfigTTL cfg = seconds_duration (KubeconfigTTLSeconds (cfg_Cache cfg))"

definition effective_sshuttle_host :: "app_config \<Rightarrow> kubeconfig_source \<Rightarrow> string" where
  "effective_sshuttle_host cfg src =
     (if src_SshuttleHost src = '''' then cfg_SshuttleHost cfg else src_SshuttleHost src)"

definition transformed :: "('c, 'w, 's) tool_server \<Rightarrow> string \<Rightarrow> string res" where
  "transformed ts kc =
     (case cfg_Transforms (ts_cfg ts) of
        None \<Rightarrow> Inr kc
      | Some t \<Rightarrow> ApplyKubeconfigTransform (ts_kube ts) kc t)"

definition ensure_target :: "('c, 'w, 'm) tools \<Rightarrow> proxy_target \<Rightarrow> (('w, 'm) server_scheme, unit res) prog" where
  "ensure_target ts pt =
     EnsureProxy (ts_proxy ts) (pt_APIServerIP pt) (pt_APIServerPort pt) (pt_SshuttleHost pt)
       (kubeconfigTTL (ts_cfg ts))"

definition tunnel_for ::
    "('c, 'w, 'm) tools \<Rightarrow> string \<Rightarrow> 'c \<Rightarrow> string \<Rightarrow> string \<Rightarrow> (('w, 'm) server_scheme, proxy_target option res) prog" where
  "tunnel_for ts sshuttleHost dyn namespace clusterName =
     (if sshuttleHost = '''' then Done (Inr None)
      else ebind (FetchAPIServerInfo (ts_kube ts) dyn namespace clusterName) (\<lambda>info.
        case info of
          None \<Rightarrow> Done (Inr None)
        | Some (host, port) \<Rightarrow>
            let pt = \<lparr>pt_SshuttleHost = sshuttleHost, pt_APIServerIP = host, pt_APIServerPort = port\<rparr> in
            ebind (ensure_target ts pt) (\<lambda>_. Done (Inr (Some pt)))))"

definition cachedKubeconfig ::
    "('c, 'w, 'm) tools \<Rightarrow> kubeconfig_source \<Rightarrow> string \<Rightarrow> string \<Rightarrow> string \<Rightarrow> (('w, 'm) server_scheme, string res) prog" where
  "cachedKubeconfig ts src contextName namespace clusterName =
     (let sshuttleHost = effective_sshuttle_host (ts_cfg ts) src;
          key = KubeconfigKey (src_Name src) contextName namespace clusterName in
      pbind (call (kubeconfig_Get key)) (\<lambda>hit.
      case hit of
        Some cached \<Rightarrow>
          (case ProxyTarget cached of
             None \<Rightarrow> Done (Inr (Kubeconfig cached))
           | Some pt \<Rightarrow> ebind (ensure_target ts pt) (\<lambda>_. Done (Inr (Kubeconfig cached))))
      | None \<Rightarrow>
          ebind (clientsForContext ts src contextName) (\<lambda>clients.
          ebind (FetchWorkloadKubeconfig (ts_kube ts) (Core clients) namespace clusterName) (\<lambda>raw.
          ebind (Done (transformed ts raw)) (\<lambda>kc.
          ebind (tunnel_for ts sshuttleHost (Dynamic clients) namespace clusterName) (\<lambda>proxyTarget.
          pbind (call (kubeconfig_Set key \<lparr>Kubeconfig = kc, ProxyTarget = proxyTarget\<rparr>)) (\<lambda>_.
          Done (Inr kc))))))))"

definition readOnlyKubeconfig :: "('c, 'w, 'm) tools \<Rightarrow> string \<Rightarrow> (('w, 'm) server_scheme, string res) prog" where
  "readOnlyKubeconfig ts adminKC =
     ebind (Done (ClientsFromKubeconfigYAML (ts_kube ts) adminKC)) (\<lambda>(core, rbac).
       CreateReadOnlyKubeconfig (ts_kube ts) core rbac adminKC
         (duration_seconds (kubeconfigTTL (ts_cfg ts))))"

definition unknown_kubeconfig :: "string \<Rightarrow> goerr" where
  "unknown_kubeconfig name = Errorf [Txt ''unknown kubeconfig: '', Txt name]"

definition ResolveTarget :: "('c, 'w, 'm) tools \<Rightarrow> string \<Rightarrow> (('w, 'm) server_scheme, string res) prog" where
  "ResolveTarget ts target =
     (case ParseTarget target of
        Inl e \<Rightarrow> Done (Inl e)
      | Inr (kubeconfigName, contextName, namespace, name) \<Rightarrow>
          (case map_of (cfg_Kubeconfigs (ts_cfg ts)) kubeconfigName of
             None \<Rightarrow> Done (Inl (unknown_kubeconfig kubeconfigName))
           | Some src \<Rightarrow> cachedKubeconfig ts src contextName namespace name))"

subsection \<open>Steps that leave the caches alone\<close>

text \<open>\<open>keeps J p Q\<close>: every step of \<open>p\<close> keeps the property \<open>J\<close> of the caches.\<close>

abbreviation keeps :: "(caches \<Rightarrow> bool) \<Rightarrow> (('w, 'm) server_scheme, 'a) prog \<Rightarrow> ('a \<Rightarrow> bool) \<Rightarrow> bool" where
  "keeps J \<equiv> holds (\<lambda>s. J (cache_store s))"

lemma keeps_call:
  assumes "\<And>s. cache_store (snd (f s)) = cache_store s" "\<And>s. Q (fst (f s))"
  shows "keeps J (call f) Q"
  by (rule holds_call) (simp add: assms)

lemma keeps_api: "(\<And>w. Q (fst (f w))) \<Longrightarrow> keeps J (api f) Q"
  unfolding api_def by (rule keeps_call) simp_all

lemma cache_store_on_host [simp]: "cache_store (snd (on_host f s)) = cache_store s"
  by (simp add: on_host_def split: prod.split)

lemma keeps_on_host: "(\<And>h. Q (fst (f h))) \<Longrightarrow> keeps J (call (on_host f)) Q"
  by (rule keeps_call) simp_all

lemma keeps_quiet: "(\<And>s. cache_store (snd (f s)) = cache_store s) \<Longrightarrow> keeps J (call f) (\<lambda>_. True)"
  by (rule keeps_call) simp_all

lemma holds_True: "holds I p Q \<Longrightarrow> holds I p (\<lambda>_. True)"
  by (erule holds_conseq) simp

lemma on_ok_True [simp]: "on_ok (\<lambda>_. True) = (\<lambda>_. True)"
  by (rule ext) (simp add: on_ok_def split: sum.split)

lemma holds_ebind_True:
  "holds I p (\<lambda>_. True) \<Longrightarrow> (\<And>a. holds I (k a) (\<lambda>_. True)) \<Longrightarrow> holds I (ebind p k) (\<lambda>_. True)"
  using holds_ebind [of I p "\<lambda>_. True" k "\<lambda>_. True"] by simp

lemma holds_wrap_err_True: "holds I p (\<lambda>_. True) \<Longrightarrow> holds I (wrap_err fs p) (\<lambda>_. True)"
  using holds_wrap_err [of I p "\<lambda>_. True" fs] by simp

lemma holds_pbind_True:
  "holds I p (\<lambda>_. True) \<Longrightarrow> (\<And>a. holds I (k a) Q) \<Longrightarrow> holds I (pbind p k) Q"
  by (rule holds_pbind)

lemmas quiet_steps =
  lookup_entry_def load_timer_def Stop_def AfterFunc_def store_timer_def add_entry_def take_entry_def
  signal_entry_def timer_due_def drop_exited_def

lemma await_startup_quiet: "cache_store (snd (await_startup px pid t s)) = cache_store (s :: ('w, 'm) server_scheme)"
proof -
  have "cache_store s' = cache_store s" if "on_host (px_await px pid) s = (r, s')" for r s'
    using cache_store_on_host [of "px_await px pid" s] that by simp
  then show ?thesis by (auto simp: await_startup_def split: prod.split option.split)
qed

lemmas quiet_intros = holds_pbind_True holds_ebind_True holds_wrap_err_True keeps_quiet

lemma keeps_ensureProcessProxy: "keeps J (ensureProcessProxy px key ip port host d) (\<lambda>_. True)"
  unfolding ensureProcessProxy_def
  by (auto intro!: quiet_intros simp: quiet_steps await_startup_quiet split: option.split)

lemma keeps_ensureSystemdProxy: "keeps J (ensureSystemdProxy px ip port host d) (\<lambda>_. True)"
  unfolding ensureSystemdProxy_def isUnitActive_def Let_def
  by (auto intro!: quiet_intros)

lemma keeps_ensure_target: "keeps J (ensure_target ts pt) (\<lambda>_. True)"
  unfolding ensure_target_def EnsureProxy_def singleflight_Do_def Let_def
  by (auto intro!: quiet_intros keeps_ensureProcessProxy keeps_ensureSystemdProxy split: option.split)

lemma keeps_fetchOpenStackCluster: "keeps J (fetchOpenStackCluster K dyn ns nm) (\<lambda>_. True)"
  unfolding fetchOpenStackCluster_def by (auto intro!: quiet_intros keeps_api)

lemma keeps_FetchOpenStackEnv: "keeps J (FetchOpenStackEnv K dyn core ns nm) (\<lambda>_. True)"
  unfolding FetchOpenStackEnv_def Let_def
  by (auto intro!: quiet_intros keeps_api keeps_fetchOpenStackCluster split: option.split)

lemma keeps_FetchAPIServerInfo: "keeps J (FetchAPIServerInfo K dyn ns nm) (\<lambda>_. True)"
  unfolding FetchAPIServerInfo_def
  by (auto intro!: quiet_intros keeps_fetchOpenStackCluster)

lemma keeps_tunnel_for: "keeps J (tunnel_for ts host dyn ns nm) (\<lambda>_. True)"
  unfolding tunnel_for_def Let_def
  by (auto intro!: quiet_intros keeps_FetchAPIServerInfo keeps_ensure_target split: option.split)

lemma keeps_EnsureReadOnlyRBAC: "keeps J (EnsureReadOnlyRBAC K core rbac) (\<lambda>_. True)"
  unfolding EnsureReadOnlyRBAC_def ensure_service_account_def ensure_cluster_role_def ensure_binding_def
  by (auto intro!: quiet_intros keeps_api split: sum.split)

subsection \<open>Genuine data\<close>

text \<open>
  What a result may be: clients of a context that some content of the entry's kubeconfig file
  gives; a list of clusters that the API server of the context returned; a kubeconfig that the
  API server returned for exactly that cluster, transformed as configured.
\<close>

definition reachable_context ::
    "('c, 'w, 's) tool_server \<Rightarrow> kubeconfig_source \<Rightarrow> string \<Rightarrow> 'c clients \<Rightarrow> bool" where
  "reachable_context ts src ctx cl \<longleftrightarrow>
     (\<exists>h data. os_ReadFile (ts_os ts) (src_Path src) h = Inr data
        \<and> clientsFromKubeconfigBytes (ts_kube ts) data ctx = Inr cl)"

definition genuine_list ::
    "('c, 'w, 's) tool_server \<Rightarrow> kubeconfig_source \<Rightarrow> string \<Rightarrow> capi_cluster list \<Rightarrow> bool" where
  "genuine_list ts src ctx clusters \<longleftrightarrow>
     (\<exists>cl w items. reachable_context ts src ctx cl
        \<and> fst (k_list (ts_kube ts) (Dynamic cl) clusterGVR '''' '''' w) = Inr items
        \<and> list_all2 (listed_as (src_Name src) ctx) items clusters)"

definition secret_kubeconfig ::
    "('c, 'w, 's) tool_server \<Rightarrow> 'c \<Rightarrow> string \<Rightarrow> string \<Rightarrow> string \<Rightarrow> bool" where
  "secret_kubeconfig ts core ns nm raw \<longleftrightarrow>
     (\<exists>w data. fst (k_get_secret (ts_kube ts) core ns (nm @ ''-kubeconfig'') w) = Inr data
        \<and> map_of data ''value'' = Some raw \<and> raw \<noteq> '''')"

definition genuine ::
    "('c, 'w, 's) tool_server \<Rightarrow> kubeconfig_source \<Rightarrow> string \<Rightarrow> string \<Rightarrow> string \<Rightarrow> string \<Rightarrow> bool" where
  "genuine ts src ctx ns nm kc \<longleftrightarrow>
     (\<exists>cl raw. reachable_context ts src ctx cl \<and> secret_kubeconfig ts (Core cl) ns nm raw
        \<and> transformed ts raw = Inr kc)"

text \<open>What the code relies on: names of the configuration, and names of Kubernetes objects.\<close>

definition configured :: "('c, 'w, 's) tool_server \<Rightarrow> kubeconfig_source \<Rightarrow> bool" where
  "configured ts src \<longleftrightarrow> (\<exists>n. map_of (cfg_Kubeconfigs (ts_cfg ts)) n = Some src)"

definition config_names_ok :: "('c, 'w, 's) tool_server \<Rightarrow> bool" where
  "config_names_ok ts \<longleftrightarrow>
     (\<forall>n src. map_of (cfg_Kubeconfigs (ts_cfg ts)) n = Some src \<longrightarrow> src_Name src = n \<and> colon_free n)"

definition object_names_ok :: "('c, 'w, 's) tool_server \<Rightarrow> bool" where
  "object_names_ok ts \<longleftrightarrow>
     (\<forall>core ns nm w data. fst (k_get_secret (ts_kube ts) core ns (nm @ ''-kubeconfig'') w) = Inr data \<longrightarrow>
        colon_free ns \<and> colon_free nm)"

lemma configured_unique:
  "config_names_ok ts \<Longrightarrow> configured ts src \<Longrightarrow> configured ts src' \<Longrightarrow> src_Name src = src_Name src' \<Longrightarrow> src = src'"
  by (auto simp: config_names_ok_def configured_def)

lemma configured_colon_free: "config_names_ok ts \<Longrightarrow> configured ts src \<Longrightarrow> colon_free (src_Name src)"
  by (auto simp: config_names_ok_def configured_def)

text \<open>
  What a caller is promised. The keys of the cache do not tell a namespace or cluster name with
  a colon from a longer context, so the promise is about names that a cluster can have.
\<close>

definition served ::
    "('c, 'w, 's) tool_server \<Rightarrow> kubeconfig_source \<Rightarrow> string \<Rightarrow> string \<Rightarrow> string \<Rightarrow> string \<Rightarrow> bool" where
  "served ts src ctx ns nm kc \<longleftrightarrow> (colon_free ns \<and> colon_free nm \<longrightarrow> genuine ts src ctx ns nm kc)"

subsection \<open>The invariant of the caches\<close>

definition caches_genuine :: "('c, 'w, 's) tool_server \<Rightarrow> caches \<Rightarrow> bool" where
  "caches_genuine ts c \<longleftrightarrow>
     (\<forall>key e. store (ClusterList c) key = Some e \<longrightarrow>
        (\<exists>src ctx. configured ts src \<and> key = ClusterListKey (src_Name src) ctx \<and> genuine_list ts src ctx (val e)))
   \<and> (\<forall>key e. store (KubeconfigCache c) key = Some e \<longrightarrow>
        (\<exists>src ctx ns nm. configured ts src \<and> colon_free ns \<and> colon_free nm
           \<and> key = KubeconfigKey (src_Name src) ctx ns nm \<and> genuine ts src ctx ns nm (Kubeconfig (val e))))"

lemma caches_genuineD:
  assumes "caches_genuine ts c"
  shows "store (ClusterList c) key = Some e \<Longrightarrow>
      \<exists>src ctx. configured ts src \<and> key = ClusterListKey (src_Name src) ctx \<and> genuine_list ts src ctx (val e)"
    and "store (KubeconfigCache c) key' = Some e' \<Longrightarrow>
      \<exists>src ctx ns nm. configured ts src \<and> colon_free ns \<and> colon_free nm
        \<and> key' = KubeconfigKey (src_Name src) ctx ns nm \<and> genuine ts src ctx ns nm (Kubeconfig (val e'))"
  using assms unfolding caches_genuine_def by blast+

lemma Get_store: "Get t key c = (r, c') \<Longrightarrow> store c' k = Some e \<Longrightarrow> store c k = Some e"
  by (auto simp: Get_def split: option.splits if_splits)

lemma Get_hit: "Get t key c = (Some v, c') \<Longrightarrow> \<exists>e. store c key = Some e \<and> val e = v"
  by (auto simp: Get_def split: option.splits if_splits)

lemma Set_store: "store (Set t key v c) k = Some e \<Longrightarrow> (k = key \<and> val e = v) \<or> store c k = Some e"
  by (auto simp: Set_def split: if_splits)

lemma keeps_clusters_Get:
  assumes "config_names_ok ts" "configured ts src"
  shows "keeps (caches_genuine ts) (call (clusters_Get (ClusterListKey (src_Name src) ctx)))
    (\<lambda>hit. \<forall>clusters. hit = Some clusters \<longrightarrow> genuine_list ts src ctx clusters)"
proof (rule holds_call, intro conjI)
  fix s :: "('d, 'e) server_scheme" assume inv: "caches_genuine ts (cache_store s)"
  let ?key = "ClusterListKey (src_Name src) ctx"
  obtain hit c where get: "Get (now s) ?key (ClusterList (cache_store s)) = (hit, c)" by force
  show "caches_genuine ts (cache_store (snd (clusters_Get ?key s)))"
    using inv Get_store [OF get] by (auto simp: caches_genuine_def clusters_Get_def get)
  show "\<forall>clusters. fst (clusters_Get ?key s) = Some clusters \<longrightarrow> genuine_list ts src ctx clusters"
  proof (intro allI impI)
    fix clusters assume "fst (clusters_Get ?key s) = Some clusters"
    then have hit: "hit = Some clusters" by (simp add: clusters_Get_def get)
    from Get_hit [OF get [unfolded hit]] obtain e
      where e: "store (ClusterList (cache_store s)) ?key = Some e" "val e = clusters" by blast
    then obtain src' ctx' where "configured ts src'" "?key = ClusterListKey (src_Name src') ctx'"
      "genuine_list ts src' ctx' clusters"
      using caches_genuineD(1) [OF inv] by blast
    then show "genuine_list ts src ctx clusters"
      using ClusterListKey_inj [of "src_Name src" "src_Name src'" ctx ctx'] configured_unique [OF assms]
        configured_colon_free [OF assms] configured_colon_free [OF assms(1)] by metis
  qed
qed

lemma keeps_clusters_Set:
  assumes "configured ts src" "genuine_list ts src ctx clusters"
  shows "keeps (caches_genuine ts) (call (clusters_Set (ClusterListKey (src_Name src) ctx) clusters)) (\<lambda>_. True)"
proof (rule holds_call, simp)
  fix s :: "('d, 'e) server_scheme" assume inv: "caches_genuine ts (cache_store s)"
  show "caches_genuine ts (cache_store (snd (clusters_Set (ClusterListKey (src_Name src) ctx) clusters s)))"
    unfolding caches_genuine_def clusters_Set_def
    using caches_genuineD [OF inv] assms by (fastforce dest!: Set_store)
qed

lemma keeps_kubeconfig_Get:
  assumes "config_names_ok ts" "configured ts src"
  shows "keeps (caches_genuine ts) (call (kubeconfig_Get (KubeconfigKey (src_Name src) ctx ns nm)))
    (\<lambda>hit. \<forall>cached. hit = Some cached \<longrightarrow> served ts src ctx ns nm (Kubeconfig cached))"
proof (rule holds_call, intro conjI)
  fix s :: "('d, 'e) server_scheme" assume inv: "caches_genuine ts (cache_store s)"
  let ?key = "KubeconfigKey (src_Name src) ctx ns nm"
  obtain hit c where get: "Get (now s) ?key (KubeconfigCache (cache_store s)) = (hit, c)" by force
  show "caches_genuine ts (cache_store (snd (kubeconfig_Get ?key s)))"
    using inv Get_store [OF get] by (auto simp: caches_genuine_def kubeconfig_Get_def get)
  show "\<forall>cached. fst (kubeconfig_Get ?key s) = Some cached \<longrightarrow> served ts src ctx ns nm (Kubeconfig cached)"
    unfolding served_def
  proof (intro allI impI)
    fix cached assume names: "colon_free ns \<and> colon_free nm" and "fst (kubeconfig_Get ?key s) = Some cached"
    then have hit: "hit = Some cached" by (simp add: kubeconfig_Get_def get)
    from Get_hit [OF get [unfolded hit]] obtain e
      where e: "store (KubeconfigCache (cache_store s)) ?key = Some e" "val e = cached" by blast
    then obtain src' ctx' ns' nm' where k: "configured ts src'" "colon_free ns'" "colon_free nm'"
      "?key = KubeconfigKey (src_Name src') ctx' ns' nm'" "genuine ts src' ctx' ns' nm' (Kubeconfig cached)"
      using caches_genuineD(2) [OF inv] by blast
    have "(src_Name src, ctx, ns, nm) = (src_Name src', ctx', ns', nm')"
      using KubeconfigKey_inj [of "src_Name src" ns nm "src_Name src'" ns' nm' ctx ctx'] k(2-4) names
        configured_colon_free [OF assms(1)] assms(2) k(1) by blast
    then show "genuine ts src ctx ns nm (Kubeconfig cached)"
      using configured_unique [OF assms(1,2) k(1)] k(5) by simp
  qed
qed

lemma keeps_kubeconfig_Set:
  assumes "configured ts src" "colon_free ns" "colon_free nm" "genuine ts src ctx ns nm (Kubeconfig v)"
  shows "keeps (caches_genuine ts) (call (kubeconfig_Set (KubeconfigKey (src_Name src) ctx ns nm) v)) (\<lambda>_. True)"
proof (rule holds_call, simp)
  fix s :: "('d, 'e) server_scheme" assume inv: "caches_genuine ts (cache_store s)"
  show "caches_genuine ts (cache_store (snd (kubeconfig_Set (KubeconfigKey (src_Name src) ctx ns nm) v s)))"
    unfolding caches_genuine_def kubeconfig_Set_def
    using caches_genuineD [OF inv] assms by (fastforce dest!: Set_store)
qed

subsection \<open>Every operation keeps the caches genuine\<close>

lemma os_ReadFile_lift [simp]: "os_ReadFile (lift_os os) path s = os_ReadFile os path (machine s)"
  by (auto simp: os_ReadFile_def lift_os_def machine_def split: option.split)

lemma keeps_clientsForContext:
  "keeps J (clientsForContext ts src ctx) (on_ok (reachable_context ts src ctx))"
proof -
  have "keeps J (call (\<lambda>s. (os_ReadFile (lift_os (ts_os ts)) (src_Path src) s, s)))
      (on_ok (\<lambda>data. \<exists>h. os_ReadFile (ts_os ts) (src_Path src) h = Inr data))"
    by (rule keeps_call) (auto simp: on_ok_def split: sum.split)
  then show ?thesis
    unfolding clientsForContext_def RealClientsForContext_def
    by (rule holds_ebind [OF holds_wrap_err]) (auto simp: on_ok_def reachable_context_def split: sum.split)
qed

lemma keeps_resolveContexts: "keeps J (resolveContexts ts src) (\<lambda>_. True)"
  unfolding resolveContexts_def by (auto intro!: quiet_intros)

lemma attached_listed:
  "evalCustomFields K objs cf = Inr fvs \<Longrightarrow> list_all2 (listed_as kn ctx) items
    (attach_fields (map (\<lambda>it. bare_cluster kn ctx (item_Namespace it) (item_Name it)) items) fvs)"
  by (rule attach_fields_listed [OF evalCustomFields_values])

lemma keeps_ListClustersForContext:
  "keeps J (ListClustersForContext K dyn kn ctx cf)
    (on_ok (\<lambda>clusters. \<exists>w items. fst (k_list K dyn clusterGVR '''' '''' w) = Inr items \<and> list_all2 (listed_as kn ctx) items clusters))"
proof -
  have list: "keeps J (api (k_list K dyn clusterGVR '''' '''')) (on_ok (\<lambda>items. \<exists>w. fst (k_list K dyn clusterGVR '''' '''' w) = Inr items))"
    by (rule keeps_api) (auto simp: on_ok_def split: sum.split)
  have bare: "list_all2 (listed_as kn ctx) items
      (map (\<lambda>it. bare_cluster kn ctx (item_Namespace it) (item_Name it)) items)" for items
    by (auto simp: list_all2_conv_all_nth listed_as_def bare_cluster_def)
  show ?thesis
    unfolding ListClustersForContext_def Let_def
  proof (rule holds_ebind [OF holds_wrap_err [OF list]])
    fix items assume "\<exists>w. fst (k_list K dyn clusterGVR '''' '''' w) = Inr items"
    then show "keeps J
        (if map (\<lambda>it. bare_cluster kn ctx (item_Namespace it) (item_Name it)) items = [] \<or> cf = []
         then Done (Inr (map (\<lambda>it. bare_cluster kn ctx (item_Namespace it) (item_Name it)) items))
         else Done (res_bind (wrap_res [Txt ''capi: evaluating custom_fields: ''] (evalCustomFields K (map item_Object items) cf))
             (\<lambda>fieldValues. Inr (attach_fields (map (\<lambda>it. bare_cluster kn ctx (item_Namespace it) (item_Name it)) items) fieldValues))))
        (on_ok (\<lambda>clusters. \<exists>w items. fst (k_list K dyn clusterGVR '''' '''' w) = Inr items \<and> list_all2 (listed_as kn ctx) items clusters))"
      using bare [of items] by (auto simp: on_ok_def res_bind_def split: sum.split dest: attached_listed)
  qed
qed

lemma keeps_listClustersCached:
  assumes "config_names_ok ts" "configured ts src"
  shows "keeps (caches_genuine ts) (listClustersCached ts src ctx) (on_ok (genuine_list ts src ctx))"
  unfolding listClustersCached_def Let_def
proof (rule holds_pbind [OF keeps_clusters_Get [OF assms]], split option.split, intro conjI impI allI)
  show "keeps (caches_genuine ts)
      (ebind (clientsForContext ts src ctx) (\<lambda>clients.
        ebind (ListClustersForContext (ts_kube ts) (Dynamic clients) (src_Name src) ctx (cfg_CustomFields (ts_cfg ts))) (\<lambda>clusters.
        pbind (call (clusters_Set (ClusterListKey (src_Name src) ctx) clusters)) (\<lambda>_. Done (Inr clusters)))))
      (on_ok (genuine_list ts src ctx))"
  proof (rule holds_ebind [OF keeps_clientsForContext], rule holds_ebind [OF keeps_ListClustersForContext])
    fix cl clusters
    assume "reachable_context ts src ctx cl"
      and "\<exists>w items. fst (k_list (ts_kube ts) (Dynamic cl) clusterGVR '''' '''' w) = Inr items \<and> list_all2 (listed_as (src_Name src) ctx) items clusters"
    then have "genuine_list ts src ctx clusters" by (auto simp: genuine_list_def)
    then show "keeps (caches_genuine ts)
        (pbind (call (clusters_Set (ClusterListKey (src_Name src) ctx) clusters)) (\<lambda>_. Done (Inr clusters)))
        (on_ok (genuine_list ts src ctx))"
      by (intro holds_pbind [OF keeps_clusters_Set [OF assms(2)]]) simp_all
  qed
qed auto

lemma keeps_FetchWorkloadKubeconfig:
  "keeps J (FetchWorkloadKubeconfig (ts_kube ts) core ns nm) (on_ok (secret_kubeconfig ts core ns nm))"
proof -
  have "keeps J (api (k_get_secret (ts_kube ts) core ns (nm @ ''-kubeconfig'')))
      (on_ok (\<lambda>data. \<exists>w. fst (k_get_secret (ts_kube ts) core ns (nm @ ''-kubeconfig'') w) = Inr data))"
    by (rule keeps_api) (auto simp: on_ok_def split: sum.split)
  then show ?thesis
    unfolding FetchWorkloadKubeconfig_def Let_def
    by (rule holds_ebind [OF holds_wrap_err]) (auto simp: secret_kubeconfig_def split: option.split)
qed

lemma secret_names:
  "object_names_ok ts \<Longrightarrow> secret_kubeconfig ts core ns nm raw \<Longrightarrow> colon_free ns \<and> colon_free nm"
  unfolding object_names_ok_def secret_kubeconfig_def by blast

lemma keeps_cachedKubeconfig:
  assumes "config_names_ok ts" "object_names_ok ts" "configured ts src"
  shows "keeps (caches_genuine ts) (cachedKubeconfig ts src ctx ns nm) (on_ok (served ts src ctx ns nm))"
  unfolding cachedKubeconfig_def Let_def
proof (rule holds_pbind [OF keeps_kubeconfig_Get [OF assms(1,3)]], split option.split, intro conjI impI allI)
  let ?host = "effective_sshuttle_host (ts_cfg ts) src" and ?key = "KubeconfigKey (src_Name src) ctx ns nm"
  show "keeps (caches_genuine ts)
      (ebind (clientsForContext ts src ctx) (\<lambda>clients.
        ebind (FetchWorkloadKubeconfig (ts_kube ts) (Core clients) ns nm) (\<lambda>raw.
        ebind (Done (transformed ts raw)) (\<lambda>kc.
        ebind (tunnel_for ts ?host (Dynamic clients) ns nm) (\<lambda>proxyTarget.
        pbind (call (kubeconfig_Set ?key \<lparr>Kubeconfig = kc, ProxyTarget = proxyTarget\<rparr>)) (\<lambda>_. Done (Inr kc)))))))
      (on_ok (served ts src ctx ns nm))"
  proof (rule holds_ebind [OF keeps_clientsForContext], rule holds_ebind [OF keeps_FetchWorkloadKubeconfig],
      rule holds_ebind [where Q' = "\<lambda>kc. genuine ts src ctx ns nm kc"])
    fix cl raw
    assume "reachable_context ts src ctx cl" "secret_kubeconfig ts (Core cl) ns nm raw"
    then show "keeps (caches_genuine ts) (Done (transformed ts raw)) (on_ok (genuine ts src ctx ns nm))"
      by (auto simp: on_ok_def genuine_def split: sum.split)
  next
    fix cl raw kc assume raw: "secret_kubeconfig ts (Core cl) ns nm raw" and kc: "genuine ts src ctx ns nm kc"
    show "keeps (caches_genuine ts)
        (ebind (tunnel_for ts ?host (Dynamic cl) ns nm) (\<lambda>proxyTarget.
          pbind (call (kubeconfig_Set ?key \<lparr>Kubeconfig = kc, ProxyTarget = proxyTarget\<rparr>)) (\<lambda>_. Done (Inr kc))))
        (on_ok (served ts src ctx ns nm))"
      using secret_names [OF assms(2) raw]
      by (intro holds_ebind [where Q' = "\<lambda>_. True"])
         (auto intro!: keeps_tunnel_for holds_pbind [OF keeps_kubeconfig_Set] simp: assms kc served_def)
  qed
next
  fix hit :: "cached_kubeconfig option" and cached
  assume "\<forall>c. hit = Some c \<longrightarrow> served ts src ctx ns nm (Kubeconfig c)" "hit = Some cached"
  then have "served ts src ctx ns nm (Kubeconfig cached)" by simp
  then show "keeps (caches_genuine ts)
      (case ProxyTarget cached of
         None \<Rightarrow> Done (Inr (Kubeconfig cached))
       | Some pt \<Rightarrow> ebind (ensure_target ts pt) (\<lambda>_. Done (Inr (Kubeconfig cached))))
      (on_ok (served ts src ctx ns nm))"
    by (auto intro!: holds_ebind [where Q' = "\<lambda>_. True"] keeps_ensure_target split: option.split)
qed

text \<open>The promise for a composite target.\<close>

definition served_target :: "('c, 'w, 's) tool_server \<Rightarrow> string \<Rightarrow> string \<Rightarrow> bool" where
  "served_target ts target kc \<longleftrightarrow>
     (\<exists>kn ctx ns nm src. ParseTarget target = Inr (kn, ctx, ns, nm)
        \<and> map_of (cfg_Kubeconfigs (ts_cfg ts)) kn = Some src \<and> served ts src ctx ns nm kc)"

lemma keeps_ResolveTarget:
  assumes "config_names_ok ts" "object_names_ok ts"
  shows "keeps (caches_genuine ts) (ResolveTarget ts target) (on_ok (served_target ts target))"
proof (cases "ParseTarget target")
  case (Inl e)
  then show ?thesis by (simp add: ResolveTarget_def)
next
  case (Inr t)
  obtain kn ctx ns nm where t: "t = (kn, ctx, ns, nm)" by (cases t)
  show ?thesis
  proof (cases "map_of (cfg_Kubeconfigs (ts_cfg ts)) kn")
    case None
    with Inr t show ?thesis by (simp add: ResolveTarget_def)
  next
    case (Some src)
    then have "configured ts src" by (auto simp: configured_def)
    from keeps_cachedKubeconfig [OF assms this, of ctx ns nm]
    have "keeps (caches_genuine ts) (cachedKubeconfig ts src ctx ns nm) (on_ok (served_target ts target))"
      by (rule holds_conseq) (use Inr t Some in \<open>auto simp: on_ok_def served_target_def split: sum.splits\<close>)
    with Inr t Some show ?thesis by (simp add: ResolveTarget_def)
  qed
qed

text \<open>The promise for a listed cluster.\<close>

definition listed_cluster :: "('c, 'w, 's) tool_server \<Rightarrow> resolved_cluster \<Rightarrow> bool" where
  "listed_cluster ts r \<longleftrightarrow> configured ts (rc_Source r)
     \<and> KubeconfigName (rc_Cluster r) = src_Name (rc_Source r)
     \<and> (\<exists>clusters. rc_Cluster r \<in> set clusters
          \<and> genuine_list ts (rc_Source r) (Context (rc_Cluster r)) clusters)"

lemma genuine_list_names:
  "genuine_list ts src ctx clusters \<Longrightarrow> c \<in> set clusters \<Longrightarrow> KubeconfigName c = src_Name src \<and> Context c = ctx"
  by (auto simp: genuine_list_def list_all2_conv_all_nth listed_as_def in_set_conv_nth)

lemma keeps_clusters_of_source:
  assumes "config_names_ok ts" "configured ts src"
  shows "keeps (caches_genuine ts) (clusters_of_source ts src)
    (on_ok (\<lambda>rs. \<forall>r \<in> set rs. rc_Source r = src \<and> listed_cluster ts r))"
  unfolding clusters_of_source_def
proof (rule holds_ebind [where Q' = "\<lambda>_. True"])
  show "keeps (caches_genuine ts) (resolveContexts ts src) (on_ok (\<lambda>_. True))"
    by (simp add: keeps_resolveContexts)
next
  fix contexts
  have "keeps (caches_genuine ts) (eloop (listClustersCached ts src) contexts)
      (on_ok (list_all2 (genuine_list ts src) contexts))"
    by (rule holds_eloop) (rule keeps_listClustersCached [OF assms])
  then show "keeps (caches_genuine ts) (ebind (eloop (listClustersCached ts src) contexts) (\<lambda>lists.
        Done (Inr (map (\<lambda>c. \<lparr>rc_Cluster = c, rc_Source = src\<rparr>) (concat lists)))))
      (on_ok (\<lambda>rs. \<forall>r \<in> set rs. rc_Source r = src \<and> listed_cluster ts r))"
  proof (rule holds_ebind)
    fix lists assume all: "list_all2 (genuine_list ts src) contexts lists"
    have "listed_cluster ts \<lparr>rc_Cluster = c, rc_Source = src\<rparr>" if "c \<in> set cs" "cs \<in> set lists" for c cs
    proof -
      from that(2) all obtain ctx where "genuine_list ts src ctx cs"
        by (auto simp: list_all2_conv_all_nth in_set_conv_nth)
      with that(1) assms(2) genuine_list_names [OF this that(1)] show ?thesis
        by (auto simp: listed_cluster_def)
    qed
    then show "keeps (caches_genuine ts) (Done (Inr (map (\<lambda>c. \<lparr>rc_Cluster = c, rc_Source = src\<rparr>) (concat lists))))
        (on_ok (\<lambda>rs. \<forall>r \<in> set rs. rc_Source r = src \<and> listed_cluster ts r))"
      by auto
  qed
qed

lemma sortedKubeconfigs_configured: "src \<in> set (sortedKubeconfigs (ts_cfg ts)) \<Longrightarrow> configured ts src"
  by (force simp: sortedKubeconfigs_def configured_def map_of_eq_None_iff split: option.splits)

lemma keeps_allResolvedClusters:
  assumes "config_names_ok ts"
  shows "keeps (caches_genuine ts) (allResolvedClusters ts) (on_ok (\<lambda>rs. \<forall>r \<in> set rs. listed_cluster ts r))"
  unfolding allResolvedClusters_def
proof (rule holds_ebind [OF holds_eloop])
  fix src assume "src \<in> set (sortedKubeconfigs (ts_cfg ts))"
  then show "keeps (caches_genuine ts) (clusters_of_source ts src)
      (on_ok (\<lambda>rs. \<forall>r \<in> set rs. rc_Source r = src \<and> listed_cluster ts r))"
    by (intro keeps_clusters_of_source [OF assms] sortedKubeconfigs_configured)
next
  fix lists
  assume "list_all2 (\<lambda>src rs. \<forall>r \<in> set rs. rc_Source r = src \<and> listed_cluster ts r)
      (sortedKubeconfigs (ts_cfg ts)) lists"
  then show "keeps (caches_genuine ts) (Done (Inr (concat lists))) (on_ok (\<lambda>rs. \<forall>r \<in> set rs. listed_cluster ts r))"
    by (force simp: list_all2_conv_all_nth in_set_conv_nth)
qed

subsection \<open>Tunnels of served kubeconfigs\<close>

text \<open>Steps that touch the machine only keep the tunnels, the clock and the caches as they are.\<close>

definition machine_only :: "(('w, 'm) host_scheme, 'a) prog \<Rightarrow> bool" where
  "machine_only p \<longleftrightarrow> (\<forall>s. \<exists>fs w. snd (run p s) = s\<lparr>files := fs, outside := w\<rparr>)"

lemma machine_onlyD: "machine_only p \<Longrightarrow> run p s = (r, s') \<Longrightarrow> \<exists>fs w. s' = s\<lparr>files := fs, outside := w\<rparr>"
  unfolding machine_only_def by (metis snd_conv)

lemma machine_only_Done [simp]: "machine_only (Done a)"
  unfolding machine_only_def
proof
  fix s :: "('a, 'b) host_scheme"
  have "snd (run (Done a) s) = s\<lparr>files := files s, outside := outside s\<rparr>" by simp
  then show "\<exists>fs w. snd (run (Done a) s) = s\<lparr>files := fs, outside := w\<rparr>" by blast
qed

lemma machine_only_call_same: "machine_only (call (\<lambda>s. (f s, s)))"
  unfolding machine_only_def
proof
  fix s :: "('a, 'b) host_scheme"
  have "snd (run (call (\<lambda>s. (f s, s))) s) = s\<lparr>files := files s, outside := outside s\<rparr>" by simp
  then show "\<exists>fs w. snd (run (call (\<lambda>s. (f s, s))) s) = s\<lparr>files := fs, outside := w\<rparr>" by blast
qed

lemma machine_only_api: "machine_only (api f)"
  unfolding machine_only_def
proof
  fix s :: "('a, 'b) host_scheme"
  have "snd (run (api f) s) = s\<lparr>files := files s, outside := snd (f (outside s))\<rparr>" by simp
  then show "\<exists>fs w. snd (run (api f) s) = s\<lparr>files := fs, outside := w\<rparr>" by blast
qed

lemma machine_only_pbind:
  assumes "machine_only p" "\<And>a. machine_only (k a)"
  shows "machine_only (pbind p k)"
  unfolding machine_only_def
proof
  fix s :: "('a, 'b) host_scheme"
  obtain a s1 where p: "run p s = (a, s1)" by force
  obtain r s2 where k: "run (k a) s1 = (r, s2)" by force
  from machine_onlyD [OF assms(1) p] machine_onlyD [OF assms(2) k] obtain fs w
    where "s2 = s\<lparr>files := fs, outside := w\<rparr>" by auto
  then have "snd (run (pbind p k) s) = s\<lparr>files := fs, outside := w\<rparr>"
    using p k by (simp add: run_pbind)
  then show "\<exists>fs w. snd (run (pbind p k) s) = s\<lparr>files := fs, outside := w\<rparr>" by blast
qed

lemma machine_only_ebind: "machine_only p \<Longrightarrow> (\<And>a. machine_only (k a)) \<Longrightarrow> machine_only (ebind p k)"
  unfolding ebind_def by (rule machine_only_pbind) (auto split: sum.split)

lemma machine_only_wrap_err: "machine_only p \<Longrightarrow> machine_only (wrap_err fs p)"
  unfolding wrap_err_def by (rule machine_only_pbind) simp_all

lemmas machine_only_intros =
  machine_only_call_same machine_only_api machine_only_pbind machine_only_ebind machine_only_wrap_err

lemma machine_only_reads:
  "machine_only (clientsForContext ts src ctx)"
  "machine_only (FetchWorkloadKubeconfig K core ns nm)"
  "machine_only (FetchAPIServerInfo K dyn ns nm)"
  unfolding clientsForContext_def RealClientsForContext_def FetchWorkloadKubeconfig_def FetchAPIServerInfo_def
    fetchOpenStackCluster_def Let_def
  by (auto intro!: machine_only_intros)

lemma ensure_target_process:
  assumes "\<not> px_under_systemd (ts_proxy ts)" "\<And>key s. px_shared (ts_proxy ts) key s = None"
    and "run (ensure_target ts pt) s = (Inr (), s')" "tunnels_ok s"
  shows "tunnels_ok s' \<and> cache_store s' = cache_store s
    \<and> lease s' (targetKey (pt_APIServerIP pt) (pt_APIServerPort pt)) =
        Some (now s' + max 0 (sint (kubeconfigTTL (ts_cfg ts))))"
proof -
  let ?key = "targetKey (pt_APIServerIP pt) (pt_APIServerPort pt)"
  have run: "run (ensureProcessProxy (ts_proxy ts) ?key (pt_APIServerIP pt) (pt_APIServerPort pt)
      (pt_SshuttleHost pt) (kubeconfigTTL (ts_cfg ts))) s = (Inr (), s')"
    using assms(1-3) by (simp add: ensure_target_def EnsureProxy_def singleflight_Do_def run_pbind Let_def)
  have "cache_store s' = cache_store s"
    using holds_run [OF keeps_ensure_target [of "\<lambda>c. c = cache_store s" ts pt], of s] assms(3) by simp
  with ensureProcessProxy_ok [OF assms(4) run] show ?thesis by simp
qed

lemma tunnels_ok_caches [simp]: "tunnels_ok (s\<lparr>cache_store := c\<rparr>) = tunnels_ok s"
  by (simp add: tunnels_ok_def)

lemma lease_caches [simp]: "lease (s\<lparr>cache_store := c\<rparr>) = lease s"
  by (simp add: lease_def fun_eq_iff split: option.split)

definition tunnel_up :: "('c, 'w, 's) tool_server \<Rightarrow> ('w, 'm) server_scheme \<Rightarrow> proxy_target option \<Rightarrow> bool" where
  "tunnel_up ts s target \<longleftrightarrow>
     (case target of
        None \<Rightarrow> True
      | Some pt \<Rightarrow> lease s (targetKey (pt_APIServerIP pt) (pt_APIServerPort pt)) =
          Some (now s + max 0 (sint (kubeconfigTTL (ts_cfg ts)))))"

lemma run_tunnel_for:
  assumes "\<not> px_under_systemd (ts_proxy ts)" "\<And>key s. px_shared (ts_proxy ts) key s = None"
    and "run (tunnel_for ts host dyn ns nm) s = (Inr target, s')" "tunnels_ok s"
  shows "tunnels_ok s' \<and> tunnel_up ts s' target"
proof (cases "host = ''''")
  case True
  with assms(3,4) show ?thesis by (simp add: tunnel_for_def tunnel_up_def)
next
  case False
  obtain r s1 where info: "run (FetchAPIServerInfo (ts_kube ts) dyn ns nm) s = (r, s1)" by force
  from machine_onlyD [OF machine_only_reads(3) info] assms(4) have ok: "tunnels_ok s1" by auto
  from assms(3) False info obtain i where r: "r = Inr i"
    by (cases r) (auto simp: tunnel_for_def run_ebind)
  show ?thesis
  proof (cases i)
    case None
    with assms(3) False info r ok show ?thesis by (simp add: tunnel_for_def run_ebind tunnel_up_def)
  next
    case (Some hp)
    obtain h p where hp: "hp = (h, p)" by force
    let ?pt = "\<lparr>pt_SshuttleHost = host, pt_APIServerIP = h, pt_APIServerPort = p\<rparr>"
    obtain r2 s2 where en: "run (ensure_target ts ?pt) s1 = (r2, s2)" by force
    from assms(3) False info r Some hp en have eqs: "r2 = Inr ()" "target = Some ?pt" "s' = s2"
      by (auto simp: tunnel_for_def run_ebind Let_def split: sum.splits)
    from ensure_target_process [OF assms(1,2) en [unfolded eqs(1)] ok] eqs show ?thesis
      by (simp add: tunnel_up_def)
  qed
qed

text \<open>A successful call after a miss: every stage has succeeded, and its result is cached.\<close>

lemma cachedKubeconfig_miss:
  assumes "run (cachedKubeconfig ts src ctx ns nm) s = (Inr kc, s')"
    and get: "kubeconfig_Get (KubeconfigKey (src_Name src) ctx ns nm) s = (None, s1)" and "tunnels_ok s1"
  obtains dyn s3 target s4 where "tunnels_ok s3"
    "run (tunnel_for ts (effective_sshuttle_host (ts_cfg ts) src) dyn ns nm) s3 = (Inr target, s4)"
    "s' = snd (kubeconfig_Set (KubeconfigKey (src_Name src) ctx ns nm) \<lparr>Kubeconfig = kc, ProxyTarget = target\<rparr> s4)"
proof -
  note defs = cachedKubeconfig_def run_pbind run_ebind Let_def
  obtain r2 s2 where cl: "run (clientsForContext ts src ctx) s1 = (r2, s2)" by force
  with assms(1) get obtain clients where r2: "r2 = Inr clients" by (cases r2) (auto simp: defs)
  obtain r3 s3 where sec: "run (FetchWorkloadKubeconfig (ts_kube ts) (Core clients) ns nm) s2 = (r3, s3)" by force
  with assms(1) get cl r2 obtain raw where r3: "r3 = Inr raw" by (cases r3) (auto simp: defs)
  have ok3: "tunnels_ok s3"
    using machine_onlyD [OF machine_only_reads(1) cl] machine_onlyD [OF machine_only_reads(2) sec] assms(3) by auto
  obtain r4 s4 where tun: "run (tunnel_for ts (effective_sshuttle_host (ts_cfg ts) src) (Dynamic clients) ns nm) s3 = (r4, s4)" by force
  from assms(1) get cl r2 sec r3 obtain kc' where kc': "transformed ts raw = Inr kc'"
    by (cases "transformed ts raw") (auto simp: defs)
  with assms(1) get cl r2 sec r3 tun obtain target where r4: "r4 = Inr target" by (cases r4) (auto simp: defs)
  have "s' = snd (kubeconfig_Set (KubeconfigKey (src_Name src) ctx ns nm) \<lparr>Kubeconfig = kc, ProxyTarget = target\<rparr> s4)"
    using assms(1) get cl r2 sec r3 kc' tun r4 by (auto simp: defs split: prod.splits)
  from that [OF ok3 tun [unfolded r4] this] show thesis .
qed


definition sample_config :: app_config where
  "sample_config = \<lparr>cfg_Kubeconfigs = [(''prod'', \<lparr>src_Name = ''prod'', src_Path = ''/kc'', src_Contexts = [''admin''],
       src_SshuttleHost = ''''\<rparr>)],
     cfg_Transforms = None, cfg_CustomFields = [], cfg_SshuttleHost = ''jump'',
     cfg_Cache = \<lparr>ClusterListTTLSeconds = 300, KubeconfigTTLSeconds = 60\<rparr>\<rparr>"

definition sample_tools :: "(unit, unit, unit server) tool_server" where
  "sample_tools = \<lparr>ts_cfg = sample_config, ts_os = sample_os, ts_kube = offline_kube,
     ts_execer = (\<lambda>_ _ _ h. (Inl refused, h)), ts_proxy = sample_deps\<rparr>"

definition sample_server :: "unit server" where
  "sample_server =
     \<lparr>files = Map.empty, outside = (), now = 0, processEntries = [],
      entry_at = (\<lambda>_. \<lparr>pe_process = 0, pe_timer = 0\<rparr>), armed = Map.empty, next_ref = 0, terminated = [],
      cache_store = \<lparr>ClusterList = New 300, KubeconfigCache = \<lparr>ttl = 60, store =
        [''prod:admin:team:web'' \<mapsto> \<lparr>val = \<lparr>Kubeconfig = ''kc'', ProxyTarget =
           Some \<lparr>pt_SshuttleHost = ''jump'', pt_APIServerIP = ''10.0.0.1'', pt_APIServerPort = ''6443''\<rparr>\<rparr>, expiresAt = 5\<rparr>]\<rparr>\<rparr>\<rparr>"


end
