(* ===== verification/Tools.thy ===== *)
theory Tools
  imports Server
begin

text \<open>
  \<open>internal/server/tools.go\<close>, \<open>types.go\<close> and \<open>build.go\<close>: the five tools.

  A fan-out runs one program for each target under a schedule, which every theorem quantifies
  over. A tool answers with a payload (the value the code passes to \<open>json.MarshalIndent\<close>,
  which cannot fail on these types, or a plain text) and the error flag of the MCP protocol;
  the theory \<open>Wire\<close> gives the texts.
\<close>

subsection \<open>Tool results\<close>

record list_clusters_entry =
  le_Cluster :: capi_cluster
  le_Target :: string

record kubeconfig_result =
  kr_Cluster :: string
  kr_Kubeconfig :: string
  kr_Error :: string

record cluster_id =
  id_Kubeconfig :: string
  id_Context :: string
  id_Namespace :: string
  id_Name :: string

record cluster_exec_result =
  cx_Cluster :: cluster_id
  cx_Stdout :: "string option"
  cx_Stderr :: "string option"
  cx_ExitCode :: "int option"
  cx_Error :: "string option"

datatype payload =
    Plain string
  | Cluster_Entries "list_clusters_entry list"
  | Kubeconfig_Results "kubeconfig_result list"
  | Exec_Results "cluster_exec_result list"

record tool_result =
  res_Content :: payload
  res_IsError :: bool

definition textResult :: "payload \<Rightarrow> bool \<Rightarrow> tool_result" where
  "textResult p isError = \<lparr>res_Content = p, res_IsError = isError\<rparr>"

definition error_text :: "('c, 'w, 's) tool_server \<Rightarrow> goerr \<Rightarrow> string" where
  "error_text ts = err_text (k_quote (ts_kube ts))"

subsection \<open>list\_clusters\<close>

definition keep_matching :: "string list \<Rightarrow> resolved_cluster list \<Rightarrow> resolved_cluster list" where
  "keep_matching matched resolved = filter (\<lambda>r. FormatTarget (rc_Cluster r) \<in> set matched) resolved"

definition cluster_entries :: "resolved_cluster list \<Rightarrow> list_clusters_entry list" where
  "cluster_entries resolved =
     map (\<lambda>r. \<lparr>le_Cluster = rc_Cluster r, le_Target = FormatTarget (rc_Cluster r)\<rparr>) resolved"

definition ListClusters :: "('c, 'w, 'm) tools \<Rightarrow> string list \<Rightarrow> (('w, 'm) server_scheme, tool_result res) prog" where
  "ListClusters ts clusters =
     ebind (allResolvedClusters ts) (\<lambda>resolved.
       if clusters = [] then Done (Inr (textResult (Cluster_Entries (cluster_entries resolved)) False))
       else pbind (ResolveClusterPatterns clusters (Done (Inr (map rc_Cluster resolved))) False) (\<lambda>matched.
         Done (case matched of
             Inl e \<Rightarrow> Inr (textResult (Plain (error_text ts e)) True)
           | Inr ts' \<Rightarrow>
               Inr (textResult (Cluster_Entries (cluster_entries (keep_matching ts' resolved))) False))))"

subsection \<open>get\_cluster\_kubeconfig\<close>

definition kubeconfig_task ::
    "('c, 'w, 'm) tools \<Rightarrow> bool \<Rightarrow> string \<Rightarrow> (('w, 'm) server_scheme, kubeconfig_result) prog" where
  "kubeconfig_task ts readonly target =
     (let failed = (\<lambda>e. \<lparr>kr_Cluster = target, kr_Kubeconfig = '''', kr_Error = error_text ts e\<rparr>);
          ok = (\<lambda>kc. \<lparr>kr_Cluster = target, kr_Kubeconfig = kc, kr_Error = ''''\<rparr>) in
      pbind (ResolveTarget ts target) (\<lambda>r.
      case r of
        Inl e \<Rightarrow> Done (failed e)
      | Inr adminKC \<Rightarrow>
          if \<not> readonly then Done (ok adminKC)
          else pbind (readOnlyKubeconfig ts adminKC) (\<lambda>ro.
            Done (case ro of Inl e \<Rightarrow> failed e | Inr roKC \<Rightarrow> ok roKC))))"

definition getClusterKubeconfigFanOut ::
    "('c, 'w, 'm) tools \<Rightarrow> nat list \<Rightarrow> string list \<Rightarrow> bool \<Rightarrow> (('w, 'm) server_scheme, tool_result res) prog" where
  "getClusterKubeconfigFanOut ts sched clusters readonly =
     pbind (resolveClusterPatterns ts clusters False) (\<lambda>r.
     case r of
       Inl e \<Rightarrow> Done (Inr (textResult (Plain (error_text ts e)) True))
     | Inr targets \<Rightarrow>
         pbind (par sched (map (kubeconfig_task ts readonly) targets)) (\<lambda>results.
         Done (Inr (textResult (Kubeconfig_Results results) (list_ex (\<lambda>r. kr_Error r \<noteq> '''') results)))))"

definition GetClusterKubeconfig ::
    "('c, 'w, 'm) tools \<Rightarrow> nat list \<Rightarrow> string list \<Rightarrow> (('w, 'm) server_scheme, tool_result res) prog" where
  "GetClusterKubeconfig ts sched clusters = getClusterKubeconfigFanOut ts sched clusters False"

definition GetClusterKubeconfigReadonly ::
    "('c, 'w, 'm) tools \<Rightarrow> nat list \<Rightarrow> string list \<Rightarrow> (('w, 'm) server_scheme, tool_result res) prog" where
  "GetClusterKubeconfigReadonly ts sched clusters = getClusterKubeconfigFanOut ts sched clusters True"

subsection \<open>exec\_in\_cluster\<close>

record exec_input =
  in_Clusters :: "string list"
  in_Command :: "string list"
  in_Stdin :: string

definition clusterErrResult :: "('c, 'w, 's) tool_server \<Rightarrow> cluster_id \<Rightarrow> goerr \<Rightarrow> cluster_exec_result" where
  "clusterErrResult ts i e =
     \<lparr>cx_Cluster = i, cx_Stdout = None, cx_Stderr = None, cx_ExitCode = None, cx_Error = Some (error_text ts e)\<rparr>"

definition nonEmptyPtr :: "string \<Rightarrow> string option" where
  "nonEmptyPtr s = (if s = '''' then None else Some s)"

definition zero_id :: cluster_id where
  "zero_id = \<lparr>id_Kubeconfig = '''', id_Context = '''', id_Namespace = '''', id_Name = ''''\<rparr>"

text \<open>The kubeconfig and the OpenStack environment a command runs with.\<close>

definition exec_access ::
    "('c, 'w, 'm) tools \<Rightarrow> kubeconfig_source \<Rightarrow> string \<Rightarrow> string \<Rightarrow> string \<Rightarrow> bool
     \<Rightarrow> (('w, 'm) server_scheme, (string \<times> string gomap) res) prog" where
  "exec_access ts src contextName namespace name readonly =
     ebind (cachedKubeconfig ts src contextName namespace name) (\<lambda>kc.
     if readonly then
       ebind (readOnlyKubeconfig ts kc) (\<lambda>roKC. Done (Inr (roKC, [])))
     else
       ebind (clientsForContext ts src contextName) (\<lambda>clients.
       ebind (FetchOpenStackEnv (ts_kube ts) (Dynamic clients) (Core clients) namespace name) (\<lambda>osEnv.
       Done (Inr (kc, osEnv)))))"

definition execOneTarget ::
    "('c, 'w, 'm) tools \<Rightarrow> string list \<Rightarrow> string \<Rightarrow> bool \<Rightarrow> string \<Rightarrow> (('w, 'm) server_scheme, cluster_exec_result) prog" where
  "execOneTarget ts command stdin readonly target =
     (case ParseTarget target of
        Inl e \<Rightarrow> Done (clusterErrResult ts zero_id e)
      | Inr (kubeconfigName, contextName, namespace, name) \<Rightarrow>
          let i = \<lparr>id_Kubeconfig = kubeconfigName, id_Context = contextName, id_Namespace = namespace, id_Name = name\<rparr> in
          (case map_of (cfg_Kubeconfigs (ts_cfg ts)) kubeconfigName of
             None \<Rightarrow> Done (clusterErrResult ts i (unknown_kubeconfig kubeconfigName))
           | Some src \<Rightarrow>
               pbind (ebind (exec_access ts src contextName namespace name readonly) (\<lambda>(kc, osEnv).
                        WithKubeconfig (lift_os (ts_os ts)) (\<lambda>f args opts. on_host (ts_execer ts f args opts))
                          (error_text ts) kc osEnv command stdin)) (\<lambda>r.
               Done (case r of
                   Inl e \<Rightarrow> clusterErrResult ts i e
                 | Inr oc \<Rightarrow>
                     \<lparr>cx_Cluster = i, cx_Stdout = nonEmptyPtr (oc_Stdout oc), cx_Stderr = nonEmptyPtr (oc_Stderr oc),
                      cx_ExitCode = Some (oc_ExitCode oc), cx_Error = None\<rparr>))))"

definition exec_failed :: "cluster_exec_result \<Rightarrow> bool" where
  "exec_failed r \<longleftrightarrow> cx_Error r \<noteq> None \<or> (case cx_ExitCode r of None \<Rightarrow> False | Some code \<Rightarrow> code \<noteq> 0)"

definition execInClusterFanOut ::
    "('c, 'w, 'm) tools \<Rightarrow> nat list \<Rightarrow> exec_input \<Rightarrow> bool \<Rightarrow> (('w, 'm) server_scheme, tool_result res) prog" where
  "execInClusterFanOut ts sched inp readonly =
     (if in_Command inp = [] then
        Done (Inl (Errorf [Txt ''exec_in_cluster: command must be non-empty'']))
      else if in_Clusters inp = [] then
        Done (Inr (textResult (Plain ''clusters is required and must be a non-empty array of full kubeconfig/context/namespace/name paths'') True))
      else
        pbind (ResolveClusterPatterns (in_Clusters inp) (Done (Inl (Lib_Error ''nil''))) True) (\<lambda>r.
        case r of
          Inl e \<Rightarrow> Done (Inr (textResult (Plain (error_text ts e)) True))
        | Inr targets \<Rightarrow>
            pbind (par sched (map (execOneTarget ts (in_Command inp) (in_Stdin inp) readonly) targets)) (\<lambda>results.
            Done (Inr (textResult (Exec_Results results) (list_ex exec_failed results))))))"

definition ExecInCluster ::
    "('c, 'w, 'm) tools \<Rightarrow> nat list \<Rightarrow> exec_input \<Rightarrow> (('w, 'm) server_scheme, tool_result res) prog" where
  "ExecInCluster ts sched inp = execInClusterFanOut ts sched inp False"

definition ExecInClusterReadonly ::
    "('c, 'w, 'm) tools \<Rightarrow> nat list \<Rightarrow> exec_input \<Rightarrow> (('w, 'm) server_scheme, tool_result res) prog" where
  "ExecInClusterReadonly ts sched inp = execInClusterFanOut ts sched inp True"

subsection \<open>The server\<close>

datatype tool_call =
    List_Clusters_Call "string list"
  | Get_Kubeconfig_Call "string list"
  | Get_Kubeconfig_Readonly_Call "string list"
  | Exec_Call exec_input
  | Exec_Readonly_Call exec_input

fun BuildServer :: "('c, 'w, 'm) tools \<Rightarrow> nat list \<Rightarrow> tool_call \<Rightarrow> (('w, 'm) server_scheme, tool_result res) prog" where
  "BuildServer ts sched (List_Clusters_Call clusters) = ListClusters ts clusters"
| "BuildServer ts sched (Get_Kubeconfig_Call clusters) = GetClusterKubeconfig ts sched clusters"
| "BuildServer ts sched (Get_Kubeconfig_Readonly_Call clusters) = GetClusterKubeconfigReadonly ts sched clusters"
| "BuildServer ts sched (Exec_Call inp) = ExecInCluster ts sched inp"
| "BuildServer ts sched (Exec_Readonly_Call inp) = ExecInClusterReadonly ts sched inp"

subsection \<open>What a tool may deliver\<close>

text \<open>A read-only kubeconfig made from an admin kubeconfig, and what a fan-out delivers.\<close>

definition readonly_from :: "('c, 'w, 's) tool_server \<Rightarrow> string \<Rightarrow> string \<Rightarrow> bool" where
  "readonly_from ts admin kc \<longleftrightarrow>
     (\<exists>core rbac w info rest tok.
        ClientsFromKubeconfigYAML (ts_kube ts) admin = Inr (core, rbac)
      \<and> k_yaml_admin_clusters (ts_kube ts) admin = Inr (info # rest)
      \<and> fst (k_create_token (ts_kube ts) core readOnlyNamespace readOnlySAName
            (duration_seconds (kubeconfigTTL (ts_cfg ts))) w) = Inr tok
      \<and> trim_space tok \<noteq> ''''
      \<and> k_yaml_encode (ts_kube ts) (readonly_document info (trim_space tok)) = Inr kc)"

definition delivered :: "('c, 'w, 's) tool_server \<Rightarrow> bool \<Rightarrow> string \<Rightarrow> string \<Rightarrow> bool" where
  "delivered ts readonly target kc \<longleftrightarrow>
     (if readonly then \<exists>admin. served_target ts target admin \<and> readonly_from ts admin kc
      else served_target ts target kc)"

lemma keeps_readOnlyKubeconfig: "keeps J (readOnlyKubeconfig ts admin) (on_ok (readonly_from ts admin))"
proof (cases "ClientsFromKubeconfigYAML (ts_kube ts) admin")
  case (Inl e)
  then show ?thesis by (simp add: readOnlyKubeconfig_def)
next
  case (Inr cl)
  obtain core rbac where cl: "cl = (core, rbac)" by (cases cl)
  let ?K = "ts_kube ts" and ?secs = "duration_seconds (kubeconfigTTL (ts_cfg ts))"
  have token: "keeps J (api (k_create_token ?K core readOnlyNamespace readOnlySAName ?secs))
      (on_ok (\<lambda>tok. \<exists>w. fst (k_create_token ?K core readOnlyNamespace readOnlySAName ?secs w) = Inr tok))"
    by (rule keeps_api) (auto simp: on_ok_def split: sum.split)
  have "keeps J (CreateReadOnlyKubeconfig ?K core rbac admin ?secs) (on_ok (readonly_from ts admin))"
  proof (cases "k_yaml_admin_clusters ?K admin")
    case (Inl e)
    then show ?thesis by (simp add: CreateReadOnlyKubeconfig_def)
  next
    case cs: (Inr cs)
    show ?thesis
    proof (cases cs)
      case Nil
      with cs show ?thesis by (simp add: CreateReadOnlyKubeconfig_def)
    next
      case (Cons info rest)
      have made: "readonly_from ts admin kc"
        if "fst (k_create_token ?K core readOnlyNamespace readOnlySAName ?secs w) = Inr tok"
          "trim_space tok \<noteq> ''''" "k_yaml_encode ?K (readonly_document info (trim_space tok)) = Inr kc" for w tok kc
        using that Inr cl cs Cons unfolding readonly_from_def by blast
      show ?thesis
        unfolding CreateReadOnlyKubeconfig_def
        using cs Cons keeps_EnsureReadOnlyRBAC
        by (auto intro!: holds_ebind [where Q' = "\<lambda>_. True"] holds_ebind [OF holds_wrap_err [OF token]]
            intro: made simp: Let_def on_ok_def wrap_res_def split: sum.split)
    qed
  qed
  with Inr cl show ?thesis by (simp add: readOnlyKubeconfig_def)
qed

lemma keeps_kubeconfig_task:
  assumes "config_names_ok ts" "object_names_ok ts"
  shows "keeps (caches_genuine ts) (kubeconfig_task ts readonly target)
    (\<lambda>r. kr_Cluster r = target \<and> (kr_Kubeconfig r \<noteq> '''' \<longrightarrow> delivered ts readonly target (kr_Kubeconfig r)))"
  unfolding kubeconfig_task_def Let_def
proof (rule holds_pbind [OF keeps_ResolveTarget [OF assms]], split sum.split, intro conjI impI allI)
  fix r admin assume "on_ok (served_target ts target) r" "r = Inr admin"
  then have admin: "served_target ts target admin" by simp
  show "keeps (caches_genuine ts)
      (if \<not> readonly then Done \<lparr>kr_Cluster = target, kr_Kubeconfig = admin, kr_Error = ''''\<rparr>
       else pbind (readOnlyKubeconfig ts admin) (\<lambda>ro. Done (case ro of
           Inl e \<Rightarrow> \<lparr>kr_Cluster = target, kr_Kubeconfig = '''', kr_Error = error_text ts e\<rparr>
         | Inr roKC \<Rightarrow> \<lparr>kr_Cluster = target, kr_Kubeconfig = roKC, kr_Error = ''''\<rparr>)))
      (\<lambda>r. kr_Cluster r = target \<and> (kr_Kubeconfig r \<noteq> '''' \<longrightarrow> delivered ts readonly target (kr_Kubeconfig r)))"
  proof (cases readonly)
    case False
    with admin show ?thesis by (simp add: delivered_def)
  next
    case True
    then show ?thesis
      using admin by (auto intro!: holds_pbind [OF keeps_readOnlyKubeconfig] simp: on_ok_def delivered_def split: sum.splits)
  qed
qed auto

definition fanout_delivers :: "('c, 'w, 's) tool_server \<Rightarrow> bool \<Rightarrow> tool_result \<Rightarrow> bool" where
  "fanout_delivers ts readonly out \<longleftrightarrow>
     (case res_Content out of
        Kubeconfig_Results rs \<Rightarrow>
          (\<forall>r \<in> set rs. kr_Kubeconfig r \<noteq> '''' \<longrightarrow> delivered ts readonly (kr_Cluster r) (kr_Kubeconfig r))
      | _ \<Rightarrow> res_IsError out)"

lemma keeps_allKnownClusters:
  "config_names_ok ts \<Longrightarrow> keeps (caches_genuine ts) (allKnownClusters ts) (\<lambda>_. True)"
  unfolding allKnownClusters_def
  by (intro holds_ebind_True holds_True [OF keeps_allResolvedClusters]) simp_all

lemma keeps_resolveClusterPatterns:
  "config_names_ok ts \<Longrightarrow> keeps (caches_genuine ts) (resolveClusterPatterns ts patterns strict) (\<lambda>_. True)"
  unfolding resolveClusterPatterns_def ResolveClusterPatterns_def Let_def
  by (auto intro!: holds_ebind_True keeps_allKnownClusters split: sum.split)

lemma keeps_fanout:
  assumes "config_names_ok ts" "object_names_ok ts"
  shows "keeps (caches_genuine ts) (getClusterKubeconfigFanOut ts sched clusters readonly)
    (on_ok (fanout_delivers ts readonly))"
  unfolding getClusterKubeconfigFanOut_def
proof (rule holds_pbind [OF keeps_resolveClusterPatterns [OF assms(1)]], split sum.split, intro conjI impI allI)
  fix targets
  have "pool_holds (\<lambda>s. caches_genuine ts (cache_store s)) (map (kubeconfig_task ts readonly) targets)
      (\<lambda>i r. kr_Kubeconfig r \<noteq> '''' \<longrightarrow> delivered ts readonly (kr_Cluster r) (kr_Kubeconfig r))"
    unfolding pool_holds_def
    by (auto intro: holds_conseq [OF keeps_kubeconfig_task [OF assms]])
  from holds_par [OF this, of sched]
  show "keeps (caches_genuine ts) (pbind (par sched (map (kubeconfig_task ts readonly) targets)) (\<lambda>results.
      Done (Inr (textResult (Kubeconfig_Results results) (list_ex (\<lambda>r. kr_Error r \<noteq> '''') results)))))
      (on_ok (fanout_delivers ts readonly))"
    by (rule holds_pbind) (auto simp: fanout_delivers_def textResult_def in_set_conv_nth)
qed (simp add: fanout_delivers_def textResult_def)

lemma cache_store_put_file [simp]: "cache_store (put_file p c m s) = cache_store s"
  by (simp add: put_file_def)

lemma keeps_WithKubeconfig:
  "keeps J (WithKubeconfig (lift_os os) (\<lambda>f args opts. on_host (ex f args opts)) et kc env command stdin) (\<lambda>_. True)"
proof -
  have "keeps J (writeTempKubeconfig (lift_os os) c) (\<lambda>_. True)" for c
    unfolding writeTempKubeconfig_def Let_def
    by (auto intro!: quiet_intros simp: lift_os_def os_WriteFile_def split: option.split)
  then show ?thesis
    unfolding WithKubeconfig_def
    by (auto intro!: quiet_intros simp: os_Remove_def split: list.split sum.split)
qed

text \<open>
  The kubeconfig and the environment that a command gets: the OpenStack credentials are read
  with clients of the cluster's own context, and only for commands that may write.
\<close>

definition openstack_of ::
    "('c, 'w, 'm) tools \<Rightarrow> kubeconfig_source \<Rightarrow> string \<Rightarrow> string \<Rightarrow> string \<Rightarrow> string gomap \<Rightarrow> bool" where
  "openstack_of ts src ctx ns nm env \<longleftrightarrow>
     (\<exists>cl. yields (clientsForContext ts src ctx :: (('w, 'm) server_scheme, 'c clients res) prog) (Inr cl)
       \<and> yields (FetchOpenStackEnv (ts_kube ts) (Dynamic cl) (Core cl) ns nm :: (('w, 'm) server_scheme, string gomap res) prog) (Inr env))"

definition exec_grant ::
    "('c, 'w, 'm) tools \<Rightarrow> kubeconfig_source \<Rightarrow> string \<Rightarrow> string \<Rightarrow> string \<Rightarrow> bool \<Rightarrow> string \<times> string gomap \<Rightarrow> bool" where
  "exec_grant ts src ctx ns nm readonly g \<longleftrightarrow>
     (if readonly then snd g = [] \<and> (\<exists>admin. served ts src ctx ns nm admin \<and> readonly_from ts admin (fst g))
      else served ts src ctx ns nm (fst g) \<and> openstack_of ts src ctx ns nm (snd g))"

lemma keeps_exec_access:
  fixes ts :: "('c, 'w, 'm) tools"
  assumes "config_names_ok ts" "object_names_ok ts" "configured ts src"
  shows "keeps (caches_genuine ts) (exec_access ts src ctx ns nm readonly) (on_ok (exec_grant ts src ctx ns nm readonly))"
  unfolding exec_access_def
proof (rule holds_ebind [OF keeps_cachedKubeconfig [OF assms]])
  fix kc assume kc: "served ts src ctx ns nm kc"
  show "keeps (caches_genuine ts)
      (if readonly then ebind (readOnlyKubeconfig ts kc) (\<lambda>roKC. Done (Inr (roKC, [])))
       else ebind (clientsForContext ts src ctx) (\<lambda>clients.
         ebind (FetchOpenStackEnv (ts_kube ts) (Dynamic clients) (Core clients) ns nm) (\<lambda>osEnv. Done (Inr (kc, osEnv)))))
      (on_ok (exec_grant ts src ctx ns nm readonly))"
  proof (cases readonly)
    case True
    then show ?thesis
      using kc by (auto intro!: holds_ebind [OF keeps_readOnlyKubeconfig] simp: exec_grant_def)
  next
    case False
    let ?clients = "clientsForContext ts src ctx :: (('w, 'm) server_scheme, 'c clients res) prog"
    have env: "keeps (caches_genuine ts) (FetchOpenStackEnv (ts_kube ts) (Dynamic cl) (Core cl) ns nm :: (('w, 'm) server_scheme, string gomap res) prog)
        (on_ok (openstack_of ts src ctx ns nm))" if "yields ?clients (Inr cl)" for cl
      by (rule holds_conseq [OF holds_yields [OF keeps_FetchOpenStackEnv]])
         (use that in \<open>auto simp: openstack_of_def on_ok_def split: sum.split\<close>)
    have "keeps (caches_genuine ts) ?clients (on_ok (\<lambda>cl. yields ?clients (Inr cl)))"
      by (rule holds_conseq [OF holds_yields [OF holds_True [OF keeps_clientsForContext]]]) (auto simp: on_ok_def split: sum.split)
    with False kc env show ?thesis
      by (auto intro!: holds_ebind [where Q' = "\<lambda>cl. yields ?clients (Inr cl)"]
          holds_ebind [where Q' = "openstack_of ts src ctx ns nm"] simp: exec_grant_def)
  qed
qed

text \<open>
  A command that ran is reported for the cluster whose kubeconfig it ran with, and with what
  \<open>WithKubeconfig\<close> returned.
\<close>

definition command_ran ::
    "('c, 'w, 'm) tools \<Rightarrow> string list \<Rightarrow> string \<Rightarrow> string \<times> string gomap \<Rightarrow> exec_outcome \<Rightarrow> bool" where
  "command_ran ts command stdin g oc \<longleftrightarrow>
     yields (WithKubeconfig (lift_os (ts_os ts)) (\<lambda>f args opts. on_host (ts_execer ts f args opts) :: ('w, 'm) server_scheme \<Rightarrow> _)
       (error_text ts) (fst g) (snd g) command stdin) (Inr oc)"

definition reports ::
    "('c, 'w, 'm) tools \<Rightarrow> bool \<Rightarrow> (string \<times> string gomap \<Rightarrow> exec_outcome \<Rightarrow> bool) \<Rightarrow> cluster_exec_result \<Rightarrow> bool" where
  "reports ts readonly did r \<longleftrightarrow>
     (cx_Error r = None \<longrightarrow>
       (\<exists>src g oc. map_of (cfg_Kubeconfigs (ts_cfg ts)) (id_Kubeconfig (cx_Cluster r)) = Some src
          \<and> exec_grant ts src (id_Context (cx_Cluster r)) (id_Namespace (cx_Cluster r)) (id_Name (cx_Cluster r)) readonly g
          \<and> did g oc
          \<and> cx_Stdout r = nonEmptyPtr (oc_Stdout oc) \<and> cx_Stderr r = nonEmptyPtr (oc_Stderr oc)
          \<and> cx_ExitCode r = Some (oc_ExitCode oc)))"

definition exec_genuine :: "('c, 'w, 'm) tools \<Rightarrow> exec_input \<Rightarrow> bool \<Rightarrow> cluster_exec_result \<Rightarrow> bool" where
  "exec_genuine ts inp readonly = reports ts readonly (command_ran ts (in_Command inp) (in_Stdin inp))"

definition execs_genuine :: "('c, 'w, 'm) tools \<Rightarrow> exec_input \<Rightarrow> bool \<Rightarrow> tool_result \<Rightarrow> bool" where
  "execs_genuine ts inp readonly out \<longleftrightarrow>
     (case res_Content out of Exec_Results rs \<Rightarrow> \<forall>r \<in> set rs. exec_genuine ts inp readonly r | _ \<Rightarrow> res_IsError out)"

lemma reports_error [simp]: "reports ts readonly did (clusterErrResult ts i e)"
  by (simp add: reports_def clusterErrResult_def)

lemma reports_outcome:
  assumes "map_of (cfg_Kubeconfigs (ts_cfg ts)) kn = Some src" "exec_grant ts src ctx ns nm readonly g" "did g oc"
  shows "reports ts readonly did
    \<lparr>cx_Cluster = \<lparr>id_Kubeconfig = kn, id_Context = ctx, id_Namespace = ns, id_Name = nm\<rparr>,
     cx_Stdout = nonEmptyPtr (oc_Stdout oc), cx_Stderr = nonEmptyPtr (oc_Stderr oc), cx_ExitCode = Some (oc_ExitCode oc), cx_Error = None\<rparr>"
  unfolding reports_def
  by (intro impI exI [of _ src] exI [of _ g] exI [of _ oc]) (simp add: assms)

lemma keeps_execOneTarget:
  fixes ts :: "('c, 'w, 'm) tools"
  assumes "config_names_ok ts" "object_names_ok ts"
  shows "keeps (caches_genuine ts) (execOneTarget ts (in_Command inp) (in_Stdin inp) readonly target) (exec_genuine ts inp readonly)"
proof (cases "\<exists>kn ctx ns nm src. ParseTarget target = Inr (kn, ctx, ns, nm) \<and> map_of (cfg_Kubeconfigs (ts_cfg ts)) kn = Some src")
  case False
  then show ?thesis by (auto simp: execOneTarget_def exec_genuine_def Let_def split: sum.split option.split)
next
  case True
  then obtain kn ctx ns nm src where t: "ParseTarget target = Inr (kn, ctx, ns, nm)"
    and src: "map_of (cfg_Kubeconfigs (ts_cfg ts)) kn = Some src" by blast
  let ?with = "\<lambda>g. WithKubeconfig (lift_os (ts_os ts)) (\<lambda>f args opts. on_host (ts_execer ts f args opts) :: ('w, 'm) server_scheme \<Rightarrow> _)
      (error_text ts) (fst g) (snd g) (in_Command inp) (in_Stdin inp)"
  let ?ran = "\<lambda>oc. \<exists>g. exec_grant ts src ctx ns nm readonly g \<and> command_ran ts (in_Command inp) (in_Stdin inp) g oc"
  have "keeps (caches_genuine ts) (?with g) (on_ok ?ran)" if "exec_grant ts src ctx ns nm readonly g" for g
    by (rule holds_conseq [OF holds_yields [OF keeps_WithKubeconfig]])
       (use that in \<open>auto simp: command_ran_def on_ok_def simp del: split_paired_Ex split: sum.split\<close>)
  moreover have "configured ts src" using src by (auto simp: configured_def)
  ultimately have "keeps (caches_genuine ts) (ebind (exec_access ts src ctx ns nm readonly) ?with) (on_ok ?ran)"
    by (intro holds_ebind [OF keeps_exec_access [OF assms]])
  then show ?thesis
    unfolding exec_genuine_def execOneTarget_def t sum.case case_prod_beta' Let_def fst_conv snd_conv src option.case
    by (rule holds_pbind) (auto intro: reports_outcome [OF src] simp del: split_paired_Ex split: sum.split)
qed

lemma keeps_exec_fanout:
  assumes "config_names_ok ts" "object_names_ok ts"
  shows "keeps (caches_genuine ts) (execInClusterFanOut ts sched inp readonly) (on_ok (execs_genuine ts inp readonly))"
proof -
  have "pool_holds (\<lambda>s. caches_genuine ts (cache_store s))
      (map (execOneTarget ts (in_Command inp) (in_Stdin inp) readonly) targets) (\<lambda>_. exec_genuine ts inp readonly)" for targets
    by (simp add: pool_holds_def keeps_execOneTarget [OF assms])
  from holds_par [OF this]
  have "keeps (caches_genuine ts) (pbind (par sched (map (execOneTarget ts (in_Command inp) (in_Stdin inp) readonly) targets)) (\<lambda>results.
      Done (Inr (textResult (Exec_Results results) (list_ex exec_failed results))))) (on_ok (execs_genuine ts inp readonly))" for targets
    by (rule holds_pbind) (auto simp: execs_genuine_def textResult_def in_set_conv_nth)
  then show ?thesis
    unfolding execInClusterFanOut_def ResolveClusterPatterns_def
    by (auto simp: execs_genuine_def textResult_def split: sum.split)
qed

definition entry_genuine :: "('c, 'w, 's) tool_server \<Rightarrow> list_clusters_entry \<Rightarrow> bool" where
  "entry_genuine ts e \<longleftrightarrow>
     (\<exists>r. listed_cluster ts r \<and> le_Cluster e = rc_Cluster r \<and> le_Target e = FormatTarget (rc_Cluster r))"

definition listing_genuine :: "('c, 'w, 's) tool_server \<Rightarrow> tool_result \<Rightarrow> bool" where
  "listing_genuine ts out \<longleftrightarrow>
     (case res_Content out of Cluster_Entries es \<Rightarrow> \<forall>e \<in> set es. entry_genuine ts e | _ \<Rightarrow> res_IsError out)"

lemma keeps_ListClusters:
  assumes "config_names_ok ts"
  shows "keeps (caches_genuine ts) (ListClusters ts clusters) (on_ok (listing_genuine ts))"
  unfolding ListClusters_def
proof (rule holds_ebind [OF keeps_allResolvedClusters [OF assms]])
  fix resolved assume all: "\<forall>r \<in> set resolved. listed_cluster ts r"
  then have entries: "\<forall>e \<in> set (cluster_entries rs). entry_genuine ts e" if "set rs \<subseteq> set resolved" for rs
    using that by (auto simp: cluster_entries_def entry_genuine_def)
  have kept: "set (keep_matching m resolved) \<subseteq> set resolved" for m by (auto simp: keep_matching_def)
  show "keeps (caches_genuine ts)
      (if clusters = [] then Done (Inr (textResult (Cluster_Entries (cluster_entries resolved)) False))
       else pbind (ResolveClusterPatterns clusters (Done (Inr (map rc_Cluster resolved))) False) (\<lambda>matched.
         Done (case matched of
             Inl e \<Rightarrow> Inr (textResult (Plain (error_text ts e)) True)
           | Inr ts' \<Rightarrow> Inr (textResult (Cluster_Entries (cluster_entries (keep_matching ts' resolved))) False))))
      (on_ok (listing_genuine ts))"
    using entries [OF subset_refl] entries [OF kept]
    by (auto simp: ResolveClusterPatterns_def Let_def listing_genuine_def textResult_def split: sum.split)
qed

text \<open>All tools together: what each of them may answer.\<close>

fun answer_ok :: "('c, 'w, 'm) tools \<Rightarrow> tool_call \<Rightarrow> tool_result \<Rightarrow> bool" where
  "answer_ok ts (List_Clusters_Call clusters) = listing_genuine ts"
| "answer_ok ts (Get_Kubeconfig_Call clusters) = fanout_delivers ts False"
| "answer_ok ts (Get_Kubeconfig_Readonly_Call clusters) = fanout_delivers ts True"
| "answer_ok ts (Exec_Call inp) = execs_genuine ts inp False"
| "answer_ok ts (Exec_Readonly_Call inp) = execs_genuine ts inp True"

lemma keeps_BuildServer:
  assumes "config_names_ok ts" "object_names_ok ts"
  shows "keeps (caches_genuine ts) (BuildServer ts sched tc) (on_ok (answer_ok ts tc))"
  by (cases tc)
     (simp_all add: GetClusterKubeconfig_def GetClusterKubeconfigReadonly_def ExecInCluster_def
        ExecInClusterReadonly_def keeps_ListClusters keeps_fanout keeps_exec_fanout assms)

subsection \<open>The daemon at work\<close>

text \<open>
  The daemon serves any number of requests at once: tool calls, and the two operations the
  embedded tools use. Between their steps the environment may change everything but the
  caches: time passes, timers fire, processes exit, files and clusters change.
\<close>

datatype request = Tool_Request "nat list" tool_call | Resolve_Request string | Targets_Request

datatype response =
    Tool_Response "tool_result res"
  | Resolve_Response "string res"
  | Targets_Response "string list res"

fun serve :: "('c, 'w, 'm) tools \<Rightarrow> request \<Rightarrow> (('w, 'm) server_scheme, response) prog" where
  "serve ts (Tool_Request sched tc) = pbind (BuildServer ts sched tc) (\<lambda>r. Done (Tool_Response r))"
| "serve ts (Resolve_Request target) = pbind (ResolveTarget ts target) (\<lambda>r. Done (Resolve_Response r))"
| "serve ts Targets_Request = pbind (ListTargets ts) (\<lambda>r. Done (Targets_Response r))"

definition outside_caches :: "('w, 'm) server_scheme \<Rightarrow> ('w, 'm) server_scheme \<Rightarrow> bool" where
  "outside_caches s s' \<longleftrightarrow> cache_store s' = cache_store s"

fun response_ok :: "('c, 'w, 'm) tools \<Rightarrow> request \<Rightarrow> response \<Rightarrow> bool" where
  "response_ok ts (Tool_Request sched tc) (Tool_Response r) = on_ok (answer_ok ts tc) r"
| "response_ok ts (Resolve_Request target) (Resolve_Response r) = on_ok (served_target ts target) r"
| "response_ok ts Targets_Request (Targets_Response r) =
     on_ok (\<lambda>targets. \<forall>t \<in> set targets. \<exists>e. entry_genuine ts e \<and> le_Target e = t) r"
| "response_ok ts _ _ = False"

lemma keeps_ListTargets:
  assumes "config_names_ok ts"
  shows "keeps (caches_genuine ts) (ListTargets ts)
    (on_ok (\<lambda>targets. \<forall>t \<in> set targets. \<exists>e. entry_genuine ts e \<and> le_Target e = t))"
  unfolding ListTargets_def
proof (rule holds_ebind [OF keeps_allResolvedClusters [OF assms]])
  fix resolved assume all: "\<forall>r \<in> set resolved. listed_cluster ts r"
  have "entry_genuine ts \<lparr>le_Cluster = rc_Cluster r, le_Target = FormatTarget (rc_Cluster r)\<rparr>"
    if "r \<in> set resolved" for r
    using all that by (auto simp: entry_genuine_def)
  then show "keeps (caches_genuine ts) (Done (Inr (map (\<lambda>r. FormatTarget (rc_Cluster r)) resolved)))
      (on_ok (\<lambda>targets. \<forall>t \<in> set targets. \<exists>e. entry_genuine ts e \<and> le_Target e = t))"
    by force
qed

lemma keeps_serve:
  assumes "config_names_ok ts" "object_names_ok ts"
  shows "keeps (caches_genuine ts) (serve ts req) (response_ok ts req)"
proof (cases req)
  case (Tool_Request sched tc)
  then show ?thesis
    by (auto intro: holds_pbind [OF keeps_BuildServer [OF assms]])
next
  case (Resolve_Request target)
  then show ?thesis
    by (auto intro: holds_pbind [OF keeps_ResolveTarget [OF assms]])
next
  case Targets_Request
  then show ?thesis
    by (auto intro: holds_pbind [OF keeps_ListTargets [OF assms(1)]])
qed

lemma NewStore_genuine: "caches_genuine ts (NewStore d1 d2)"
  by (simp add: caches_genuine_def NewStore_def New_def)

text \<open>
  C1: whatever requests the daemon serves, however their steps and those of their fan-outs
  interleave, and whatever happens around it, every answer is genuine. A listed cluster is one
  that the API server of its entry and context returned, under the target that names it. A
  kubeconfig delivered for a target is the transformed secret that the API server returned for
  exactly that cluster, never that of another cluster; a read-only one is made from such a
  kubeconfig's cluster and a fresh token. The output and the exit code reported for a cluster
  are those of a command that ran with such a kubeconfig of this very cluster, and with the
  OpenStack credentials of this cluster or, when it was to run read-only, with none.
\<close>

theorem every_answer_is_genuine:
  assumes "config_names_ok ts" "object_names_ok ts"
    and "cache_store s = NewStore d1 d2"
    and "(world_step outside_caches)\<^sup>*\<^sup>* (s, map (serve ts) reqs) (s', ps')"
    and "i < length reqs" "ps' ! i = Done resp"
  shows "response_ok ts (reqs ! i) resp"
proof (rule world_steps_result [OF assms(4)])
  show "caches_genuine ts (cache_store s)" by (simp add: assms(3) NewStore_genuine)
  show "pool_holds (\<lambda>s. caches_genuine ts (cache_store s)) (map (serve ts) reqs)
      (\<lambda>i. response_ok ts (reqs ! i))"
    using keeps_serve [OF assms(1,2)] by (simp add: pool_holds_def)
  show "caches_genuine ts (cache_store s2)" if "outside_caches s1 s2" "caches_genuine ts (cache_store s1)" for s1 s2
    using that by (simp add: outside_caches_def)
qed (use assms(5,6) in simp_all)

definition web_kube :: "(unit, 'w) kube" where
  "web_kube = offline_kube\<lparr>k_load := (\<lambda>_. Inr ()), k_client_config := (\<lambda>_ _. Inr ()),
     k_get_secret := (\<lambda>_ ns n w. if ns = ''team'' \<and> n = ''web-kubeconfig'' then (Inr [(''value'', ''kc'')], w) else (Inl refused, w))\<rparr>"

definition web_tools :: "(unit, unit, unit server) tool_server" where
  "web_tools = sample_tools\<lparr>ts_kube := web_kube, ts_cfg := sample_config\<lparr>cfg_SshuttleHost := ''''\<rparr>\<rparr>"

definition web_server :: "unit server" where
  "web_server = sample_server\<lparr>files := [''/kc'' \<mapsto> (''doc'', 0)], cache_store := NewStore 300 60\<rparr>"

lemma web_names: "config_names_ok web_tools" "object_names_ok web_tools"
proof -
  show "config_names_ok web_tools"
    by (simp add: config_names_ok_def web_tools_def sample_tools_def sample_config_def colon_free_def)
  have "nm = ''web''" if "nm @ ''-kubeconfig'' = ''web-kubeconfig''" for nm
    using that append_eq_append_conv [of nm "''web''" "''-kubeconfig''" "''-kubeconfig''"] by simp
  then show "object_names_ok web_tools"
    by (auto simp: object_names_ok_def web_tools_def web_kube_def colon_free_def split: if_splits)
qed

lemma web_resolve:
  "fst (run (ResolveTarget web_tools ''prod/admin/team/web'') web_server) = Inr ''kc''"
  by (simp add: ResolveTarget_def ParseTarget_def web_tools_def sample_tools_def sample_config_def
      cachedKubeconfig_def effective_sshuttle_host_def kubeconfig_Get_def Get_def NewStore_def New_def
      clientsForContext_def RealClientsForContext_def clientsFromKubeconfigBytes_def RESTConfigForContext_def FetchWorkloadKubeconfig_def
      transformed_def tunnel_for_def kubeconfig_Set_def run_pbind run_ebind run_wrap_err web_kube_def offline_kube_def
      web_server_def sample_server_def sample_os_def os_ReadFile_def lift_os_def machine_def Let_def)

theorem every_answer_is_genuine_witness:
  "served_target web_tools ''prod/admin/team/web'' ''kc''"
proof -
  let ?p = "serve web_tools (Resolve_Request ''prod/admin/team/web'')"
  obtain s' where "run ?p web_server = (Resolve_Response (Inr ''kc''), s')"
    using web_resolve by (cases "run ?p web_server") (auto simp: run_pbind split: prod.splits)
  from world_of_pool [OF pool_steps_run_head [OF this]]
  have steps: "(world_step outside_caches)\<^sup>*\<^sup>* (web_server, map (serve web_tools) [Resolve_Request ''prod/admin/team/web''])
      (s', [Done (Resolve_Response (Inr ''kc''))])" by simp
  have "cache_store web_server = NewStore 300 60" by (simp add: web_server_def)
  from every_answer_is_genuine [OF web_names this steps, of 0] show ?thesis by simp
qed



subsection \<open>Selection, order and isolation\<close>

lemma slash_free_target:
  assumes "\<forall>p \<in> set (cluster_path c). slash_free p"
  shows "split_on CHR ''/'' (FormatTarget c) = cluster_path c"
proof -
  have "cluster_path c \<noteq> []" by (simp add: cluster_path_def)
  from split_slash_join [OF this assms] show ?thesis by (simp add: FormatTarget_path)
qed

lemma prefix_same_length: "length xs = length ys \<Longrightarrow> prefix xs ys \<longleftrightarrow> xs = ys"
  by (auto simp: prefix_def)

lemma selected_target_iff:
  assumes "\<forall>k \<in> set known. \<forall>p \<in> set (cluster_path k). slash_free p" "c \<in> set known"
  shows "FormatTarget c \<in> set (selected_by known s) \<longleftrightarrow> prefix (split_on CHR ''/'' s) (cluster_path c)"
proof (cases "length (split_on CHR ''/'' s) = 4")
  case True
  have split: "split_on CHR ''/'' (FormatTarget c) = cluster_path c"
    by (rule slash_free_target) (use assms in blast)
  have len: "length (split_on CHR ''/'' s) = length (cluster_path c)"
    using True by (simp add: cluster_path_def)
  have "FormatTarget c = s \<longleftrightarrow> split_on CHR ''/'' s = cluster_path c"
  proof
    assume "FormatTarget c = s"
    with split show "split_on CHR ''/'' s = cluster_path c" by simp
  next
    assume "split_on CHR ''/'' s = cluster_path c"
    then show "FormatTarget c = s" by (metis FormatTarget_path go_join_split_on)
  qed
  with True show ?thesis by (simp only: selected_by_def prefix_same_length [OF len]) auto
next
  case False
  let ?P = "prefix (split_on CHR ''/'' s)"
  have same: "cluster_path k = cluster_path c" if "k \<in> set known" "FormatTarget c = FormatTarget k" for k
  proof -
    have "split_on CHR ''/'' (FormatTarget c) = cluster_path c" "split_on CHR ''/'' (FormatTarget k) = cluster_path k"
      by (rule slash_free_target, use assms that in blast)+
    with that(2) show ?thesis by simp
  qed
  have "selected_by known s = map FormatTarget (filter (\<lambda>k. ?P (cluster_path k)) known)"
    using False by (simp only: selected_by_def cluster_path_def if_False)
  then have "FormatTarget c \<in> set (selected_by known s) \<longleftrightarrow>
      (\<exists>k \<in> set known. ?P (cluster_path k) \<and> FormatTarget c = FormatTarget k)"
    by (simp only: set_map set_filter) blast
  also have "\<dots> \<longleftrightarrow> ?P (cluster_path c)"
  proof
    assume "\<exists>k \<in> set known. ?P (cluster_path k) \<and> FormatTarget c = FormatTarget k"
    then obtain k where "k \<in> set known" "?P (cluster_path k)" "FormatTarget c = FormatTarget k" by blast
    with same [of k] show "?P (cluster_path c)" by simp
  next
    assume "?P (cluster_path c)"
    with assms(2) show "\<exists>k \<in> set known. ?P (cluster_path k) \<and> FormatTarget c = FormatTarget k" by blast
  qed
  finally show ?thesis .
qed

text \<open>
  C24: list_clusters with patterns keeps exactly the clusters whose path starts with the
  segments of some pattern, in the order of the full listing and without looking anything up
  a second time.
\<close>

theorem list_clusters_selects:
  assumes "run (allResolvedClusters ts) s = (Inr resolved, s')" "clusters \<noteq> []"
    and "\<forall>p \<in> set clusters. valid_segments (split_on CHR ''/'' p)"
    and "\<forall>r \<in> set resolved. \<forall>p \<in> set (cluster_path (rc_Cluster r)). slash_free p"
  shows "run (ListClusters ts clusters) s =
    (Inr (textResult (Cluster_Entries (cluster_entries
       (filter (\<lambda>r. \<exists>p \<in> set clusters. prefix (split_on CHR ''/'' p) (cluster_path (rc_Cluster r))) resolved))) False), s')"
proof -
  let ?known = "map rc_Cluster resolved"
  have "keep_matching (first_seen (concat (map (selected_by ?known) clusters))) resolved =
      filter (\<lambda>r. \<exists>p \<in> set clusters. prefix (split_on CHR ''/'' p) (cluster_path (rc_Cluster r))) resolved"
    unfolding keep_matching_def
    using selected_target_iff [of ?known] assms(4) by (intro filter_cong) auto
  with assms(1,2) show ?thesis
    by (simp add: ListClusters_def run_ebind resolve_known [OF assms(3)])
qed


text \<open>The shape of the results of a fan-out, under every schedule.\<close>

lemma results_of_par:
  assumes "\<And>x. x \<in> set xs \<Longrightarrow> holds (\<lambda>_. True) (f x) (Q x)"
    and "run (par sched (map f xs)) s = (rs, s')"
  shows "list_all2 Q xs rs"
proof -
  have "pool_holds (\<lambda>_. True) (map f xs) (\<lambda>i. Q (xs ! i))"
    using assms(1) by (simp add: pool_holds_def)
  from holds_run [OF holds_par [OF this, of sched], of s] assms(2) show ?thesis
    by (simp add: list_all2_conv_all_nth)
qed

lemma holds_any: "holds (\<lambda>_. True) p (\<lambda>_. True)"
  by (induction p) auto

lemma holds_last: "(\<And>a. holds (\<lambda>_. True) (k a) Q) \<Longrightarrow> holds (\<lambda>_. True) (pbind p k) Q"
  by (rule holds_pbind [OF holds_any])

lemma kubeconfig_task_shape:
  "holds (\<lambda>_. True) (kubeconfig_task ts readonly target)
    (\<lambda>r. kr_Cluster r = target \<and> (kr_Kubeconfig r = '''' \<or> kr_Error r = ''''))"
  unfolding kubeconfig_task_def Let_def
  by (auto intro!: holds_last split: sum.split)

text \<open>
  C23: a kubeconfig fan-out answers with one result for each resolved target, in the order of
  the targets and under every schedule of its goroutines; no result has both a kubeconfig and
  an error, and the call is marked as failed exactly when some result has an error. It never
  fails as a protocol call, whatever happens to single clusters.
\<close>

theorem kubeconfig_fanout_shape:
  assumes "run (resolveClusterPatterns ts clusters False) s = (Inr targets, s1)"
  shows "\<exists>rs. fst (run (getClusterKubeconfigFanOut ts sched clusters readonly) s) =
      Inr (textResult (Kubeconfig_Results rs) (\<exists>r \<in> set rs. kr_Error r \<noteq> ''''))
    \<and> map kr_Cluster rs = targets
    \<and> (\<forall>r \<in> set rs. kr_Kubeconfig r = '''' \<or> kr_Error r = '''')"
proof -
  obtain rs s2 where par: "run (par sched (map (kubeconfig_task ts readonly) targets)) s1 = (rs, s2)" by force
  have all: "list_all2 (\<lambda>t r. kr_Cluster r = t \<and> (kr_Kubeconfig r = '''' \<or> kr_Error r = '''')) targets rs"
    by (rule results_of_par [OF kubeconfig_task_shape par])
  then have "map kr_Cluster rs = targets" "\<forall>r \<in> set rs. kr_Kubeconfig r = '''' \<or> kr_Error r = ''''"
    by (induction rule: list_all2_induct) auto
  with assms par show ?thesis
    by (auto simp: getClusterKubeconfigFanOut_def run_pbind list_ex_iff)
qed


subsection \<open>Commands: validation, results and credentials\<close>

text \<open>A result carries the identity of its target and either an outcome or an error.\<close>

definition exec_result_shape :: "string \<Rightarrow> cluster_exec_result \<Rightarrow> bool" where
  "exec_result_shape target r \<longleftrightarrow>
     (\<exists>kn ctx ns nm. ParseTarget target = Inr (kn, ctx, ns, nm)
        \<and> cx_Cluster r = \<lparr>id_Kubeconfig = kn, id_Context = ctx, id_Namespace = ns, id_Name = nm\<rparr>)
   \<and> (cx_Error r = None \<longleftrightarrow> cx_ExitCode r \<noteq> None)
   \<and> (cx_Error r \<noteq> None \<longrightarrow> cx_Stdout r = None \<and> cx_Stderr r = None)
   \<and> cx_Stdout r \<noteq> Some '''' \<and> cx_Stderr r \<noteq> Some ''''"

text \<open>The text a pointer stands for; \<open>nil\<close> is the empty output.\<close>

definition ptr_text :: "string option \<Rightarrow> string" where
  "ptr_text p = (case p of None \<Rightarrow> '''' | Some s \<Rightarrow> s)"

lemma nonEmptyPtr_Some [simp]: "nonEmptyPtr s \<noteq> Some ''''"
  by (simp add: nonEmptyPtr_def)

lemma execOneTarget_shape:
  assumes "full_path target"
  shows "holds (\<lambda>_. True) (execOneTarget ts command stdin readonly target) (exec_result_shape target)"
proof -
  from assms obtain kn ctx ns nm where t: "ParseTarget target = Inr (kn, ctx, ns, nm)"
    using full_path_ParseTarget [of target] by (metis prod_cases4)
  then show ?thesis
    unfolding execOneTarget_def Let_def
    by (auto intro!: holds_last simp: exec_result_shape_def clusterErrResult_def split: option.split sum.split)
qed

definition exec_valid :: "exec_input \<Rightarrow> bool" where
  "exec_valid inp \<longleftrightarrow> in_Command inp \<noteq> [] \<and> in_Clusters inp \<noteq> [] \<and> list_all full_path (in_Clusters inp)"





subsection \<open>Sample runs\<close>

text \<open>
  A management cluster with one workload cluster, whose API server accepts every object and
  hands out tokens; a command that always succeeds.
\<close>

definition field_kube :: "(unit, 'w) kube" where
  "field_kube = web_kube\<lparr>
     k_create_sa := (\<lambda>_ _ _ w. (Inr (), w)), k_create_role := (\<lambda>_ _ w. (Inr (), w)),
     k_create_binding := (\<lambda>_ _ w. (Inr (), w)), k_create_token := (\<lambda>_ _ _ _ w. (Inr ''tok'', w)),
     k_yaml_admin_clusters := (\<lambda>_. Inr [sample_admin_cluster]),
     k_yaml_encode := (\<lambda>_. Inr ''ro'')\<rparr>"

definition field_tools :: "(unit, unit, unit server) tool_server" where
  "field_tools = web_tools\<lparr>ts_kube := field_kube, ts_execer := (\<lambda>_ _ _ h. (Inr \<lparr>Stdout = ''done'', Stderr = ''''\<rparr>, h))\<rparr>"

definition field_clusters :: "capi_cluster list" where
  "field_clusters = [bare_cluster ''prod'' ''admin'' ''team'' ''web'', bare_cluster ''prod'' ''admin'' ''ops'' ''db'']"

definition field_server :: "unit server" where
  "field_server = web_server\<lparr>cache_store := \<lparr>
     ClusterList = \<lparr>ttl = 300, store = [''prod:admin'' \<mapsto> \<lparr>val = field_clusters, expiresAt = 300\<rparr>]\<rparr>,
     KubeconfigCache = New 60\<rparr>\<rparr>"

lemmas field_defs = field_tools_def field_kube_def web_tools_def web_kube_def sample_tools_def sample_config_def
  offline_kube_def field_server_def web_server_def sample_server_def sample_os_def

lemma field_names: "config_names_ok field_tools" "object_names_ok field_tools"
  using web_names by (simp_all add: config_names_ok_def object_names_ok_def field_tools_def field_kube_def web_tools_def)

lemma field_listing:
  "run (allResolvedClusters field_tools) field_server =
    (Inr (map (\<lambda>c. \<lparr>rc_Cluster = c, rc_Source = snd (hd (cfg_Kubeconfigs sample_config))\<rparr>) field_clusters), field_server)"
  by (simp add: allResolvedClusters_def sortedKubeconfigs_def clusters_of_source_def resolveContexts_def
      listClustersCached_def clusters_Get_def Get_def ClusterListKey_def run_ebind run_pbind Let_def field_defs)

theorem list_clusters_selects_witness:
  "fst (run (ListClusters field_tools [''prod/admin/ops'']) field_server) =
    Inr (textResult (Cluster_Entries [\<lparr>le_Cluster = bare_cluster ''prod'' ''admin'' ''ops'' ''db'', le_Target = ''prod/admin/ops/db''\<rparr>]) False)"
  using list_clusters_selects [OF field_listing, of "[''prod/admin/ops'']"]
  by (simp add: valid_segments_def field_clusters_def cluster_path_def bare_cluster_def cluster_entries_def FormatTarget_def)

theorem kubeconfig_fanout_shape_witness:
  "\<exists>rs. fst (run (getClusterKubeconfigFanOut field_tools [1, 0, 1] [''prod/admin'', ''other/a/b/c''] True) field_server) =
      Inr (textResult (Kubeconfig_Results rs) (\<exists>r \<in> set rs. kr_Error r \<noteq> ''''))
    \<and> map kr_Cluster rs = [''prod/admin/team/web'', ''prod/admin/ops/db'', ''other/a/b/c'']"
proof -
  have "run (resolveClusterPatterns field_tools [''prod/admin'', ''other/a/b/c''] False) field_server =
      (Inr [''prod/admin/team/web'', ''prod/admin/ops/db'', ''other/a/b/c''], field_server)"
    by (simp add: resolveClusterPatterns_def resolve_patterns_eq ParseTargetPattern_def full_path_def allKnownClusters_def
        run_ebind field_listing selected_by_def field_clusters_def bare_cluster_def FormatTarget_def Let_def)
  from kubeconfig_fanout_shape [OF this, of "[1, 0, 1]" True] show ?thesis
    by (elim exE conjE, intro exI conjI)
qed



lemma field_readonly:
  "run (readOnlyKubeconfig field_tools ''kc'') s = (Inr ''ro'', s\<lparr>outside := ()\<rparr>)"
proof -
  have "trim_space ''tok'' = ''tok''"
    by (rule trim_space_graphic) (simp add: graphic_def)
  then show ?thesis
    by (simp add: readOnlyKubeconfig_def ClientsFromKubeconfigYAML_def clientsFromKubeconfigBytes_def RESTConfigForContext_def CreateReadOnlyKubeconfig_def
        EnsureReadOnlyRBAC_def ensure_service_account_def ensure_cluster_role_def ensure_binding_def
        run_ebind run_pbind run_wrap_err field_tools_def field_kube_def web_kube_def offline_kube_def)
qed

lemma field_resolve:
  "\<exists>s'. run (cachedKubeconfig field_tools (snd (hd (cfg_Kubeconfigs sample_config))) ''admin'' ''team'' ''web'') web_server = (Inr ''kc'', s')"
  by (simp add: cachedKubeconfig_def effective_sshuttle_host_def kubeconfig_Get_def Get_def New_def NewStore_def
      clientsForContext_def RealClientsForContext_def clientsFromKubeconfigBytes_def RESTConfigForContext_def FetchWorkloadKubeconfig_def
      transformed_def tunnel_for_def kubeconfig_Set_def run_pbind run_ebind run_wrap_err
      field_defs os_ReadFile_def lift_os_def machine_def Let_def)

lemma field_access:
  "\<exists>s'. run (exec_access field_tools (snd (hd (cfg_Kubeconfigs sample_config))) ''admin'' ''team'' ''web'' True) web_server
    = (Inr (''ro'', []), s')"
  using field_resolve by (auto simp: exec_access_def run_ebind field_readonly)

lemma field_command:
  "\<exists>oc s'. run (WithKubeconfig (lift_os (ts_os field_tools)) (\<lambda>f args opts. on_host (ts_execer field_tools f args opts))
      (error_text field_tools) kc env [''ls''] '''') s = (Inr oc, s')"
  by (simp add: WithKubeconfig_def writeTempKubeconfig_def run_pbind run_ebind field_defs lift_os_def
      os_WriteFile_def on_host_def Let_def os_Remove_def split: prod.split)



definition listing_tools :: "(unit, unit, unit server) tool_server" where
  "listing_tools = field_tools\<lparr>ts_kube := field_kube\<lparr>
     k_client_config := (\<lambda>_ ctx. if ctx = ''admin'' then Inr () else Inl refused),
     k_list := (\<lambda>_ _ _ _ w. (Inr [\<lparr>item_Namespace = ''team'', item_Name = ''web'', item_Object = J_Null\<rparr>], w))\<rparr>\<rparr>"

lemma listing_config: "ts_cfg listing_tools = ts_cfg web_tools"
  by (simp add: listing_tools_def field_tools_def)

lemma listing_entry: "configured listing_tools src \<Longrightarrow> src_Name src = ''prod''"
  by (auto simp: configured_def listing_config web_tools_def sample_tools_def sample_config_def split: if_splits)

lemma listing_slash_free:
  assumes "listed_cluster listing_tools r" "p \<in> set (cluster_path (rc_Cluster r))"
  shows "slash_free p"
proof -
  let ?c = "rc_Cluster r"
  from assms(1) obtain clusters where c: "?c \<in> set clusters" "genuine_list listing_tools (rc_Source r) (Context ?c) clusters"
    and kn: "KubeconfigName ?c = src_Name (rc_Source r)" "configured listing_tools (rc_Source r)"
    unfolding listed_cluster_def by blast
  from c(2) obtain cl w items where ctx: "reachable_context listing_tools (rc_Source r) (Context ?c) cl"
    and items: "fst (k_list (ts_kube listing_tools) (Dynamic cl) clusterGVR '''' '''' w) = Inr items"
      "list_all2 (listed_as (src_Name (rc_Source r)) (Context ?c)) items clusters"
    unfolding genuine_list_def by blast
  have "Namespace ?c = ''team'' \<and> Name ?c = ''web''"
    using items c(1) by (auto simp: listing_tools_def list_all2_Cons1 listed_as_def)
  moreover have "Context ?c = ''admin''"
    using ctx by (auto simp: reachable_context_def clientsFromKubeconfigBytes_def RESTConfigForContext_def res_bind_eq_Inr listing_tools_def split: if_splits)
  moreover have "KubeconfigName ?c = ''prod''"
    using kn listing_entry by simp
  ultimately show ?thesis using assms(2) by (auto simp: cluster_path_def)
qed

lemma listing_run:
  "\<exists>s'. run (ListTargets listing_tools) web_server = (Inr [''prod/admin/team/web''], s')"
  by (simp add: ListTargets_def allResolvedClusters_def sortedKubeconfigs_def clusters_of_source_def resolveContexts_def
      listClustersCached_def clusters_Get_def clusters_Set_def Get_def New_def NewStore_def clientsForContext_def
      RealClientsForContext_def clientsFromKubeconfigBytes_def RESTConfigForContext_def ListClustersForContext_def listing_tools_def
      FormatTarget_def bare_cluster_def os_ReadFile_def lift_os_def machine_def
      run_ebind run_pbind run_wrap_err Let_def field_defs)


end
