(* ===== verification/Private.thy ===== *)
theory Private
  imports Tools Commands
begin

text \<open>
  The temporary kubeconfigs of a daemon that serves many requests at once. The theory
  \<open>Commands\<close> is about calls of \<open>WithKubeconfig\<close> alone; here they are the last steps of the
  exec tools, their kubeconfigs come out of the caches and the API servers, and all other
  requests run beside them. Everything that is not such a call touches no temporary file, so
  it owns none; a fan-out owns the files of its targets.
\<close>

subsection \<open>Laws\<close>

text \<open>
  Nothing but \<open>WithKubeconfig\<close> draws names of temporary files or touches such files: no
  systemctl, no sshuttle process, no call of an API server.
\<close>

definition quiet_host :: "'w host os \<Rightarrow> ('w host \<Rightarrow> string set) \<Rightarrow> ('w host \<Rightarrow> 'a \<times> 'w host) \<Rightarrow> bool" where
  "quiet_host os taken f \<longleftrightarrow> (\<forall>h. leaves_temp os taken h (snd (f h)))"

definition quiet_api :: "('w host \<Rightarrow> string set) \<Rightarrow> ('w \<Rightarrow> 'a \<times> 'w) \<Rightarrow> bool" where
  "quiet_api taken f \<longleftrightarrow> (\<forall>h. taken (h\<lparr>outside := snd (f (outside h))\<rparr>) = taken h)"

definition quiet_kube :: "('c, 'w) kube \<Rightarrow> ('w host \<Rightarrow> string set) \<Rightarrow> bool" where
  "quiet_kube K taken \<longleftrightarrow>
     (\<forall>c g ns sel. quiet_api taken (k_list K c g ns sel)) \<and> (\<forall>c ns n. quiet_api taken (k_get_secret K c ns n))
     \<and> (\<forall>c ns n. quiet_api taken (k_create_sa K c ns n))
     \<and> (\<forall>c r. quiet_api taken (k_create_role K c r) \<and> quiet_api taken (k_update_role K c r))
     \<and> (\<forall>c b. quiet_api taken (k_create_binding K c b) \<and> quiet_api taken (k_update_binding K c b))
     \<and> (\<forall>c n. quiet_api taken (k_delete_binding K c n))
     \<and> (\<forall>c ns n d. quiet_api taken (k_create_token K c ns n d))"

definition quiet_tunnels :: "'w host os \<Rightarrow> ('w, 's) tunnel_deps \<Rightarrow> ('w host \<Rightarrow> string set) \<Rightarrow> bool" where
  "quiet_tunnels os px taken \<longleftrightarrow>
     (\<forall>file args opts. quiet_host os taken (px_exec px file args opts))
     \<and> (\<forall>host ip port. quiet_host os taken (px_spawn px host ip port)) \<and> (\<forall>pid. quiet_host os taken (px_await px pid))"

definition quiet_rest :: "('c, 'w, 's) tool_server \<Rightarrow> ('w host \<Rightarrow> string set) \<Rightarrow> bool" where
  "quiet_rest ts taken \<longleftrightarrow> quiet_kube (ts_kube ts) taken \<and> quiet_tunnels (ts_os ts) (ts_proxy ts) taken"

text \<open>The same views on the state of the daemon.\<close>

definition drawn :: "('w host \<Rightarrow> string set) \<Rightarrow> ('w, 'm) host_scheme \<Rightarrow> string set" where
  "drawn taken s = taken (machine s)"

lemma temp_paths_lift [simp]: "temp_paths (lift_os os) = temp_paths os"
  by (simp add: temp_paths_def lift_os_def)

lemma machine_cong [simp]:
  "machine (s\<lparr>files := f\<rparr>) = (machine s)\<lparr>files := f\<rparr>"
  "machine (s\<lparr>outside := w\<rparr>) = (machine s)\<lparr>outside := w\<rparr>"
  "machine (s\<lparr>files := f, outside := w\<rparr>) = \<lparr>files = f, outside = w\<rparr>"
  by (simp_all add: machine_def)

lemma machine_snd_on_host [simp]: "machine (snd (on_host f s)) = snd (f (machine s))"
  by (simp add: on_host_def split: prod.split)

lemma files_machine: "files (machine s) = files s" "outside (machine s) = outside s"
  by (simp_all add: machine_def)

lemma lawful_temp_lift:
  assumes "lawful_temp os ex taken"
  shows "lawful_temp (lift_os os) (\<lambda>f args opts. on_host (ex f args opts)) (drawn taken :: ('w, 'm) host_scheme \<Rightarrow> _)"
  unfolding lawful_temp_def
proof (intro conjI allI impI ballI)
  fix s s' :: "('w, 'm) host_scheme" and bytes
  assume draw: "os_random (lift_os os) s = (Inr bytes, s')"
  then have "os_random os (machine s) = (Inr bytes, machine s')"
    using machine_snd_on_host [of "os_random os" s] fst_on_host [of "os_random os" s] by (simp add: lift_os_def prod_eq_iff)
  with assms have "let path = temp_path (os_tempdir os) bytes in path \<notin> taken (machine s)
      \<and> files (machine s') = files (machine s) \<and> taken (machine s') = insert path (taken (machine s))"
    unfolding lawful_temp_def by blast
  then show "let path = temp_path (os_tempdir (lift_os os)) bytes in
      path \<notin> drawn taken s \<and> files s' = files s \<and> drawn taken s' = insert path (drawn taken s)"
    by (simp add: lift_os_def drawn_def files_machine Let_def)
next
  fix s s' :: "('w, 'm) host_scheme" and e
  assume "os_random (lift_os os) s = (Inl e, s')"
  then have "os_random os (machine s) = (Inl e, machine s')"
    using machine_snd_on_host [of "os_random os" s] fst_on_host [of "os_random os" s] by (simp add: lift_os_def prod_eq_iff)
  with assms have "files (machine s') = files (machine s) \<and> taken (machine s') = taken (machine s)"
    unfolding lawful_temp_def by blast
  then show "files s' = files s" "drawn taken s' = drawn taken s" by (simp_all add: drawn_def files_machine)
next
  fix s :: "('w, 'm) host_scheme" and f
  show "drawn taken (s\<lparr>files := f\<rparr>) = drawn taken s" using assms by (simp add: lawful_temp_def drawn_def)
next
  fix prg args opts and s :: "('w, 'm) host_scheme"
  show "drawn taken (snd (on_host (ex prg args opts) s)) = drawn taken s"
    using assms by (simp add: lawful_temp_def drawn_def)
next
  fix prg args and opts :: exec_options and s :: "('w, 'm) host_scheme" and p
  assume "p \<in> temp_paths (lift_os os :: ('w, 'm) host_scheme os)" "env_value (Env opts) ''KUBECONFIG'' \<noteq> Some p"
  with assms have "files (snd (ex prg args opts (machine s))) p = files (machine s) p"
    by (simp add: lawful_temp_def)
  then show "files (snd (on_host (ex prg args opts) s)) p = files s p"
    using files_machine(1) [of "snd (on_host (ex prg args opts) s)"] by (simp add: files_machine(1) [of s])
qed


subsection \<open>What touches no temporary file\<close>

abbreviation untouched ::
    "'w host os \<Rightarrow> ('w host \<Rightarrow> string set) \<Rightarrow> (('w, 'm) host_scheme, 'a) prog \<Rightarrow> bool" where
  "untouched os taken \<equiv> preserves (\<lambda>s. (drawn taken s, drawn_files (lift_os os) s))"

lemma drawn_files_machine: "drawn_files (lift_os os) s = files (machine s) |` temp_paths os"
  by (simp add: drawn_files_def files_machine)

lemma untouched_call:
  assumes "\<And>s. leaves_temp os taken (machine s) (machine (snd (f s)))"
  shows "untouched os taken (call f)"
  by (rule preserves_call)
     (use assms in \<open>simp add: leaves_temp_def drawn_def drawn_files_machine restrict_map_def fun_eq_iff\<close>)

lemma untouched_machine: "(\<And>s. machine (snd (f s)) = machine s) \<Longrightarrow> untouched os taken (call f)"
  by (rule untouched_call) (simp add: leaves_temp_def)

lemma untouched_on_host: "quiet_host os taken f \<Longrightarrow> untouched os taken (call (on_host f))"
  by (rule untouched_call) (simp add: quiet_host_def)

lemma untouched_api: "quiet_api taken f \<Longrightarrow> untouched os taken (api f :: (('w, 'm) host_scheme, 'a) prog)"
  unfolding api_def
proof (rule untouched_call)
  fix s :: "('w, 'm) host_scheme" assume "quiet_api taken f"
  then have "taken ((machine s)\<lparr>outside := snd (f (outside (machine s)))\<rparr>) = taken (machine s)"
    by (simp add: quiet_api_def)
  then show "leaves_temp os taken (machine s)
      (machine (snd (fst (f (outside s)), s\<lparr>outside := snd (f (outside s))\<rparr>)))"
    by (simp add: leaves_temp_def files_machine)
qed

lemmas untouched_intros = untouched_machine preserves_pbind preserves_ebind preserves_wrap_err preserves_eloop untouched_on_host untouched_api

lemma untouched_reads:
  assumes "quiet_kube K taken"
  shows "untouched os taken (FetchWorkloadKubeconfig K core ns nm)" "untouched os taken (FetchAPIServerInfo K dyn ns nm)"
    and "untouched os taken (ListClustersForContext K dyn kn ctx cf)" "untouched os taken (FetchOpenStackEnv K dyn core ns nm)"
    and "untouched os taken (EnsureReadOnlyRBAC K core rbac)" "untouched os taken (CreateReadOnlyKubeconfig K core rbac admin d)"
proof -
  show rbac: "untouched os taken (EnsureReadOnlyRBAC K core rbac)"
    unfolding EnsureReadOnlyRBAC_def ensure_service_account_def ensure_cluster_role_def ensure_binding_def
    using assms by (auto intro!: untouched_intros simp: quiet_kube_def split: sum.split)
  show "untouched os taken (CreateReadOnlyKubeconfig K core rbac admin d)"
    unfolding CreateReadOnlyKubeconfig_def Let_def
    using assms by (auto intro!: untouched_intros rbac simp: quiet_kube_def split: sum.split list.split)
qed (use assms in \<open>auto intro!: untouched_intros simp: quiet_kube_def FetchWorkloadKubeconfig_def FetchAPIServerInfo_def
      fetchOpenStackCluster_def ListClustersForContext_def FetchOpenStackEnv_def Let_def split: option.split\<close>)

lemma untouched_files:
  "untouched os taken (clientsForContext ts src ctx)" "untouched os taken (resolveContexts ts src)"
  unfolding clientsForContext_def RealClientsForContext_def resolveContexts_def
  by (auto intro!: untouched_intros)

lemma untouched_caches:
  "untouched os taken (call (clusters_Get k))" "untouched os taken (call (clusters_Set k v))"
  "untouched os taken (call (kubeconfig_Get k))" "untouched os taken (call (kubeconfig_Set k w))"
  by (auto intro!: untouched_machine
      simp: clusters_Get_def clusters_Set_def kubeconfig_Get_def kubeconfig_Set_def machine_def split: prod.split)

lemma untouched_await_startup:
  assumes "quiet_tunnels os px taken"
  shows "untouched os taken (call (await_startup px pid t) :: (('w, 'm) server_scheme, int option option) prog)"
proof (rule untouched_call)
  fix s :: "('w, 'm) server_scheme"
  have "machine (snd (await_startup px pid t s)) = snd (px_await px pid (machine s))"
    using machine_snd_on_host [of "px_await px pid" s]
    by (cases "on_host (px_await px pid) s") (auto simp: await_startup_def machine_def split: option.split)
  with assms show "leaves_temp os taken (machine s) (machine (snd (await_startup px pid t s)))"
    by (simp add: quiet_tunnels_def quiet_host_def)
qed

lemma untouched_ensure_target:
  assumes "quiet_tunnels os (ts_proxy ts) taken"
  shows "untouched os taken (ensure_target ts pt)"
  unfolding ensure_target_def EnsureProxy_def singleflight_Do_def Let_def
    ensureProcessProxy_def ensureSystemdProxy_def isUnitActive_def
  using assms
  by (auto intro!: untouched_intros untouched_await_startup simp: quiet_steps quiet_tunnels_def machine_def split: option.split)


lemma untouched_tunnel_for:
  "quiet_rest ts taken \<Longrightarrow> untouched (ts_os ts) taken (tunnel_for ts host dyn ns nm)"
  unfolding tunnel_for_def Let_def quiet_rest_def
  by (auto intro!: preserves_ebind untouched_reads untouched_ensure_target split: option.split)

lemma untouched_cachedKubeconfig:
  assumes "quiet_rest ts taken"
  shows "untouched (ts_os ts) taken (cachedKubeconfig ts src ctx ns nm)"
proof -
  from assms have "quiet_kube (ts_kube ts) taken" "quiet_tunnels (ts_os ts) (ts_proxy ts) taken" by (simp_all add: quiet_rest_def)
  with assms show ?thesis
    unfolding cachedKubeconfig_def Let_def
    by (auto intro!: preserves_pbind preserves_ebind untouched_caches untouched_files untouched_reads
        untouched_tunnel_for untouched_ensure_target split: option.split)
qed

lemma untouched_ResolveTarget: "quiet_rest ts taken \<Longrightarrow> untouched (ts_os ts) taken (ResolveTarget ts target)"
  unfolding ResolveTarget_def by (auto intro!: untouched_cachedKubeconfig split: sum.split option.split)

lemma untouched_readOnlyKubeconfig: "quiet_rest ts taken \<Longrightarrow> untouched os taken (readOnlyKubeconfig ts admin)"
  unfolding readOnlyKubeconfig_def quiet_rest_def by (auto intro!: preserves_ebind untouched_reads)

lemma untouched_exec_access:
  assumes "quiet_rest ts taken"
  shows "untouched (ts_os ts) taken (exec_access ts src ctx ns nm readonly)"
proof -
  from assms have "quiet_kube (ts_kube ts) taken" by (simp add: quiet_rest_def)
  with assms show ?thesis
    unfolding exec_access_def
    by (auto intro!: preserves_ebind untouched_cachedKubeconfig untouched_readOnlyKubeconfig untouched_files untouched_reads)
qed

lemma untouched_allResolvedClusters:
  assumes "quiet_rest ts taken"
  shows "untouched os taken (allResolvedClusters ts)"
proof -
  from assms have "quiet_kube (ts_kube ts) taken" by (simp add: quiet_rest_def)
  then show ?thesis
    unfolding allResolvedClusters_def clusters_of_source_def listClustersCached_def Let_def
    by (auto intro!: preserves_pbind preserves_ebind preserves_eloop untouched_caches untouched_files untouched_reads split: option.split)
qed

lemma untouched_patterns: "quiet_rest ts taken \<Longrightarrow> untouched os taken (resolveClusterPatterns ts patterns strict)"
  unfolding resolveClusterPatterns_def allKnownClusters_def ResolveClusterPatterns_def Let_def
  by (auto intro!: preserves_pbind preserves_ebind untouched_allResolvedClusters split: sum.split)

lemma untouched_queries:
  assumes "quiet_rest ts taken"
  shows "untouched os taken (ListTargets ts)" "untouched os taken (ListClusters ts clusters)"
    and "untouched (ts_os ts) taken (getClusterKubeconfigFanOut ts sched clusters readonly)"
proof -
  show "untouched os taken (ListTargets ts)"
    unfolding ListTargets_def by (auto intro!: preserves_ebind untouched_allResolvedClusters assms)
  show "untouched os taken (ListClusters ts clusters)"
    unfolding ListClusters_def ResolveClusterPatterns_def Let_def
    by (auto intro!: preserves_pbind preserves_ebind untouched_allResolvedClusters assms split: sum.split)
  have "untouched (ts_os ts) taken (kubeconfig_task ts readonly target)" for target
    unfolding kubeconfig_task_def Let_def
    by (auto intro!: preserves_pbind untouched_ResolveTarget untouched_readOnlyKubeconfig assms split: sum.split)
  then show "untouched (ts_os ts) taken (getClusterKubeconfigFanOut ts sched clusters readonly)"
    unfolding getClusterKubeconfigFanOut_def
    by (auto intro!: preserves_pbind untouched_patterns preserves_par assms split: sum.split)
qed


subsection \<open>Commands own their files\<close>

text \<open>The call of \<open>WithKubeconfig\<close> that a command of the exec tools makes.\<close>

definition command_call :: "exec_input \<Rightarrow> string \<times> string gomap \<Rightarrow> exec_call" where
  "command_call inp g = \<lparr>ec_Kubeconfig = fst g, ec_OpenStack = snd g, ec_Command = in_Command inp, ec_Stdin = in_Stdin inp\<rparr>"

definition tool_execer ::
    "('c, 'w, 'm) tools \<Rightarrow> string \<Rightarrow> string list \<Rightarrow> exec_options \<Rightarrow> ('w, 'm) server_scheme
     \<Rightarrow> exec_output res \<times> ('w, 'm) server_scheme" where
  "tool_execer ts = (\<lambda>f args opts. on_host (ts_execer ts f args opts))"

text \<open>
  What the exec tools report: the outcome of a command that, when it was started (in a state
  of \<open>A\<close>), found a kubeconfig of this very cluster, readable by nobody else, in the file that
  KUBECONFIG names.
\<close>

definition private_result ::
    "(('w, 'm) server_scheme \<Rightarrow> bool) \<Rightarrow> ('c, 'w, 'm) tools \<Rightarrow> exec_input \<Rightarrow> bool \<Rightarrow> cluster_exec_result \<Rightarrow> bool" where
  "private_result A ts inp readonly =
     reports ts readonly (\<lambda>g. ran_privately A (lift_os (ts_os ts)) (tool_execer ts) (error_text ts) (command_call inp g))"

definition private_results ::
    "(('w, 'm) server_scheme \<Rightarrow> bool) \<Rightarrow> ('c, 'w, 'm) tools \<Rightarrow> exec_input \<Rightarrow> bool \<Rightarrow> tool_result \<Rightarrow> bool" where
  "private_results A ts inp readonly out \<longleftrightarrow>
     (case res_Content out of Exec_Results rs \<Rightarrow> list_all (private_result A ts inp readonly) rs | _ \<Rightarrow> True)"

fun private_response ::
    "(('w, 'm) server_scheme \<Rightarrow> bool) \<Rightarrow> ('c, 'w, 'm) tools \<Rightarrow> request \<Rightarrow> response \<Rightarrow> bool" where
  "private_response A ts (Tool_Request sched (Exec_Call inp)) (Tool_Response r) = on_ok (private_results A ts inp False) r"
| "private_response A ts (Tool_Request sched (Exec_Readonly_Call inp)) (Tool_Response r) = on_ok (private_results A ts inp True) r"
| "private_response A ts _ _ = True"

text \<open>A request that leaves a file behind could not write it in full.\<close>

definition request_end ::
    "('c, 'w, 'm) tools \<Rightarrow> ('a \<Rightarrow> bool) \<Rightarrow> string set \<Rightarrow> 'a \<Rightarrow> bool" where
  "request_end ts Q X a \<longleftrightarrow> Q a \<and> (whole_writes (ts_os ts) \<longrightarrow> X = {})"

definition daemon_ok ::
    "('c, 'w, 'm) tools \<Rightarrow> ('w host \<Rightarrow> string set) \<Rightarrow> ('w, 'm) server_scheme \<Rightarrow> bool" where
  "daemon_ok ts taken s \<longleftrightarrow> clean (lift_os (ts_os ts)) (drawn taken) s \<and> caches_genuine ts (cache_store s)"

abbreviation owns_files ::
    "(('w, 'm) server_scheme \<Rightarrow> bool) \<Rightarrow> ('c, 'w, 'm) tools \<Rightarrow> ('w host \<Rightarrow> string set) \<Rightarrow> (string set \<Rightarrow> 'a \<Rightarrow> bool)
     \<Rightarrow> (('w, 'm) server_scheme, 'a) prog \<Rightarrow> string set \<Rightarrow> ('w, 'm) server_scheme \<Rightarrow> bool" where
  "owns_files A ts taken \<equiv> owns A (daemon_ok ts taken) (drawn taken) (drawn_files (lift_os (ts_os ts)))"

lemma whole_writes_lift: "whole_writes os \<Longrightarrow> whole_writes (lift_os os)"
  by (simp add: whole_writes_def lift_os_def)

lemma clean_view: "clean (lift_os os) (drawn taken) s \<longleftrightarrow> (\<forall>p \<in> temp_paths os - drawn taken s. drawn_files (lift_os os) s p = None)"
  by (simp add: clean_def drawn_files_def)

lemma owns_untouched:
  assumes "untouched (ts_os ts) taken p" "keeps (caches_genuine ts) p Q"
  shows "owns_files A ts taken (\<lambda>X a. X = {} \<and> Q a) p {} s"
proof -
  have "holds (daemon_ok ts taken) p Q"
    using holds_conj [OF preserves_holds [OF assms(1), where P = "\<lambda>(t, c). \<forall>p \<in> temp_paths (ts_os ts) - t. c p = None"] assms(2)]
    by (simp add: daemon_ok_def [abs_def] clean_view)
  from owns_quiet [OF this assms(1)] show ?thesis .
qed

lemma owns_WithKubeconfig:
  assumes "lawful_temp (ts_os ts) (ts_execer ts) taken"
  shows "owns_files A ts taken (request_end ts (on_ok (ran_privately A (lift_os (ts_os ts)) (tool_execer ts) (error_text ts) (command_call inp g))))
    (WithKubeconfig (lift_os (ts_os ts)) (\<lambda>f args opts. on_host (ts_execer ts f args opts)) (error_text ts)
      (fst g) (snd g) (in_Command inp) (in_Stdin inp)) {} s"
proof -
  have call: "start_call (lift_os (ts_os ts)) (tool_execer ts) (error_text ts) (command_call inp g) =
      WithKubeconfig (lift_os (ts_os ts)) (\<lambda>f args opts. on_host (ts_execer ts f args opts)) (error_text ts)
        (fst g) (snd g) (in_Command inp) (in_Stdin inp)"
    by (simp add: start_call_def command_call_def tool_execer_def)
  have law: "lawful_temp (lift_os (ts_os ts)) (tool_execer ts) (drawn taken)"
    unfolding tool_execer_def by (rule lawful_temp_lift [OF assms])
  have "owns A (\<lambda>s. clean (lift_os (ts_os ts)) (drawn taken) s \<and> caches_genuine ts (cache_store s)) (drawn taken) (drawn_files (lift_os (ts_os ts)))
      (\<lambda>X r. call_end A (lift_os (ts_os ts)) (tool_execer ts) (error_text ts) (command_call inp g) X r \<and> True)
      (start_call (lift_os (ts_os ts)) (tool_execer ts) (error_text ts) (command_call inp g)) {} s"
    by (rule owns_and_holds [OF owns_start_call [OF law]]) (unfold call, rule keeps_WithKubeconfig)
  then show ?thesis
    unfolding call daemon_ok_def [abs_def]
    by (rule owns_conseq) (use whole_writes_lift in \<open>auto simp: call_end_def request_end_def\<close>)
qed


lemma owns_execOneTarget:
  fixes ts :: "('c, 'w, 'm) tools"
  assumes "config_names_ok ts" "object_names_ok ts" "lawful_temp (ts_os ts) (ts_execer ts) taken" "quiet_rest ts taken"
  shows "owns_files A ts taken (request_end ts (private_result A ts inp readonly))
    (execOneTarget ts (in_Command inp) (in_Stdin inp) readonly target) {} s"
proof (cases "\<exists>kn ctx ns nm src. ParseTarget target = Inr (kn, ctx, ns, nm) \<and> map_of (cfg_Kubeconfigs (ts_cfg ts)) kn = Some src")
  case False
  then show ?thesis
    by (auto simp: execOneTarget_def private_result_def request_end_def Let_def split: sum.split option.split)
next
  case True
  then obtain kn ctx ns nm src where t: "ParseTarget target = Inr (kn, ctx, ns, nm)"
    and src: "map_of (cfg_Kubeconfigs (ts_cfg ts)) kn = Some src" by blast
  let ?ran = "\<lambda>g. ran_privately A (lift_os (ts_os ts)) (tool_execer ts) (error_text ts) (command_call inp g)"
  let ?with = "\<lambda>g. WithKubeconfig (lift_os (ts_os ts)) (\<lambda>f args opts. on_host (ts_execer ts f args opts) :: ('w, 'm) server_scheme \<Rightarrow> _)
      (error_text ts) (fst g) (snd g) (in_Command inp) (in_Stdin inp)"
  let ?done = "on_ok (\<lambda>oc. \<exists>g. exec_grant ts src ctx ns nm readonly g \<and> ?ran g oc)"
  have "configured ts src" using src by (auto simp: configured_def)
  note access = owns_untouched [OF untouched_exec_access [OF assms(4)] keeps_exec_access [OF assms(1,2) this]]
  have run: "owns_files A ts taken (request_end ts ?done) (?with g) {} s" if "exec_grant ts src ctx ns nm readonly g" for g s
    by (rule owns_conseq [OF owns_WithKubeconfig [OF assms(3)]])
       (use that in \<open>auto simp: request_end_def on_ok_def simp del: split_paired_Ex split: sum.splits\<close>)
  have "owns_files A ts taken (request_end ts ?done) (ebind (exec_access ts src ctx ns nm readonly) ?with) {} s"
    unfolding ebind_def
  proof (rule owns_pbind [OF access])
    fix X :: "string set" and s :: "('w, 'm) server_scheme" and r :: "(string \<times> string gomap) res"
    assume "X = {} \<and> on_ok (exec_grant ts src ctx ns nm readonly) r"
    with run show "owns_files A ts taken (request_end ts ?done) (case r of Inl e \<Rightarrow> Done (Inl e) | Inr g \<Rightarrow> ?with g) X s"
      by (cases r) (simp_all add: request_end_def)
  qed
  then show ?thesis
    unfolding private_result_def execOneTarget_def t sum.case case_prod_beta' Let_def fst_conv snd_conv src option.case
    by (rule owns_pbind)
       (auto intro: reports_outcome [OF src] simp: request_end_def simp del: split_paired_Ex split: sum.split)
qed


lemma owns_exec_fanout:
  fixes ts :: "('c, 'w, 'm) tools"
  assumes "config_names_ok ts" "object_names_ok ts" "lawful_temp (ts_os ts) (ts_execer ts) taken" "quiet_rest ts taken"
  shows "owns_files A ts taken (request_end ts (on_ok (private_results A ts inp readonly))) (execInClusterFanOut ts sched inp readonly) {} s"
proof -
  let ?task = "execOneTarget ts (in_Command inp) (in_Stdin inp) readonly"
  have "owns_files A ts taken (request_end ts (list_all (private_result A ts inp readonly))) (par sched (map ?task targets)) {} s" for targets s
  proof (rule owns_conseq [OF owns_par_fresh])
    show "owns_files A ts taken (request_end ts (private_result A ts inp readonly)) (map ?task targets ! i) {} s"
      if "i < length (map ?task targets)" for i
      using owns_execOneTarget [OF assms] that by simp
    show "request_end ts (list_all (private_result A ts inp readonly)) X rs"
      if "all_owned (\<lambda>_. request_end ts (private_result A ts inp readonly)) (length (map ?task targets)) X rs" for X rs
      using that by (auto simp: all_owned_def request_end_def owned_by_def list_all_length)
  qed
  then have "owns_files A ts taken (request_end ts (on_ok (private_results A ts inp readonly)))
      (pbind (par sched (map ?task targets)) (\<lambda>results.
        Done (Inr (textResult (Exec_Results results) (list_ex exec_failed results))))) {} s" for targets s
    by (rule owns_pbind) (auto simp: request_end_def private_results_def textResult_def)
  then show ?thesis
    unfolding execInClusterFanOut_def ResolveClusterPatterns_def
    by (auto simp: request_end_def private_results_def textResult_def split: sum.split)
qed


lemma owns_serve:
  fixes ts :: "('c, 'w, 'm) tools"
  assumes "config_names_ok ts" "object_names_ok ts" "lawful_temp (ts_os ts) (ts_execer ts) taken" "quiet_rest ts taken"
  shows "owns_files A ts taken (request_end ts (private_response A ts req)) (serve ts req) {} s"
proof (cases "\<exists>sched inp. req = Tool_Request sched (Exec_Call inp) \<or> req = Tool_Request sched (Exec_Readonly_Call inp)")
  case True
  have reply: "owns_files A ts taken (request_end ts (private_response A ts req))
      (pbind (execInClusterFanOut ts sched inp readonly) (\<lambda>r. Done (Tool_Response r))) {} s"
    if "\<And>r. private_response A ts req (Tool_Response r) = on_ok (private_results A ts inp readonly) r" for sched inp readonly
    by (rule owns_pbind [OF owns_exec_fanout [OF assms]]) (use that in \<open>simp add: request_end_def\<close>)
  from True obtain sched inp where "req = Tool_Request sched (Exec_Call inp) \<or> req = Tool_Request sched (Exec_Readonly_Call inp)"
    by blast
  then show ?thesis
    using reply [of inp False sched] reply [of inp True sched]
    by (elim disjE) (simp_all add: ExecInCluster_def ExecInClusterReadonly_def)
next
  case False
  then have any: "private_response A ts req resp" for resp
    by (cases "(A, ts, req, resp)" rule: private_response.cases) auto
  have tool: "untouched (ts_os ts) taken (BuildServer ts sched tc)" if "req = Tool_Request sched tc" for sched tc
    using that False assms(4) untouched_queries [OF assms(4)]
    by (cases tc) (auto simp: GetClusterKubeconfig_def GetClusterKubeconfigReadonly_def)
  have "untouched (ts_os ts) taken (serve ts req)"
    by (cases req) (auto intro!: preserves_pbind tool untouched_queries untouched_ResolveTarget assms(4))
  note owns_untouched [OF this keeps_serve [OF assms(1,2)]]
  then show ?thesis by (rule owns_conseq) (simp add: any request_end_def)
qed

subsection \<open>The daemon\<close>

definition outside_files ::
    "'w host os \<Rightarrow> ('w host \<Rightarrow> string set) \<Rightarrow> ('w, 'm) server_scheme \<Rightarrow> ('w, 'm) server_scheme \<Rightarrow> bool" where
  "outside_files os taken s s' \<longleftrightarrow> outside_caches s s' \<and> leaves_temp os taken (machine s) (machine s')"

lemma outside_files_drawn:
  "outside_files os taken s s' \<Longrightarrow> drawn taken s' = drawn taken s \<and> drawn_files (lift_os os) s' = drawn_files (lift_os os) s"
  by (auto simp: outside_files_def leaves_temp_def drawn_def drawn_files_machine restrict_map_def)

interpretation daemon_files: owned_cells "daemon_ok ts taken" "drawn taken" "drawn_files (lift_os (ts_os ts))" "outside_files (ts_os ts) taken"
  for ts :: "('c, 'w, 'm) tools" and taken
proof unfold_locales
  fix s s' :: "('w, 'm) server_scheme" assume env: "outside_files (ts_os ts) taken s s'"
  from outside_files_drawn [OF env] show "drawn taken s' = drawn taken s"
    "drawn_files (lift_os (ts_os ts)) s' k = drawn_files (lift_os (ts_os ts)) s k" for k by simp_all
  assume "daemon_ok ts taken s"
  with env outside_files_drawn [OF env] show "daemon_ok ts taken s'"
    by (simp add: daemon_ok_def clean_view outside_files_def outside_caches_def)
qed

text \<open>
  C11: the commands of the daemon run in private. Whatever requests overlap, in whatever
  order their steps and those of their fan-outs come, a command whose outcome is reported
  for a cluster was started in a state of this very run in which the file that KUBECONFIG
  names (whatever the environment or the credentials say) held exactly a kubeconfig granted
  for this cluster, readable by its owner only. Once all requests are answered none of these
  files is left, provided that a write that fails creates no file.
\<close>

theorem commands_run_in_private:
  assumes "config_names_ok ts" "object_names_ok ts" "cache_store s = NewStore d1 d2"
    and "lawful_temp (ts_os ts) (ts_execer ts) taken" "quiet_rest ts taken" "clean (ts_os ts) taken (machine s)"
    and "(world_step (outside_files (ts_os ts) taken))\<^sup>*\<^sup>* (s, map (serve ts) reqs) (s', ps')"
  shows "(\<forall>i < length reqs. \<forall>resp. ps' ! i = Done resp \<longrightarrow> private_response
        (between (outside_files (ts_os ts) taken) (s, map (serve ts) reqs) (s', ps')) ts (reqs ! i) resp)
    \<and> (whole_writes (ts_os ts) \<and> (\<exists>out. ps' = map Done out) \<longrightarrow>
        (\<forall>path \<in> temp_paths (ts_os ts) - taken (machine s). files s' path = None))"
proof (intro conjI allI impI ballI)
  let ?A = "between (outside_files (ts_os ts) taken) (s, map (serve ts) reqs) (s', ps')"
  let ?ends = "\<lambda>i. request_end ts (private_response ?A ts (reqs ! i))"
  have start: "daemon_ok ts taken s"
    using assms(3,6) NewStore_genuine [of ts d1 d2] by (simp add: daemon_ok_def clean_def drawn_def files_machine)
  have owns: "owns_files ?A ts taken (?ends i) (map (serve ts) reqs ! i) {} s" if "i < length (map (serve ts) reqs)" for i
    using owns_serve [OF assms(1,2,4,5)] that by simp
  show "private_response ?A ts (reqs ! i) resp" if "i < length reqs" "ps' ! i = Done resp" for i resp
    using daemon_files.owned_result [OF assms(7) start owns, of i] that by (auto simp: request_end_def)
  fix path assume all: "whole_writes (ts_os ts) \<and> (\<exists>out. ps' = map Done out)" and path: "path \<in> temp_paths (ts_os ts) - taken (machine s)"
  then obtain out where out: "ps' = map Done out" by blast
  have "daemon_ok ts taken s'"
    using daemon_files.shared_out_end [OF assms(7) start owns] by (auto simp: daemon_files.shared_out_def)
  then have "clean (lift_os (ts_os ts)) (drawn taken) s'" by (simp add: daemon_ok_def)
  then show "files s' path = None"
  proof (rule undrawn_gone)
    show "path \<in> temp_paths (lift_os (ts_os ts)) - drawn taken s" using path by (simp add: drawn_def)
    assume "path \<in> drawn taken s' - drawn taken s"
    with all show "drawn_files (lift_os (ts_os ts)) s' path = None"
      by (intro daemon_files.nothing_left [OF assms(7) [unfolded out] start owns [unfolded out]]) (auto simp: request_end_def)
  qed
qed


text \<open>
  The machine of the example in \<open>Commands\<close>, with an API server behind it: a read-only command
  that prints its kubeconfig.
\<close>

definition cat_tools :: "(unit, nat, nat server) tool_server" where
  "cat_tools = \<lparr>ts_cfg = ts_cfg web_tools, ts_os = counting_os, ts_kube = field_kube, ts_execer = print_kubeconfig,
     ts_proxy = \<lparr>px_exec = (\<lambda>_ _ _ h. (Inl refused, h)), px_spawn = (\<lambda>_ _ _ h. (Inl refused, h)), px_await = (\<lambda>_ h. (None, h)),
       px_under_systemd = False, px_shared = (\<lambda>_ _. None)\<rparr>\<rparr>"

definition cat_server :: "nat server" where
  "cat_server =
     \<lparr>files = [''/kc'' \<mapsto> (''doc'', 0)], outside = 0, now = 0, processEntries = [],
      entry_at = (\<lambda>_. \<lparr>pe_process = 0, pe_timer = 0\<rparr>), armed = Map.empty, next_ref = 0, terminated = [],
      cache_store = NewStore 300 60\<rparr>"

definition cat_input :: exec_input where
  "cat_input = \<lparr>in_Clusters = [''prod/admin/team/web''], in_Command = [''cat''], in_Stdin = ''''\<rparr>"

definition cat_result :: cluster_exec_result where
  "cat_result = \<lparr>cx_Cluster = \<lparr>id_Kubeconfig = ''prod'', id_Context = ''admin'', id_Namespace = ''team'', id_Name = ''web''\<rparr>,
     cx_Stdout = Some ''ro'', cx_Stderr = None, cx_ExitCode = Some 0, cx_Error = None\<rparr>"

lemma cat_names: "config_names_ok cat_tools" "object_names_ok cat_tools"
proof -
  show "config_names_ok cat_tools" using web_names(1) by (simp add: config_names_ok_def cat_tools_def)
  show "object_names_ok cat_tools"
    using web_names(2) by (simp add: object_names_ok_def cat_tools_def web_tools_def field_kube_def web_kube_def)
qed

lemma cat_quiet: "quiet_rest cat_tools drawn_names"
  by (simp add: quiet_rest_def quiet_kube_def quiet_tunnels_def quiet_api_def quiet_host_def leaves_temp_def drawn_names_def
      cat_tools_def field_kube_def web_kube_def offline_kube_def)

lemma cat_readonly: "run (readOnlyKubeconfig cat_tools ''kc'') s = (Inr ''ro'', s\<lparr>outside := outside s\<rparr>)"
proof -
  have "trim_space ''tok'' = ''tok''"
    by (rule trim_space_graphic) (simp add: graphic_def)
  then show ?thesis
    by (simp add: readOnlyKubeconfig_def ClientsFromKubeconfigYAML_def clientsFromKubeconfigBytes_def RESTConfigForContext_def CreateReadOnlyKubeconfig_def
        EnsureReadOnlyRBAC_def ensure_service_account_def ensure_cluster_role_def ensure_binding_def
        run_ebind run_pbind run_wrap_err cat_tools_def field_kube_def web_kube_def offline_kube_def)
qed

lemma cat_resolve:
  "\<exists>s'. run (cachedKubeconfig cat_tools (snd (hd (cfg_Kubeconfigs sample_config))) ''admin'' ''team'' ''web'') cat_server = (Inr ''kc'', s')
    \<and> files s' = files cat_server \<and> outside s' = 0"
  by (simp add: cachedKubeconfig_def effective_sshuttle_host_def kubeconfig_Get_def Get_def New_def NewStore_def
      clientsForContext_def RealClientsForContext_def clientsFromKubeconfigBytes_def RESTConfigForContext_def FetchWorkloadKubeconfig_def
      transformed_def tunnel_for_def kubeconfig_Set_def run_pbind run_ebind run_wrap_err cat_tools_def cat_server_def counting_os_def
      field_kube_def web_kube_def web_tools_def sample_tools_def sample_config_def offline_kube_def os_ReadFile_def lift_os_def machine_def Let_def)

lemma cat_command:
  assumes "outside s = 0" "files s = files cat_server"
  shows "\<exists>s'. run (WithKubeconfig (lift_os (ts_os cat_tools)) (\<lambda>f args opts. on_host (ts_execer cat_tools f args opts))
      (error_text cat_tools) ''ro'' [] [''cat''] '''') s = (Inr \<lparr>oc_Stdout = ''ro'', oc_Stderr = '''', oc_ExitCode = 0\<rparr>, s')"
proof -
  have "temp_path ''/tmp'' ''12345678'' \<noteq> ''/kc''" by code_simp
  with assms show ?thesis
    by (simp add: WithKubeconfig_def writeTempKubeconfig_def run_pbind run_ebind cat_tools_def lift_os_def counting_os_def
        os_WriteFile_def put_file_def on_host_def machine_def Let_def os_Remove_def print_kubeconfig_def env_value_exec_env
        exec_outcome_of_def cat_server_def)
qed


lemma join_tmp:
  assumes "CHR ''/'' \<notin> set name" "name \<notin> {'''', ''.'', ''..''}"
  shows "filepath_join [''/tmp'', name] = ''/tmp/'' @ name"
proof -
  have "split_on CHR ''/'' name = [name]" using split_on_go_join [of "[name]" "CHR ''/''"] assms(1) by simp
  with assms(2) show ?thesis by (simp add: filepath_join_def filepath_clean_def clean_step_def Let_def)
qed

lemma temp_path_tmp: "temp_path ''/tmp'' bytes = ''/tmp/capi-shell-mcp-'' @ hex_encode bytes @ ''.yaml''"
proof -
  let ?name = "''capi-shell-mcp-'' @ hex_encode bytes @ ''.yaml''"
  have digit: "hex_digit n \<noteq> CHR ''/''" if "n < 16" for n
    using that by (auto simp: hex_digit_def char_of_eq_iff take_bit_nat_eq_self)
  have "hex_digit (of_char x div 16) \<noteq> CHR ''/''" "hex_digit (of_char x mod 16) \<noteq> CHR ''/''" for x :: char
    using digit [of "of_char x div 16"] digit [of "of_char x mod 16"] nat_of_char_less_256 [of x] by (simp_all add: less_mult_imp_div_less)
  from this [symmetric] have "CHR ''/'' \<notin> set ?name" by (simp add: hex_encode_def)
  then show ?thesis unfolding temp_path_def by (subst join_tmp) simp_all
qed

lemma cat_answer:
  "\<exists>s'. run (serve cat_tools (Tool_Request [] (Exec_Readonly_Call cat_input))) cat_server =
     (Tool_Response (Inr (textResult (Exec_Results [cat_result]) False)), s')"
proof -
  let ?src = "snd (hd (cfg_Kubeconfigs sample_config))"
  have src: "map_of (cfg_Kubeconfigs (ts_cfg cat_tools)) ''prod'' = Some ?src"
    by (simp add: cat_tools_def web_tools_def sample_tools_def sample_config_def)
  obtain s1 where "run (cachedKubeconfig cat_tools ?src ''admin'' ''team'' ''web'') cat_server = (Inr ''kc'', s1)"
    and s1: "files s1 = files cat_server" "outside s1 = 0" using cat_resolve by blast
  then have "run (exec_access cat_tools ?src ''admin'' ''team'' ''web'' True) cat_server = (Inr (''ro'', []), s1\<lparr>outside := outside s1\<rparr>)"
    by (simp add: exec_access_def run_ebind cat_readonly)
  moreover obtain s2 where "run (WithKubeconfig (lift_os (ts_os cat_tools)) (\<lambda>f args opts. on_host (ts_execer cat_tools f args opts))
      (error_text cat_tools) ''ro'' [] [''cat''] '''') (s1\<lparr>outside := outside s1\<rparr>) = (Inr \<lparr>oc_Stdout = ''ro'', oc_Stderr = '''', oc_ExitCode = 0\<rparr>, s2)"
    using cat_command [of "s1\<lparr>outside := outside s1\<rparr>"] s1 by auto
  ultimately have "run (execOneTarget cat_tools [''cat''] '''' True ''prod/admin/team/web'') cat_server = (cat_result, s2)"
    using src by (simp add: execOneTarget_def ParseTarget_def run_pbind run_ebind Let_def cat_result_def nonEmptyPtr_def)
  moreover have "list_all full_path [''prod/admin/team/web'']" "first_seen [''prod/admin/team/web''] = [''prod/admin/team/web'']"
    by (simp_all add: full_path_def)
  ultimately show ?thesis
    by (simp add: resolve_strict(1) cat_input_def ExecInClusterReadonly_def execInClusterFanOut_def run_pbind exec_failed_def cat_result_def)
qed

theorem commands_run_in_private_witness:
  "\<exists>s'. private_result
     (between (outside_files (ts_os cat_tools) drawn_names)
       (cat_server, map (serve cat_tools) [Tool_Request [] (Exec_Readonly_Call cat_input)])
       (s', [Done (Tool_Response (Inr (textResult (Exec_Results [cat_result]) False)))]))
     cat_tools cat_input True cat_result"
proof -
  let ?req = "Tool_Request [] (Exec_Readonly_Call cat_input)"
  obtain s' where "run (serve cat_tools ?req) cat_server = (Tool_Response (Inr (textResult (Exec_Results [cat_result]) False)), s')"
    using cat_answer by blast
  from world_of_pool [OF pool_steps_run_head [OF this]]
  have steps: "(world_step (outside_files (ts_os cat_tools) drawn_names))\<^sup>*\<^sup>* (cat_server, map (serve cat_tools) [?req])
      (s', [Done (Tool_Response (Inr (textResult (Exec_Results [cat_result]) False)))])" by simp
  have "cache_store cat_server = NewStore 300 60" "clean (ts_os cat_tools) drawn_names (machine cat_server)"
    by (auto simp: cat_server_def clean_def cat_tools_def machine_def temp_paths_def counting_os_def temp_path_tmp)
  moreover have "lawful_temp (ts_os cat_tools) (ts_execer cat_tools) drawn_names"
    using counting_os_lawful by (simp add: cat_tools_def)
  ultimately show ?thesis
    using commands_run_in_private [OF cat_names _ _ cat_quiet _ steps]
    by (intro exI [of _ s']) (auto simp: private_results_def textResult_def)
qed

end
