(* ===== verification/Provider.thy ===== *)
theory Provider
  imports Tools
begin

text \<open>
  \<open>internal/embed/provider.go\<close>: the clients of the embedded kubernetes-mcp-server.

  The provider keeps one manager of that library for each target, built from the kubeconfig
  that a \<open>TargetResolver\<close> returns (in the daemon: the tool server). The library is the
  parameter \<open>kmcp\<close>; a manager is a value of the type variable \<open>'g\<close>. The state extends
  that of the tool server, so calls of the tools and of the provider can run side by side.
\<close>

subsection \<open>The resolver and the library\<close>

record 's resolver =
  rs_ResolveTarget :: "string \<Rightarrow> ('s, string res) prog"
  rs_ListTargets :: "('s, string list res) prog"

definition server_resolver :: "('c, 'w, 'm) tools \<Rightarrow> ('w, 'm) server_scheme resolver" where
  "server_resolver ts = \<lparr>rs_ResolveTarget = ResolveTarget ts, rs_ListTargets = ListTargets ts\<rparr>"

record ('w, 'r, 'c, 'f, 'g, 'k) kmcp =
  km_unknown_target :: goerr
  km_load :: "string \<Rightarrow> 'r res"
  km_client_config :: "'r \<Rightarrow> 'c res"
  km_new_manager :: "'f \<Rightarrow> 'c \<Rightarrow> 'r \<Rightarrow> 'w \<Rightarrow> 'g res \<times> 'w"
  km_derived :: "'g \<Rightarrow> 'w \<Rightarrow> 'k res \<times> 'w"
  km_set_config :: "'f \<Rightarrow> 'g \<Rightarrow> 'w \<Rightarrow> 'w"
  km_close :: "'g \<Rightarrow> 'w \<Rightarrow> 'w"

subsection \<open>The provider\<close>

record ('w, 'f, 'g) embedding = "'w server" +
  managers :: "'g gomap"
  provider_cfg :: 'f

definition newCapiProvider :: "'f \<Rightarrow> ('w, 'f, 'g, 'm) embedding_scheme \<Rightarrow> ('w, 'f, 'g, 'm) embedding_scheme" where
  "newCapiProvider cfg s = s\<lparr>managers := [], provider_cfg := cfg\<rparr>"

definition targetParameterName :: string where
  "targetParameterName = ''cluster''"

definition IsMultiTarget :: bool where
  "IsMultiTarget = True"

definition GetDefaultTarget :: string where
  "GetDefaultTarget = ''''"

definition GetTargetParameterName :: string where
  "GetTargetParameterName = targetParameterName"

definition GetTargets :: "'s resolver \<Rightarrow> ('s, string list res) prog" where
  "GetTargets rs = rs_ListTargets rs"

definition lookup_manager ::
    "string \<Rightarrow> ('w, 'f, 'g, 'm) embedding_scheme \<Rightarrow> 'g option \<times> ('w, 'f, 'g, 'm) embedding_scheme" where
  "lookup_manager target s = (map_of (managers s) target, s)"

definition store_manager ::
    "string \<Rightarrow> 'g \<Rightarrow> ('w, 'f, 'g, 'm) embedding_scheme \<Rightarrow> unit \<times> ('w, 'f, 'g, 'm) embedding_scheme" where
  "store_manager target mgr s = ((), s\<lparr>managers := AList.update target mgr (managers s)\<rparr>)"

definition load_cfg :: "('w, 'f, 'g, 'm) embedding_scheme \<Rightarrow> 'f \<times> ('w, 'f, 'g, 'm) embedding_scheme" where
  "load_cfg s = (provider_cfg s, s)"

definition managerForTarget ::
    "('w, 'r, 'c, 'f, 'g, 'k) kmcp \<Rightarrow> ('w, 'f, 'g, 'm) embedding_scheme resolver \<Rightarrow> string
     \<Rightarrow> (('w, 'f, 'g, 'm) embedding_scheme, 'g res) prog" where
  "managerForTarget km rs target =
     pbind (call (lookup_manager target)) (\<lambda>mgr.
     case mgr of
       Some m \<Rightarrow> Done (Inr m)
     | None \<Rightarrow>
         pbind (rs_ResolveTarget rs target) (\<lambda>r.
         case r of
           Inl e \<Rightarrow> Done (Inl (Bothf (km_unknown_target km) [Txt '': '', Txt target, Txt '': ''] e))
         | Inr kubeconfigYAML \<Rightarrow>
             ebind (Done (wrap_res [Txt ''embed: parsing kubeconfig for target '', Txt target, Txt '': ''] (km_load km kubeconfigYAML))) (\<lambda>rawConfig.
             ebind (Done (wrap_res [Txt ''embed: building rest config for target '', Txt target, Txt '': ''] (km_client_config km rawConfig))) (\<lambda>restConfig.
             pbind (call load_cfg) (\<lambda>cfg.
             ebind (wrap_err [Txt ''embed: building manager for target '', Txt target, Txt '': ''] (api (km_new_manager km cfg restConfig rawConfig))) (\<lambda>newMgr.
             pbind (call (store_manager target newMgr)) (\<lambda>_.
             Done (Inr newMgr))))))))"

definition GetDerivedKubernetes ::
    "('w, 'r, 'c, 'f, 'g, 'k) kmcp \<Rightarrow> ('w, 'f, 'g, 'm) embedding_scheme resolver \<Rightarrow> string
     \<Rightarrow> (('w, 'f, 'g, 'm) embedding_scheme, 'k res) prog" where
  "GetDerivedKubernetes km rs target =
     ebind (managerForTarget km rs target) (\<lambda>mgr. api (km_derived km mgr))"

text \<open>A \<open>nil\<close> configuration is \<open>None\<close>.\<close>

definition ReloadConfig :: "'f option \<Rightarrow> (('w, 'f, 'g, 'm) embedding_scheme, unit res) prog" where
  "ReloadConfig cfg =
     (case cfg of
        None \<Rightarrow> Done (Inl (Errorf [Txt ''embed: config cannot be nil'']))
      | Some f \<Rightarrow> call (\<lambda>s. (Inr (), s\<lparr>provider_cfg := f\<rparr>)))"

definition PublishKubernetesConfig ::
    "('w, 'r, 'c, 'f, 'g, 'k) kmcp \<Rightarrow> 'f \<Rightarrow> (('w, 'f, 'g, 'm) embedding_scheme, unit) prog" where
  "PublishKubernetesConfig km cfg =
     call (\<lambda>s. ((), s\<lparr>outside := fold (\<lambda>(_, mgr). km_set_config km cfg mgr) (managers s) (outside s)\<rparr>))"

definition provider_Close ::
    "('w, 'r, 'c, 'f, 'g, 'k) kmcp \<Rightarrow> (('w, 'f, 'g, 'm) embedding_scheme, unit) prog" where
  "provider_Close km =
     call (\<lambda>s. ((), s\<lparr>outside := fold (\<lambda>(_, mgr). km_close km mgr) (managers s) (outside s)\<rparr>))"


subsection \<open>The tool server leaves the provider's memory alone\<close>

text \<open>\<open>framed p\<close>: no step of \<open>p\<close> touches what extends the state of the tool server.\<close>

abbreviation framed :: "(('w, 'm) server_scheme, 'a) prog \<Rightarrow> bool" where
  "framed \<equiv> preserves server.more"

lemma framed_on_host: "framed (call (on_host f))"
  by (rule preserves_call) (simp add: on_host_def split: prod.split)

lemma framed_api: "framed (api f)"
  unfolding api_def by (rule preserves_call) simp

lemma framed_call_same: "framed (call (\<lambda>s. (f s, s)))"
  by (rule preserves_call) simp

lemmas framed_intros = preserves_pbind preserves_ebind preserves_wrap_err preserves_eloop
  framed_on_host framed_api framed_call_same preserves_call

lemma framed_await_startup: "framed (call (await_startup px pid t) :: (('w, 'm) server_scheme, int option option) prog)"
proof (rule preserves_call)
  fix s :: "('w, 'm) server_scheme"
  have "server.more s' = server.more s" if "on_host (px_await px pid) s = (r, s')" for r s'
    using that by (auto simp: on_host_def split: prod.splits)
  then show "server.more (snd (await_startup px pid t s)) = server.more s"
    by (auto simp: await_startup_def split: prod.split option.split)
qed

lemma framed_ensure_target: "framed (ensure_target ts pt)"
  unfolding ensure_target_def EnsureProxy_def singleflight_Do_def Let_def
    ensureProcessProxy_def ensureSystemdProxy_def isUnitActive_def
  by (auto intro!: framed_intros framed_await_startup simp: quiet_steps split: option.split)

lemma framed_reads:
  "framed (clientsForContext ts src ctx)" "framed (FetchWorkloadKubeconfig K core ns nm)"
  "framed (FetchAPIServerInfo K dyn ns nm)" "framed (ListClustersForContext K dyn kn ctx cf)"
  "framed (resolveContexts ts src)"
  unfolding clientsForContext_def RealClientsForContext_def FetchWorkloadKubeconfig_def FetchAPIServerInfo_def
    fetchOpenStackCluster_def ListClustersForContext_def resolveContexts_def Let_def
  by (auto intro!: framed_intros split: option.split)

lemma framed_caches:
  "framed (call (clusters_Get k))" "framed (call (clusters_Set k v))"
  "framed (call (kubeconfig_Get k))" "framed (call (kubeconfig_Set k w))"
  by (auto intro!: preserves_call simp: clusters_Get_def clusters_Set_def kubeconfig_Get_def kubeconfig_Set_def split: prod.split)

lemma framed_tunnel_for: "framed (tunnel_for ts host dyn ns nm)"
  unfolding tunnel_for_def Let_def
  by (auto intro!: preserves_ebind framed_reads framed_ensure_target split: option.split)

lemma framed_ResolveTarget: "framed (ResolveTarget ts target)"
  unfolding ResolveTarget_def cachedKubeconfig_def Let_def
  by (auto intro!: preserves_pbind preserves_ebind framed_caches framed_reads framed_tunnel_for framed_ensure_target
      split: sum.split option.split)

lemma framed_allResolvedClusters: "framed (allResolvedClusters ts)"
  unfolding allResolvedClusters_def clusters_of_source_def listClustersCached_def Let_def
  by (auto intro!: preserves_pbind preserves_ebind preserves_eloop framed_caches framed_reads split: option.split)

lemma framed_ListTargets: "framed (ListTargets ts)"
  unfolding ListTargets_def by (auto intro!: preserves_ebind framed_allResolvedClusters)


subsection \<open>Managers belong to their targets\<close>

definition built_from :: "('w, 'r, 'c, 'f, 'g, 'k) kmcp \<Rightarrow> string \<Rightarrow> 'g \<Rightarrow> bool" where
  "built_from km kc mgr \<longleftrightarrow>
     (\<exists>raw rest cfg w. km_load km kc = Inr raw \<and> km_client_config km raw = Inr rest
        \<and> fst (km_new_manager km cfg rest raw w) = Inr mgr)"

definition manager_for :: "('w, 'r, 'c, 'f, 'g, 'k) kmcp \<Rightarrow> (string \<Rightarrow> string \<Rightarrow> bool) \<Rightarrow> string \<Rightarrow> 'g \<Rightarrow> bool" where
  "manager_for km good target mgr \<longleftrightarrow> (\<exists>kc. good target kc \<and> built_from km kc mgr)"

definition managers_for :: "('w, 'r, 'c, 'f, 'g, 'k) kmcp \<Rightarrow> (string \<Rightarrow> string \<Rightarrow> bool) \<Rightarrow> 'g gomap \<Rightarrow> bool" where
  "managers_for km good ms \<longleftrightarrow> (\<forall>t mgr. map_of ms t = Some mgr \<longrightarrow> manager_for km good t mgr)"

definition provider_invariant ::
    "('w, 'r, 'c, 'f, 'g, 'k) kmcp \<Rightarrow> (('w, 'f, 'g, 'm) embedding_scheme \<Rightarrow> bool) \<Rightarrow> (string \<Rightarrow> string \<Rightarrow> bool)
     \<Rightarrow> ('w, 'f, 'g, 'm) embedding_scheme \<Rightarrow> bool" where
  "provider_invariant km ok good s \<longleftrightarrow> ok s \<and> managers_for km good (managers s)"

text \<open>
  The contract of a \<open>TargetResolver\<close>: while its own invariant \<open>ok\<close> holds it returns only
  kubeconfigs that are \<open>good\<close> for the target, its invariant is about its own part of the
  state, and it does not touch the managers.
\<close>

locale target_resolver =
  fixes resolver :: "('w, 'f, 'g, 'm) embedding_scheme resolver"
    and ok :: "('w, 'f, 'g, 'm) embedding_scheme \<Rightarrow> bool"
    and good :: "string \<Rightarrow> string \<Rightarrow> bool"
  assumes resolve_good: "holds ok (rs_ResolveTarget resolver t) (on_ok (good t))"
    and resolve_frame: "preserves managers (rs_ResolveTarget resolver t)"
    and ok_frame: "ok (s\<lparr>managers := ms\<rparr>) = ok s" "ok (s\<lparr>outside := w\<rparr>) = ok s" "ok (s\<lparr>provider_cfg := f\<rparr>) = ok s"
begin

lemma resolve_keeps: "holds (provider_invariant km ok good) (rs_ResolveTarget resolver t) (on_ok (good t))"
  unfolding provider_invariant_def
  using holds_conj [OF resolve_good preserves_holds [OF resolve_frame]] by simp

lemma new_manager_keeps:
  assumes "good t kc" "km_load km kc = Inr raw" "km_client_config km raw = Inr rest"
  shows "holds (provider_invariant km ok good) (api (km_new_manager km cfg rest raw)) (on_ok (manager_for km good t))"
proof -
  have "manager_for km good t mgr" if "fst (km_new_manager km cfg rest raw w) = Inr mgr" for w mgr
    using assms that unfolding manager_for_def built_from_def by blast
  then show ?thesis
    unfolding api_def by (intro holds_call) (auto simp: provider_invariant_def ok_frame on_ok_def split: sum.split)
qed

lemma store_manager_keeps:
  "manager_for km good t mgr \<Longrightarrow> holds (provider_invariant km ok good) (call (store_manager t mgr)) (\<lambda>_. True)"
  by (rule holds_call) (auto simp: store_manager_def provider_invariant_def ok_frame managers_for_def update_conv')

lemma managerForTarget_keeps:
  "holds (provider_invariant km ok good) (managerForTarget km resolver t) (on_ok (manager_for km good t))"
  unfolding managerForTarget_def
proof (rule holds_pbind [where Q' = "\<lambda>hit. \<forall>mgr. hit = Some mgr \<longrightarrow> manager_for km good t mgr"], goal_cases)
  case 1
  show ?case by (rule holds_call) (auto simp: lookup_manager_def provider_invariant_def managers_for_def)
next
  case (2 hit)
  have cfg: "holds (provider_invariant km ok good) (call load_cfg) (\<lambda>_. True)"
    by (rule holds_call) (simp add: load_cfg_def)
  have store: "holds (provider_invariant km ok good) (pbind (call (store_manager t mgr)) (\<lambda>_. Done (Inr mgr))) (on_ok (manager_for km good t))"
    if "manager_for km good t mgr" for mgr
    using store_manager_keeps [OF that] that by (auto intro: holds_pbind)
  have rest: "holds (provider_invariant km ok good)
      (ebind (Done (wrap_res e1 (km_load km kc))) (\<lambda>raw. ebind (Done (wrap_res e2 (km_client_config km raw))) (\<lambda>rest.
        pbind (call load_cfg) (\<lambda>cfg. ebind (wrap_err e3 (api (km_new_manager km cfg rest raw))) (\<lambda>mgr.
        pbind (call (store_manager t mgr)) (\<lambda>_. Done (Inr mgr))))))) (on_ok (manager_for km good t))"
    if "good t kc" for kc e1 e2 e3
  proof (cases "km_load km kc")
    case (Inr raw)
    show ?thesis
    proof (cases "km_client_config km raw")
      case cc: (Inr rest)
      from new_manager_keeps [OF that Inr cc] Inr cc show ?thesis
        by (auto intro!: holds_pbind [OF cfg] holds_ebind [OF holds_wrap_err] store)
    qed (simp add: Inr)
  qed simp
  show ?case
  proof (cases hit)
    case None
    then show ?thesis
      using rest by (auto intro!: holds_pbind [OF resolve_keeps] simp: on_ok_def split: sum.split)
  next
    case (Some mgr)
    with 2 show ?thesis by simp
  qed
qed

end


text \<open>
  The tool server keeps the contract. What it promises rests on names, as before, so the
  promise is made under that condition.
\<close>

definition names_ok :: "('c, 'w, 's) tool_server \<Rightarrow> bool" where
  "names_ok ts \<longleftrightarrow> config_names_ok ts \<and> object_names_ok ts"

definition resolver_ok :: "('c, 'w, 's) tool_server \<Rightarrow> ('w, 'm) server_scheme \<Rightarrow> bool" where
  "resolver_ok ts s \<longleftrightarrow> (names_ok ts \<longrightarrow> caches_genuine ts (cache_store s))"

definition resolver_good :: "('c, 'w, 's) tool_server \<Rightarrow> string \<Rightarrow> string \<Rightarrow> bool" where
  "resolver_good ts target kc \<longleftrightarrow> (names_ok ts \<longrightarrow> served_target ts target kc)"

lemma resolve_promise: "holds (resolver_ok ts) (ResolveTarget ts target) (on_ok (resolver_good ts target))"
proof -
  have "holds (\<lambda>s. names_ok ts \<longrightarrow> caches_genuine ts (cache_store s)) (ResolveTarget ts target)
      (on_ok (\<lambda>kc. names_ok ts \<longrightarrow> served_target ts target kc))"
  proof (cases "names_ok ts")
    case True
    then show ?thesis using keeps_ResolveTarget [of ts target] by (simp add: names_ok_def)
  next
    case False
    then show ?thesis by (simp add: holds_any)
  qed
  then show ?thesis by (simp add: resolver_ok_def [abs_def] resolver_good_def [abs_def])
qed

lemma framed_managers: "framed p \<Longrightarrow> preserves managers (p :: (('w, 'f, 'g, 'm) embedding_scheme, 'a) prog)"
proof (induction p)
  case (Atom u c)
  have "managers (u s) = managers s" for s
    using Atom.prems by (cases "u s", cases s) (simp, metis server.select_convs(2) embedding.select_convs(1))
  with Atom show ?case by simp
qed simp

interpretation server_targets: target_resolver "server_resolver ts" "resolver_ok ts" "resolver_good ts" for ts
  by unfold_locales
     (simp_all add: server_resolver_def resolve_promise framed_managers framed_ResolveTarget resolver_ok_def)


subsection \<open>The whole daemon\<close>

lemma framed_readOnlyKubeconfig: "framed (readOnlyKubeconfig ts kc)"
  unfolding readOnlyKubeconfig_def CreateReadOnlyKubeconfig_def EnsureReadOnlyRBAC_def ensure_service_account_def
    ensure_cluster_role_def ensure_binding_def Let_def
  by (auto intro!: framed_intros split: sum.split list.split prod.split)

lemma framed_kubeconfig_task: "framed (kubeconfig_task ts readonly target)"
  unfolding kubeconfig_task_def Let_def
  by (auto intro!: preserves_pbind framed_ResolveTarget framed_readOnlyKubeconfig split: sum.split)

lemma framed_WithKubeconfig:
  "framed (WithKubeconfig (lift_os os) (\<lambda>f args opts. on_host (ex f args opts)) et kc env command stdin)"
  unfolding WithKubeconfig_def writeTempKubeconfig_def Let_def
  by (auto intro!: framed_intros simp: lift_os_def os_WriteFile_def os_Remove_def put_file_def split: list.split sum.split option.split)

lemma framed_FetchOpenStackEnv: "framed (FetchOpenStackEnv K dyn core ns nm)"
  unfolding FetchOpenStackEnv_def fetchOpenStackCluster_def Let_def
  by (auto intro!: framed_intros split: option.split)

lemma framed_execOneTarget: "framed (execOneTarget ts command stdin readonly target)"
  unfolding execOneTarget_def exec_access_def cachedKubeconfig_def Let_def
  by (auto intro!: preserves_pbind preserves_ebind framed_caches framed_reads framed_tunnel_for framed_ensure_target
      framed_readOnlyKubeconfig framed_FetchOpenStackEnv framed_WithKubeconfig split: sum.split option.split)

lemma preserves_resolve: "preserves v listKnown \<Longrightarrow> preserves v (ResolveClusterPatterns ps listKnown strict)"
  unfolding ResolveClusterPatterns_def Let_def by (auto intro!: preserves_ebind split: sum.split)

lemma framed_BuildServer: "framed (BuildServer ts sched tc)"
proof -
  have known: "framed (allKnownClusters ts)"
    unfolding allKnownClusters_def by (auto intro!: preserves_ebind framed_allResolvedClusters)
  show ?thesis
    by (cases tc)
       (auto intro!: preserves_pbind preserves_ebind preserves_par preserves_resolve known framed_allResolvedClusters
          framed_kubeconfig_task framed_execOneTarget split: sum.split
          simp: ListClusters_def GetClusterKubeconfig_def GetClusterKubeconfigReadonly_def ExecInCluster_def
            ExecInClusterReadonly_def getClusterKubeconfigFanOut_def execInClusterFanOut_def resolveClusterPatterns_def)
qed

lemma framed_serve: "framed (serve ts req)"
  by (cases req) (auto intro!: preserves_pbind framed_BuildServer framed_ResolveTarget framed_ListTargets)

datatype 'f provider_request =
    Manager_Request string
  | Reload_Request "'f option"
  | Publish_Request 'f
  | Close_Request
  | Daemon_Request request

datatype 'g provider_response =
    Manager_Response "'g res"
  | Acknowledged
  | Daemon_Response response

fun provide ::
    "('c, 'w, ('f, 'g, 'm) embedding_ext) tools \<Rightarrow> ('w, 'r, 'cc, 'f, 'g, 'k) kmcp \<Rightarrow> 'f provider_request
     \<Rightarrow> (('w, 'f, 'g, 'm) embedding_scheme, 'g provider_response) prog" where
  "provide ts km (Manager_Request t) =
     pbind (managerForTarget km (server_resolver ts) t) (\<lambda>r. Done (Manager_Response r))"
| "provide ts km (Reload_Request cfg) = pbind (ReloadConfig cfg) (\<lambda>_. Done Acknowledged)"
| "provide ts km (Publish_Request cfg) = pbind (PublishKubernetesConfig km cfg) (\<lambda>_. Done Acknowledged)"
| "provide ts km Close_Request = pbind (provider_Close km) (\<lambda>_. Done Acknowledged)"
| "provide ts km (Daemon_Request req) = pbind (serve ts req) (\<lambda>r. Done (Daemon_Response r))"


fun provided_ok ::
    "('c, 'w, 'm) tools \<Rightarrow> ('w, 'r, 'cc, 'f, 'g, 'k) kmcp \<Rightarrow> 'f provider_request \<Rightarrow> 'g provider_response \<Rightarrow> bool" where
  "provided_ok ts km (Manager_Request t) (Manager_Response r) = on_ok (manager_for km (resolver_good ts) t) r"
| "provided_ok ts km (Daemon_Request req) (Daemon_Response r) = response_ok ts req r"
| "provided_ok ts km (Reload_Request cfg) Acknowledged = True"
| "provided_ok ts km (Publish_Request cfg) Acknowledged = True"
| "provided_ok ts km Close_Request Acknowledged = True"
| "provided_ok ts km _ _ = False"

lemma serve_keeps_invariant:
  assumes "names_ok ts"
  shows "holds (provider_invariant km (resolver_ok ts) (resolver_good ts)) (serve ts req) (response_ok ts req)"
proof -
  have "holds (\<lambda>s. resolver_ok ts s) (serve ts req) (response_ok ts req)"
    using keeps_serve [of ts req] assms by (simp add: resolver_ok_def [abs_def] names_ok_def)
  from holds_conj [OF this preserves_holds [OF framed_managers [OF framed_serve]]]
  show ?thesis by (simp add: provider_invariant_def [abs_def])
qed

lemma provide_keeps_invariant:
  assumes "names_ok ts"
  shows "holds (provider_invariant km (resolver_ok ts) (resolver_good ts)) (provide ts km req) (provided_ok ts km req)"
proof (cases req)
  case (Manager_Request t)
  then show ?thesis by (auto intro: holds_pbind [OF server_targets.managerForTarget_keeps])
next
  case (Reload_Request cfg)
  have "holds (provider_invariant km (resolver_ok ts) (resolver_good ts)) (ReloadConfig cfg) (\<lambda>_. True)"
    by (auto simp: ReloadConfig_def provider_invariant_def resolver_ok_def intro!: holds_call split: option.split)
  with Reload_Request show ?thesis by (auto intro: holds_pbind)
next
  case (Publish_Request cfg)
  have "holds (provider_invariant km (resolver_ok ts) (resolver_good ts)) (PublishKubernetesConfig km cfg) (\<lambda>_. True)"
    by (auto simp: PublishKubernetesConfig_def provider_invariant_def resolver_ok_def intro!: holds_call)
  with Publish_Request show ?thesis by (auto intro: holds_pbind)
next
  case Close_Request
  have "holds (provider_invariant km (resolver_ok ts) (resolver_good ts)) (provider_Close km) (\<lambda>_. True)"
    by (auto simp: provider_Close_def provider_invariant_def resolver_ok_def intro!: holds_call)
  with Close_Request show ?thesis by (auto intro: holds_pbind)
next
  case (Daemon_Request req)
  then show ?thesis by (auto intro: holds_pbind [OF serve_keeps_invariant [OF assms]])
qed

definition outside_memory :: "('w, 'f, 'g, 'm) embedding_scheme \<Rightarrow> ('w, 'f, 'g, 'm) embedding_scheme \<Rightarrow> bool" where
  "outside_memory s s' \<longleftrightarrow> cache_store s' = cache_store s \<and> managers s' = managers s"

text \<open>
  C2: whatever the daemon and the embedded library are asked to do at once, and whatever
  happens around them, the manager that a target gets was built from a kubeconfig served for
  exactly that target.
\<close>

theorem managers_belong_to_targets:
  assumes "config_names_ok ts" "object_names_ok ts"
    and "cache_store s = NewStore d1 d2" "managers s = []"
    and "(world_step outside_memory)\<^sup>*\<^sup>* (s, map (provide ts km) reqs) (s', ps')"
    and "i < length reqs" "reqs ! i = Manager_Request target" "ps' ! i = Done (Manager_Response (Inr mgr))"
  shows "\<exists>kc. served_target ts target kc \<and> built_from km kc mgr"
proof -
  have names: "names_ok ts" using assms(1,2) by (simp add: names_ok_def)
  have "provided_ok ts km (reqs ! i) (Manager_Response (Inr mgr))"
  proof (rule world_steps_result [OF assms(5)])
    show "provider_invariant km (resolver_ok ts) (resolver_good ts) s"
      by (simp add: provider_invariant_def resolver_ok_def assms(3,4) NewStore_genuine managers_for_def)
    show "pool_holds (provider_invariant km (resolver_ok ts) (resolver_good ts)) (map (provide ts km) reqs) (\<lambda>i. provided_ok ts km (reqs ! i))"
      by (simp add: pool_holds_def provide_keeps_invariant [OF names])
    show "provider_invariant km (resolver_ok ts) (resolver_good ts) s2" if "outside_memory s1 s2" "provider_invariant km (resolver_ok ts) (resolver_good ts) s1" for s1 s2
      using that by (simp add: outside_memory_def provider_invariant_def resolver_ok_def)
  qed (use assms(6,8) in simp_all)
  with names assms(7) show ?thesis by (auto simp: manager_for_def resolver_good_def)
qed


definition sample_kmcp :: "(unit, string, string, unit, string, unit) kmcp" where
  "sample_kmcp = \<lparr>km_unknown_target = Lib_Error ''unknown target'', km_load = Inr, km_client_config = Inr,
     km_new_manager = (\<lambda>_ _ raw w. (Inr raw, w)), km_derived = (\<lambda>_ w. (Inr (), w)),
     km_set_config = (\<lambda>_ _ w. w), km_close = (\<lambda>_ w. w)\<rparr>"

definition tunnel_key :: string where
  "tunnel_key = ''10.0.0.1:6443''"

definition sample_embedding :: "(unit, unit, string) embedding" where
  "sample_embedding =
     \<lparr>files = [''/kc'' \<mapsto> (''doc'', 0)], outside = (), now = 0, processEntries = [],
      entry_at = (\<lambda>_. \<lparr>pe_process = 0, pe_timer = 0\<rparr>), armed = Map.empty, next_ref = 0, terminated = [],
      cache_store = \<lparr>ClusterList = New 300, KubeconfigCache = \<lparr>ttl = 60, store =
        [''prod:admin:team:web'' \<mapsto> \<lparr>val = \<lparr>Kubeconfig = ''kc'', ProxyTarget =
           Some \<lparr>pt_SshuttleHost = ''jump'', pt_APIServerIP = ''10.0.0.1'', pt_APIServerPort = ''6443''\<rparr>\<rparr>, expiresAt = 5\<rparr>]\<rparr>\<rparr>,
      managers = [], provider_cfg = ()\<rparr>"

definition embedded_tools :: "(unit, unit, (unit, unit, string) embedding) tool_server" where
  "embedded_tools = \<lparr>ts_cfg = sample_config\<lparr>cfg_SshuttleHost := ''''\<rparr>, ts_os = sample_os, ts_kube = web_kube,
     ts_execer = (\<lambda>_ _ _ h. (Inl refused, h)), ts_proxy = sample_deps\<rparr>"

lemma embedded_manager:
  "\<exists>s1. run (managerForTarget sample_kmcp (server_resolver embedded_tools) ''prod/admin/team/web'') sample_embedding = (Inr ''kc'', s1)
    \<and> map_of (managers s1) ''prod/admin/team/web'' = Some ''kc'' \<and> lease s1 tunnel_key \<noteq> None"
  by (simp add: managerForTarget_def lookup_manager_def load_cfg_def store_manager_def server_resolver_def sample_kmcp_def
      ResolveTarget_def ParseTarget_def cachedKubeconfig_def run_pbind run_ebind run_wrap_err kubeconfig_Get_def Get_def KubeconfigKey_def
      sample_config_def sample_embedding_def embedded_tools_def ensure_target_def EnsureProxy_def singleflight_Do_def
      sample_deps_def ensure_steps on_host_def targetKey_def Let_def lease_def tunnel_key_def)





lemma embedded_names: "config_names_ok embedded_tools" "object_names_ok embedded_tools"
  using web_names by (simp_all add: config_names_ok_def object_names_ok_def embedded_tools_def web_tools_def sample_tools_def)

lemma embedded_fresh_manager:
  "fst (run (provide embedded_tools sample_kmcp (Manager_Request ''prod/admin/team/web''))
     (sample_embedding\<lparr>cache_store := NewStore 300 60\<rparr>)) = Manager_Response (Inr ''kc'')"
  by (simp add: managerForTarget_def lookup_manager_def load_cfg_def store_manager_def server_resolver_def sample_kmcp_def
      ResolveTarget_def ParseTarget_def cachedKubeconfig_def run_pbind run_ebind run_wrap_err kubeconfig_Get_def Get_def
      kubeconfig_Set_def NewStore_def New_def sample_config_def sample_embedding_def embedded_tools_def effective_sshuttle_host_def
      clientsForContext_def RealClientsForContext_def clientsFromKubeconfigBytes_def RESTConfigForContext_def FetchWorkloadKubeconfig_def
      transformed_def tunnel_for_def web_kube_def offline_kube_def sample_os_def os_ReadFile_def lift_os_def machine_def Let_def)

theorem managers_belong_to_targets_witness:
  "\<exists>kc. served_target embedded_tools ''prod/admin/team/web'' kc \<and> built_from sample_kmcp kc ''kc''"
proof -
  let ?p = "provide embedded_tools sample_kmcp (Manager_Request ''prod/admin/team/web'')"
  let ?s = "sample_embedding\<lparr>cache_store := NewStore 300 60\<rparr>"
  obtain s' where "run ?p ?s = (Manager_Response (Inr ''kc''), s')"
    using embedded_fresh_manager by (cases "run ?p ?s") auto
  from world_of_pool [OF pool_steps_run_head [OF this]]
  have "(world_step outside_memory)\<^sup>*\<^sup>* (?s, map (provide embedded_tools sample_kmcp) [Manager_Request ''prod/admin/team/web''])
      (s', [Done (Manager_Response (Inr ''kc''))])" by simp
  from managers_belong_to_targets [OF embedded_names _ _ this, of 300 60 0] show ?thesis
    by (simp add: sample_embedding_def)
qed


subsection \<open>Two first calls at once\<close>

text \<open>
  Two first calls for a target that overlap both look it up before either has stored a
  manager. Both build one and both return their own; the table keeps the second, so that
  closing the provider never closes the first.
\<close>

theorem concurrent_first_calls:
  assumes "map_of (managers s) target = None" "km_load km kc = Inr raw" "km_client_config km raw = Inr rest"
    and "km_new_manager km (provider_cfg s) rest raw (outside s) = (Inr g1, w1)"
    and "km_new_manager km (provider_cfg s) rest raw w1 = (Inr g2, w2)"
    and "rs_ResolveTarget rs target = Done (Inr kc)"
  shows "\<exists>s'. run (par [0, 1, 0, 0, 0, 1, 1, 1] [managerForTarget km rs target, managerForTarget km rs target]) s =
      ([Inr g1, Inr g2], s')
    \<and> managers s' = AList.update target g2 (AList.update target g1 (managers s))
    \<and> map_of (managers s') target = Some g2"
  using assms
  by (simp add: managerForTarget_def wrap_err_def ebind_def call_def api_def lookup_manager_def load_cfg_def store_manager_def
      wrap_res_def update_conv')

end
