(* ===== verification/Fanout.thy ===== *)
theory Fanout
  imports Provider
begin

text \<open>
  \<open>internal/embed/fanout.go\<close> and \<open>mount.go\<close>: the tools of kubernetes-mcp-server on this
  server. \<open>fanout.go\<close> replaces the "cluster" parameter of a tool by "clusters" and calls
  the tool once for each target; \<open>mount.go\<close> registers the tools. The library's tools and
  handlers are parameters; a fan-out runs under a schedule, as in the tool server.
\<close>

subsection \<open>Fan-out of a mounted tool\<close>

text \<open>
  The arguments of a call are raw JSON: absent, malformed, or a value. \<open>json.Unmarshal\<close>
  into a map of raw values accepts objects (of a repeated key the last value counts) and
  \<open>null\<close>; into a slice of strings it accepts arrays of strings, where a \<open>null\<close> element
  leaves the empty string, and \<open>null\<close>.
\<close>

datatype raw_json = Absent | Malformed | Value json

definition clustersParameterName :: string where
  "clustersParameterName = ''clusters''"

definition last_values :: "'v gomap \<Rightarrow> 'v gomap" where
  "last_values kvs = fold (\<lambda>(k, v) m. AList.update k v m) kvs []"

definition unmarshal_object :: "raw_json \<Rightarrow> json gomap res" where
  "unmarshal_object raw =
     (case raw of
        Value (J_Obj kvs) \<Rightarrow> Inr (last_values kvs)
      | Value J_Null \<Rightarrow> Inr []
      | _ \<Rightarrow> Inl (Lib_Error ''json: cannot unmarshal into map''))"

definition unmarshal_string :: "json \<Rightarrow> string res" where
  "unmarshal_string v =
     (case v of J_Str s \<Rightarrow> Inr s | J_Null \<Rightarrow> Inr '''' | _ \<Rightarrow> Inl (Lib_Error ''json: cannot unmarshal into string''))"

definition unmarshal_strings :: "json \<Rightarrow> string list res" where
  "unmarshal_strings v =
     (case v of
        J_Arr vs \<Rightarrow> res_map_list unmarshal_string vs
      | J_Null \<Rightarrow> Inr []
      | _ \<Rightarrow> Inl (Lib_Error ''json: cannot unmarshal into []string''))"

text \<open>A request, with everything a fan-out passes on unchanged in \<open>rq_Context\<close>.\<close>

record 'x tool_request =
  rq_Context :: 'x
  rq_Name :: string
  rq_Arguments :: raw_json

datatype content = Text_Content string | Other_Content

record lib_result =
  lr_Content :: "content list"
  lr_IsError :: bool

type_synonym ('s, 'x) tool_handler = "'x tool_request \<Rightarrow> ('s, lib_result res) prog"

record per_cluster_tool_result =
  pt_Cluster :: string
  pt_Text :: string
  pt_IsError :: bool
  pt_Error :: string

datatype fanout_payload = Fan_Text string | Fan_Results "per_cluster_tool_result list"

record fanout_result =
  fo_Content :: fanout_payload
  fo_IsError :: bool

definition errorResult :: "string \<Rightarrow> fanout_result" where
  "errorResult msg = \<lparr>fo_Content = Fan_Text msg, fo_IsError = True\<rparr>"

definition firstText :: "lib_result \<Rightarrow> string" where
  "firstText result = (case lr_Content result of Text_Content t # _ \<Rightarrow> t | _ \<Rightarrow> '''')"

text \<open>
  \<open>json.Marshal\<close> of a map writes its keys in order; it cannot fail on valid raw values.
  The text of a target decodes to the target: targets come from JSON or YAML documents, so
  they are UTF-8 (the theory \<open>Wire\<close> has what encoding does to other bytes).
\<close>

definition synth_args :: "json gomap \<Rightarrow> string \<Rightarrow> json gomap" where
  "synth_args origArgs target =
     AList.update targetParameterName (J_Str target) (AList.delete clustersParameterName origArgs)"

definition marshal_object :: "json gomap \<Rightarrow> json" where
  "marshal_object m = J_Obj (map (\<lambda>k. (k, the (map_of m k))) (sort (map fst m)))"

definition synth_request :: "'x tool_request \<Rightarrow> json gomap \<Rightarrow> string \<Rightarrow> 'x tool_request" where
  "synth_request req origArgs target =
     \<lparr>rq_Context = rq_Context req, rq_Name = rq_Name req,
      rq_Arguments = Value (marshal_object (synth_args origArgs target))\<rparr>"

definition callOneTarget ::
    "(goerr \<Rightarrow> string) \<Rightarrow> ('s, 'x) tool_handler \<Rightarrow> 'x tool_request \<Rightarrow> json gomap \<Rightarrow> string
     \<Rightarrow> ('s, per_cluster_tool_result) prog" where
  "callOneTarget text handler req origArgs target =
     pbind (handler (synth_request req origArgs target)) (\<lambda>r.
     Done (case r of
         Inl e \<Rightarrow> \<lparr>pt_Cluster = target, pt_Text = '''', pt_IsError = False, pt_Error = text e\<rparr>
       | Inr result \<Rightarrow> \<lparr>pt_Cluster = target, pt_Text = firstText result, pt_IsError = lr_IsError result, pt_Error = ''''\<rparr>))"

definition pt_failed :: "per_cluster_tool_result \<Rightarrow> bool" where
  "pt_failed r \<longleftrightarrow> pt_Error r \<noteq> '''' \<or> pt_IsError r"

definition orig_args :: "'x tool_request \<Rightarrow> json gomap" where
  "orig_args req = (case unmarshal_object (rq_Arguments req) of Inl _ \<Rightarrow> [] | Inr m \<Rightarrow> m)"

definition runFanOut ::
    "(goerr \<Rightarrow> string) \<Rightarrow> nat list \<Rightarrow> ('s, 'x) tool_handler \<Rightarrow> 'x tool_request \<Rightarrow> string list
     \<Rightarrow> ('s, fanout_result) prog" where
  "runFanOut text sched handler req targets =
     pbind (par sched (map (callOneTarget text handler req (orig_args req)) targets)) (\<lambda>results.
     Done \<lparr>fo_Content = Fan_Results results, fo_IsError = list_ex pt_failed results\<rparr>)"

definition listKnownClusters :: "'s resolver \<Rightarrow> ('s, capi_cluster list res) prog" where
  "listKnownClusters rs =
     ebind (rs_ListTargets rs) (\<lambda>knownTargets.
     Done (Inr (List.map_filter (\<lambda>t. case ParseTarget t of
          Inl _ \<Rightarrow> None
        | Inr (kn, ctx, ns, nm) \<Rightarrow> Some (bare_cluster kn ctx ns nm)) knownTargets)))"

definition wrapped_handler ::
    "(goerr \<Rightarrow> string) \<Rightarrow> nat list \<Rightarrow> ('s, 'x) tool_handler \<Rightarrow> 's resolver \<Rightarrow> bool \<Rightarrow> 'x tool_request
     \<Rightarrow> ('s, fanout_result res) prog" where
  "wrapped_handler text sched handler rs readOnly req =
     (case (if rq_Arguments req = Absent then Inr [] else unmarshal_object (rq_Arguments req)) of
        Inl e \<Rightarrow> Done (Inl (Wrapf [Txt ''embed: unmarshaling arguments: ''] e))
      | Inr args \<Rightarrow>
          (case map_of args clustersParameterName of
             None \<Rightarrow>
               if \<not> readOnly then Done (Inr (errorResult ''clusters is required''))
               else ebind (rs_ListTargets rs) (\<lambda>all.
                 pbind (runFanOut text sched handler req all) (\<lambda>out. Done (Inr out)))
           | Some rawClusters \<Rightarrow>
               (case unmarshal_strings rawClusters of
                  Inl _ \<Rightarrow> Done (Inr (errorResult ''clusters must be an array of strings''))
                | Inr patterns \<Rightarrow>
                    if patterns = [] then pbind (runFanOut text sched handler req []) (\<lambda>out. Done (Inr out))
                    else if '''' \<in> set patterns then
                      Done (Inr (errorResult ''clusters entries must be non-empty strings''))
                    else pbind (ResolveClusterPatterns patterns (listKnownClusters rs) (\<not> readOnly)) (\<lambda>r.
                      case r of
                        Inl e \<Rightarrow> Done (Inr (errorResult (text e)))
                      | Inr targets \<Rightarrow>
                          pbind (runFanOut text sched handler req targets) (\<lambda>out. Done (Inr out))))))"

text \<open>
  The schema: properties keep the library's schemas apart from the two parameters; a
  \<open>nil\<close> map is \<open>None\<close>, and so is a schema of another type.
\<close>

datatype 'p prop_schema = Lib_Schema 'p | Array_Of_Strings string

record 'p input_schema =
  sc_Properties :: "'p prop_schema gomap option"
  sc_Required :: "string list"

definition clustersParamDescription :: "bool \<Rightarrow> string" where
  "clustersParamDescription readOnly =
     (if readOnly then
        ''One or more cluster targets, each \"kubeconfig[/context[/namespace[/name]]]\" (from list_clusters'' @ [char_of (39 :: nat)] @
        '' target field, or a shorter prefix to select every matching cluster). Omit entirely to run against every known cluster; an empty array runs against none.''
      else
        ''One or more cluster targets, each the full \"kubeconfig/context/namespace/name\" path (from list_clusters'' @ [char_of (39 :: nat)] @
        '' target field) '' @ map char_of [226, 128, 148 :: nat] @
        '' no partial/prefix matching for this tool. Required; an empty array runs against none.'')"

definition wrap_schema :: "bool \<Rightarrow> 'p input_schema option \<Rightarrow> 'p input_schema option" where
  "wrap_schema readOnly schema =
     (case schema of
        None \<Rightarrow> None
      | Some sc \<Rightarrow>
          let props = (case sc_Properties sc of None \<Rightarrow> [] | Some ps \<Rightarrow> AList.delete targetParameterName ps) in
          Some (sc\<lparr>sc_Properties := Some (AList.update clustersParameterName (Array_Of_Strings (clustersParamDescription readOnly)) props),
                   sc_Required := (if readOnly then sc_Required sc else sc_Required sc @ [clustersParameterName])\<rparr>))"


subsection \<open>Mounting\<close>

record 'p mcp_tool =
  mt_Name :: string
  mt_Schema :: "'p input_schema option"

datatype ('s, 'x) mounted_handler =
    Direct "('s, 'x) tool_handler"
  | Fanned "nat list \<Rightarrow> 'x tool_request \<Rightarrow> ('s, fanout_result res) prog"

text \<open>The library's tools are values of \<open>'t\<close>; a hint that is not given is \<open>None\<close>.\<close>

record ('t, 's, 'x, 'p) mount_lib =
  ml_new_server :: "unit res"
  ml_toolsets :: "'t list list"
  ml_target_list :: "'t \<Rightarrow> bool"
  ml_mutate :: "string \<Rightarrow> string \<Rightarrow> bool \<Rightarrow> 't \<Rightarrow> 't"
  ml_convert :: "'t \<Rightarrow> ('p mcp_tool \<times> ('s, 'x) tool_handler) res"
  ml_cluster_aware :: "'t \<Rightarrow> bool"
  ml_read_only_hint :: "'t \<Rightarrow> bool option"
  ml_name :: "'t \<Rightarrow> string"

definition wrapFanOut ::
    "(goerr \<Rightarrow> string) \<Rightarrow> 'p mcp_tool \<Rightarrow> ('s, 'x) tool_handler \<Rightarrow> 's resolver \<Rightarrow> bool
     \<Rightarrow> 'p mcp_tool \<times> ('s, 'x) mounted_handler" where
  "wrapFanOut text goTool handler rs readOnly =
     (goTool\<lparr>mt_Schema := wrap_schema readOnly (mt_Schema goTool)\<rparr>,
      Fanned (\<lambda>sched. wrapped_handler text sched handler rs readOnly))"

definition mutate_tool :: "('t, 's, 'x, 'p) mount_lib \<Rightarrow> 't \<Rightarrow> 't" where
  "mutate_tool ml = ml_mutate ml GetDefaultTarget GetTargetParameterName IsMultiTarget"

definition mount_one ::
    "('t, 's, 'x, 'p) mount_lib \<Rightarrow> (goerr \<Rightarrow> string) \<Rightarrow> 's resolver \<Rightarrow> 't
     \<Rightarrow> ('p mcp_tool \<times> ('s, 'x) mounted_handler) res" where
  "mount_one ml text rs mutated =
     res_bind (wrap_res [Txt ''embed: converting tool '', Quo (ml_name ml mutated), Txt '': ''] (ml_convert ml mutated))
       (\<lambda>(goTool, handler).
         Inr (if ml_cluster_aware ml mutated
              then wrapFanOut text goTool handler rs (ml_read_only_hint ml mutated = Some True)
              else (goTool, Direct handler)))"

primrec mount_tools ::
    "('t, 's, 'x, 'p) mount_lib \<Rightarrow> (goerr \<Rightarrow> string) \<Rightarrow> 's resolver \<Rightarrow> 't list
     \<Rightarrow> ('p mcp_tool \<times> ('s, 'x) mounted_handler) list
     \<Rightarrow> unit res \<times> ('p mcp_tool \<times> ('s, 'x) mounted_handler) list" where
  "mount_tools ml text rs [] added = (Inr (), added)"
| "mount_tools ml text rs (tool # tools) added =
     (if ml_target_list ml tool then mount_tools ml text rs tools added
      else (case mount_one ml text rs (mutate_tool ml tool) of
              Inl e \<Rightarrow> (Inl e, added)
            | Inr m \<Rightarrow> mount_tools ml text rs tools (added @ [m])))"

definition MountTools ::
    "('t, 's, 'x, 'p) mount_lib \<Rightarrow> (goerr \<Rightarrow> string) \<Rightarrow> 's resolver
     \<Rightarrow> unit res \<times> ('p mcp_tool \<times> ('s, 'x) mounted_handler) list" where
  "MountTools ml text rs =
     (case ml_new_server ml of
        Inl e \<Rightarrow> (Inl (Wrapf [Txt ''embed: constructing kubernetes-mcp-server handle: ''] e), [])
      | Inr _ \<Rightarrow> mount_tools ml text rs (concat (ml_toolsets ml)) [])"

subsection \<open>What is mounted\<close>

text \<open>A schema that a fan-out accepts: "clusters" in place of "cluster", required for writes.\<close>

definition fanned_schema :: "bool \<Rightarrow> 'p input_schema option \<Rightarrow> 'p input_schema option \<Rightarrow> bool" where
  "fanned_schema readOnly before after \<longleftrightarrow>
     (case (before, after) of
        (None, None) \<Rightarrow> True
      | (Some b, Some a) \<Rightarrow>
          (\<exists>ps. sc_Properties a = Some ps
             \<and> map_of ps clustersParameterName = Some (Array_Of_Strings (clustersParamDescription readOnly))
             \<and> map_of ps targetParameterName = None
             \<and> (\<forall>k. k \<notin> {clustersParameterName, targetParameterName} \<longrightarrow>
                  map_of ps k = (case sc_Properties b of None \<Rightarrow> None | Some qs \<Rightarrow> map_of qs k)))
          \<and> sc_Required a = sc_Required b @ (if readOnly then [] else [clustersParameterName])
      | _ \<Rightarrow> False)"

lemma parameter_names [simp]: "targetParameterName \<noteq> clustersParameterName" "clustersParameterName \<noteq> targetParameterName"
  by (simp_all add: targetParameterName_def clustersParameterName_def)

lemma wrap_schema_fanned: "fanned_schema readOnly schema (wrap_schema readOnly schema)"
  by (cases schema)
     (auto simp: fanned_schema_def wrap_schema_def Let_def update_conv' delete_conv' restrict_map_def split: option.split)

text \<open>How one tool of the library ends up on the server.\<close>

definition mounted_as ::
    "('t, 's, 'x, 'p) mount_lib \<Rightarrow> (goerr \<Rightarrow> string) \<Rightarrow> 's resolver \<Rightarrow> 't
     \<Rightarrow> 'p mcp_tool \<times> ('s, 'x) mounted_handler \<Rightarrow> bool" where
  "mounted_as ml text rs tool m \<longleftrightarrow>
     (\<exists>goTool handler. ml_convert ml (mutate_tool ml tool) = Inr (goTool, handler)
        \<and> mt_Name (fst m) = mt_Name goTool
        \<and> (if ml_cluster_aware ml (mutate_tool ml tool)
           then (let readOnly = (ml_read_only_hint ml (mutate_tool ml tool) = Some True) in
                 snd m = Fanned (\<lambda>sched. wrapped_handler text sched handler rs readOnly)
                 \<and> fanned_schema readOnly (mt_Schema goTool) (mt_Schema (fst m)))
           else m = (goTool, Direct handler)))"

lemma mount_one_as: "mount_one ml text rs (mutate_tool ml tool) = Inr m \<Longrightarrow> mounted_as ml text rs tool m"
  by (auto simp: mount_one_def mounted_as_def res_bind_eq_Inr wrapFanOut_def wrap_schema_fanned Let_def split: if_splits)

lemma mount_tools_as:
  "mount_tools ml text rs tools added = (Inr (), out) \<Longrightarrow>
   \<exists>ms. out = added @ ms \<and> list_all2 (mounted_as ml text rs) (filter (\<lambda>t. \<not> ml_target_list ml t) tools) ms"
proof (induction tools arbitrary: added)
  case Nil
  then show ?case by simp
next
  case (Cons t tools)
  show ?case
  proof (cases "ml_target_list ml t")
    case True
    with Cons show ?thesis by simp
  next
    case False
    with Cons.prems obtain m where m: "mount_one ml text rs (mutate_tool ml t) = Inr m"
      by (auto split: sum.splits)
    with Cons.prems False have "mount_tools ml text rs tools (added @ [m]) = (Inr (), out)" by simp
    from Cons.IH [OF this] obtain ms where
      "out = (added @ [m]) @ ms" "list_all2 (mounted_as ml text rs) (filter (\<lambda>t. \<not> ml_target_list ml t) tools) ms" by blast
    with False mount_one_as [OF m] show ?thesis by (intro exI [of _ "m # ms"]) simp
  qed
qed

text \<open>
  C7: when mounting succeeds, every tool of the library except the target lists is on the
  server, in order. A tool that takes a cluster is wrapped into a fan-out that may expand
  patterns exactly when the tool is marked as read-only, and its schema offers "clusters"
  instead of "cluster", required for every other tool; any other tool is mounted unchanged.
\<close>

theorem mounted_tools_guarded:
  assumes "MountTools ml text rs = (Inr (), mounted)"
  shows "list_all2 (mounted_as ml text rs) (filter (\<lambda>t. \<not> ml_target_list ml t) (concat (ml_toolsets ml))) mounted"
  using assms mount_tools_as [of ml "text" rs "concat (ml_toolsets ml)" "[]" mounted]
  by (auto simp: MountTools_def split: sum.splits)


definition sample_library :: "(nat, unit server, unit, unit) mount_lib" where
  "sample_library = \<lparr>ml_new_server = Inr (), ml_toolsets = [[0, 1], [2]], ml_target_list = (\<lambda>t. t = 0),
     ml_mutate = (\<lambda>_ _ _ t. t),
     ml_convert = (\<lambda>t. Inr (\<lparr>mt_Name = itoa (int t),
        mt_Schema = Some \<lparr>sc_Properties = Some [(''cluster'', Lib_Schema ()), (''name'', Lib_Schema ())], sc_Required = [''name'']\<rparr>\<rparr>,
        \<lambda>_. Done (Inr \<lparr>lr_Content = [Text_Content ''ok''], lr_IsError = False\<rparr>))),
     ml_cluster_aware = (\<lambda>_. True), ml_read_only_hint = (\<lambda>t. if t = 1 then Some True else None), ml_name = (\<lambda>t. itoa (int t))\<rparr>"

theorem mounted_tools_guarded_witness:
  "list_all2 (mounted_as sample_library (\<lambda>_. '''') (server_resolver field_tools)) [1, 2]
    (snd (MountTools sample_library (\<lambda>_. '''') (server_resolver field_tools)))"
proof -
  have "fst (MountTools sample_library (\<lambda>_. '''') (server_resolver field_tools)) = Inr ()"
    by (simp add: MountTools_def sample_library_def mount_one_def mutate_tool_def)
  then have "MountTools sample_library (\<lambda>_. '''') (server_resolver field_tools) =
      (Inr (), snd (MountTools sample_library (\<lambda>_. '''') (server_resolver field_tools)))"
    by (simp add: prod_eq_iff)
  from mounted_tools_guarded [OF this] show ?thesis by (simp add: sample_library_def)
qed

subsection \<open>What a wrapped tool does\<close>

lemma map_of_last_values: "map_of (last_values kvs) = map_of (rev kvs)"
proof -
  have "map_of (fold (\<lambda>(k, v) m. AList.update k v m) kvs m) = map_of m ++ map_of (rev kvs)" for m
    by (induction kvs arbitrary: m) (auto simp: update_conv' map_add_upd)
  from this [of "[]"] show ?thesis by (simp add: last_values_def)
qed

lemma marshal_object_lookup:
  "\<exists>m'. unmarshal_object (Value (marshal_object m)) = Inr m' \<and> map_of m' = map_of m"
proof -
  have "map_of (rev (map (\<lambda>k. (k, the (map_of m k))) (sort (map fst m)))) = (Some \<circ> (\<lambda>k. the (map_of m k))) |` set (map fst m)"
    by (simp only: rev_map map_of_map_restrict set_rev set_sort)
  also have "\<dots> = map_of m"
  proof
    fix k
    show "((Some \<circ> (\<lambda>k. the (map_of m k))) |` set (map fst m)) k = map_of m k"
      using map_of_eq_None_iff [of m k] by (cases "map_of m k") (simp_all add: restrict_map_def)
  qed
  finally have "map_of (rev (map (\<lambda>k. (k, the (map_of m k))) (sort (map fst m)))) = map_of m" .
  then show ?thesis by (simp add: unmarshal_object_def marshal_object_def map_of_last_values)
qed

lemma synthesized_lookup:
  "\<exists>m. unmarshal_object (rq_Arguments (synth_request req origArgs target)) = Inr m
    \<and> map_of m = ((map_of origArgs)(clustersParameterName := None))(targetParameterName \<mapsto> J_Str target)"
  using marshal_object_lookup [of "synth_args origArgs target"]
  by (auto simp: synth_request_def synth_args_def update_conv' delete_conv')

text \<open>
  C36: a handler that is called for one target of a fan-out can read from its arguments
  exactly those of the original call, with "clusters" removed and "cluster" set to the target;
  the name of the tool and the rest of the request are passed on.
\<close>

theorem synthesized_arguments:
  "\<exists>m. unmarshal_object (rq_Arguments (synth_request req origArgs target)) = Inr m
    \<and> map_of m = ((map_of origArgs)(clustersParameterName := None))(targetParameterName \<mapsto> J_Str target)
    \<and> rq_Name (synth_request req origArgs target) = rq_Name req
    \<and> rq_Context (synth_request req origArgs target) = rq_Context req"
  using synthesized_lookup [of req origArgs target] by (simp add: synth_request_def)

definition fan_result_for :: "string \<Rightarrow> per_cluster_tool_result \<Rightarrow> bool" where
  "fan_result_for target r \<longleftrightarrow> pt_Cluster r = target \<and> (pt_Error r \<noteq> '''' \<longrightarrow> pt_Text r = '''' \<and> \<not> pt_IsError r)"

lemma callOneTarget_shape:
  "holds (\<lambda>_. True) (callOneTarget et handler req args target) (fan_result_for target)"
  unfolding callOneTarget_def
  by (auto intro!: holds_last simp: fan_result_for_def split: sum.split)

lemma runFanOut_shape:
  "\<exists>rs s'. run (runFanOut et sched handler req targets) s =
      (\<lparr>fo_Content = Fan_Results rs, fo_IsError = (\<exists>r \<in> set rs. pt_failed r)\<rparr>, s')
    \<and> list_all2 fan_result_for targets rs"
proof -
  obtain rs s' where par: "run (par sched (map (callOneTarget et handler req (orig_args req)) targets)) s = (rs, s')" by force
  with results_of_par [OF callOneTarget_shape par] show ?thesis
    by (auto simp: runFanOut_def run_pbind list_ex_iff)
qed

text \<open>What a call of a wrapped tool asks for: the arguments, and the patterns in them.\<close>

definition call_args :: "'x tool_request \<Rightarrow> json gomap res" where
  "call_args req = (if rq_Arguments req = Absent then Inr [] else unmarshal_object (rq_Arguments req))"

definition asked_patterns :: "'x tool_request \<Rightarrow> string list option" where
  "asked_patterns req =
     (case call_args req of
        Inl _ \<Rightarrow> None
      | Inr args \<Rightarrow>
          (case map_of args clustersParameterName of
             None \<Rightarrow> None
           | Some v \<Rightarrow> (case unmarshal_strings v of Inl _ \<Rightarrow> None | Inr ps \<Rightarrow> Some ps)))"

lemma full_path_nonempty: "full_path p \<Longrightarrow> p \<noteq> ''''"
  by (auto simp: full_path_def)

text \<open>
  C6: a tool that is not marked as read-only runs only where the caller said so. If
  "clusters" lists full paths only, the tool runs once for each of them, in order; in every
  other case the call is refused without a single step. The known clusters are never asked for.
\<close>

theorem write_tools_need_full_paths:
  "(\<exists>patterns. asked_patterns req = Some patterns \<and> list_all full_path patterns
      \<and> wrapped_handler et sched handler rs False req =
          pbind (runFanOut et sched handler req (first_seen patterns)) (\<lambda>out. Done (Inr out)))
   \<or> (\<exists>e msg. wrapped_handler et sched handler rs False req \<in> {Done (Inl e), Done (Inr (errorResult msg))})"
proof (cases "asked_patterns req")
  case None
  then show ?thesis
    by (auto simp: asked_patterns_def call_args_def wrapped_handler_def split: sum.splits option.splits)
next
  case (Some patterns)
  show ?thesis
  proof (cases "list_all full_path patterns")
    case True
    then have "'''' \<notin> set patterns" by (auto simp: list_all_iff dest: full_path_nonempty)
    with True Some show ?thesis
      by (auto simp: asked_patterns_def call_args_def wrapped_handler_def resolve_strict(1) split: sum.splits option.splits)
  next
    case False
    then obtain e where "ResolveClusterPatterns patterns (listKnownClusters rs) True = Done (Inl e)"
      using resolve_strict(2) by blast
    with False Some show ?thesis
      by (auto simp: asked_patterns_def call_args_def wrapped_handler_def split: sum.splits option.splits)
  qed
qed


subsection \<open>The same selection as the tool server\<close>

text \<open>A cluster that a target can name, and what is left of a cluster in its target.\<close>

definition addressable :: "capi_cluster \<Rightarrow> bool" where
  "addressable c \<longleftrightarrow> list_all slash_free (cluster_path c)"

definition named_only :: "capi_cluster \<Rightarrow> capi_cluster" where
  "named_only c = bare_cluster (KubeconfigName c) (Context c) (Namespace c) (Name c)"

lemma parse_listed:
  "(case ParseTarget (FormatTarget c) of Inl _ \<Rightarrow> None | Inr (kn, ctx, ns, nm) \<Rightarrow> Some (bare_cluster kn ctx ns nm)) =
   (if addressable c then Some (named_only c) else None)"
proof (cases "addressable c")
  case True
  then have "ParseTarget (FormatTarget c) = Inr (KubeconfigName c, Context c, Namespace c, Name c)"
    by (simp add: ParseTarget_Inr_iff FormatTarget_def addressable_def cluster_path_def)
  with True show ?thesis by (simp add: named_only_def)
next
  case False
  have "ParseTarget (FormatTarget c) \<noteq> Inr r" for r
  proof
    assume "ParseTarget (FormatTarget c) = Inr r"
    then have "length (split_on CHR ''/'' (FormatTarget c)) = 4" using ParseTarget_ok_iff by blast
    with False show False
      by (auto simp: length_split_on FormatTarget_path addressable_def cluster_path_def slash_free_def count_list_0_iff)
  qed
  with False show ?thesis by (cases "ParseTarget (FormatTarget c)") auto
qed

lemma named_only_simps [simp]: "Matches p (named_only c) = Matches p c" "FormatTarget (named_only c) = FormatTarget c"
  by (simp_all add: Matches_def FormatTarget_def named_only_def bare_cluster_def)

lemma collect_matches_named: "collect_matches parsed (map named_only known) = collect_matches parsed known"
proof -
  have "pattern_matches (map named_only known) p = pattern_matches known p" for p
    by (simp add: pattern_matches_def ExpandTargetPattern_def filter_map o_def)
  then show ?thesis by (simp add: collect_matches_def)
qed

lemma listKnownClusters_server:
  "listKnownClusters (server_resolver ts) =
   ebind (allKnownClusters ts) (\<lambda>known. Done (Inr (map named_only (filter addressable known))))"
proof -
  have "List.map_filter (\<lambda>t. case ParseTarget t of Inl _ \<Rightarrow> None | Inr (kn, ctx, ns, nm) \<Rightarrow> Some (bare_cluster kn ctx ns nm))
      (map (\<lambda>r. FormatTarget (rc_Cluster r)) rs) = map named_only (filter addressable (map rc_Cluster rs))" for rs :: "resolved_cluster list"
    by (induction rs) (simp_all add: parse_listed)
  then show ?thesis
    by (simp add: listKnownClusters_def server_resolver_def ListTargets_def allKnownClusters_def ebind_assoc)
qed

text \<open>
  C16: an embedded tool selects clusters as the tools of this server do: resolving patterns
  against the targets that the resolver lists is resolving them against the known clusters
  themselves, apart from those with a slash in one of their names, which no target can name.
\<close>

theorem embedded_selection_agrees:
  "ResolveClusterPatterns patterns (listKnownClusters (server_resolver ts)) strict =
   ResolveClusterPatterns patterns
     (ebind (allKnownClusters ts) (\<lambda>known. Done (Inr (filter addressable known)))) strict"
  by (simp add: ResolveClusterPatterns_def listKnownClusters_server ebind_assoc collect_matches_named Let_def split: sum.split)

end
