(* ===== verification/Embedded.thy ===== *)
theory Embedded
  imports Fanout
begin

text \<open>
  The mounted tools at work: fan-outs of \<open>fanout.go\<close> whose handlers get their clients from
  the provider of \<open>provider.go\<close>, beside all other calls of the daemon. The library's handlers
  are parameters; what is used of them is that a handler asks the provider for the target in
  its arguments, and that the tool itself does not reach into the memory of the daemon.
\<close>

subsection \<open>Handlers that use the provider\<close>

type_synonym ('k, 's, 'x) tool_body = "'k \<Rightarrow> 'x tool_request \<Rightarrow> ('s, lib_result res) prog"

definition through_provider ::
    "('w, 'r, 'c, 'f, 'g, 'k) kmcp \<Rightarrow> ('w, 'f, 'g, 'm) embedding_scheme resolver
     \<Rightarrow> (('w, 'f, 'g, 'm) embedding_scheme, 'x) tool_handler
     \<Rightarrow> ('k, ('w, 'f, 'g, 'm) embedding_scheme, 'x) tool_body \<Rightarrow> bool" where
  "through_provider km rs handler body \<longleftrightarrow>
     (\<forall>req args target. unmarshal_object (rq_Arguments req) = Inr args
        \<and> map_of args targetParameterName = Some (J_Str target)
        \<longrightarrow> handler req = ebind (GetDerivedKubernetes km rs target) (\<lambda>k. body k req))"

lemma through_provider_synth:
  "through_provider km rs handler body \<Longrightarrow>
   handler (synth_request req args target) =
     ebind (GetDerivedKubernetes km rs target) (\<lambda>k. body k (synth_request req args target))"
  using synthesized_lookup [of req args target] by (metis fun_upd_same through_provider_def)

definition derived_for ::
    "('w, 'r, 'c, 'f, 'g, 'k) kmcp \<Rightarrow> (string \<Rightarrow> string \<Rightarrow> bool) \<Rightarrow> string \<Rightarrow> 'k \<Rightarrow> bool" where
  "derived_for km good target k \<longleftrightarrow> (\<exists>mgr w. manager_for km good target mgr \<and> fst (km_derived km mgr w) = Inr k)"

text \<open>What a fan-out reports for a cluster is what the tool said with a client for that cluster.\<close>

definition reported_by ::
    "('k, 's, 'x) tool_body \<Rightarrow> (string \<Rightarrow> 'k \<Rightarrow> bool) \<Rightarrow> 'x tool_request \<Rightarrow> per_cluster_tool_result \<Rightarrow> bool" where
  "reported_by body client req r \<longleftrightarrow>
     (pt_Text r \<noteq> '''' \<or> pt_IsError r \<longrightarrow>
       (\<exists>k lr. client (pt_Cluster r) k \<and> yields (body k (synth_request req (orig_args req) (pt_Cluster r))) (Inr lr)
          \<and> pt_Text r = firstText lr \<and> pt_IsError r = lr_IsError lr))"

definition fanout_reported ::
    "('k, 's, 'x) tool_body \<Rightarrow> (string \<Rightarrow> 'k \<Rightarrow> bool) \<Rightarrow> 'x tool_request \<Rightarrow> fanout_result \<Rightarrow> bool" where
  "fanout_reported body client req out \<longleftrightarrow>
     (\<forall>rs. fo_Content out = Fan_Results rs \<longrightarrow> list_all (reported_by body client req) rs)"

subsection \<open>A resolver that lists its targets as well\<close>

locale fanout_resolver = target_resolver resolver ok good
  for resolver :: "('w, 'f, 'g, 'm) embedding_scheme resolver" and ok good +
  assumes list_keeps: "holds ok (rs_ListTargets resolver) (\<lambda>_. True)"
    and list_frame: "preserves managers (rs_ListTargets resolver)"
begin

lemma list_invariant: "holds (provider_invariant km ok good) (rs_ListTargets resolver) (\<lambda>_. True)"
  unfolding provider_invariant_def
  using holds_conj [OF list_keeps preserves_holds [OF list_frame]] by simp

lemma derived_invariant:
  "holds (provider_invariant km ok good) (GetDerivedKubernetes km resolver t) (on_ok (derived_for km good t))"
  unfolding GetDerivedKubernetes_def api_def
  by (rule holds_ebind [OF managerForTarget_keeps], rule holds_call)
     (auto simp: provider_invariant_def ok_frame on_ok_def derived_for_def split: sum.split)

lemma one_target_invariant:
  assumes "through_provider km resolver handler body"
    and body: "\<And>k req. holds (provider_invariant km ok good) (body k req) (\<lambda>_. True)"
  shows "holds (provider_invariant km ok good) (callOneTarget et handler req (orig_args req) target)
    (reported_by body (derived_for km good) req)"
proof -
  let ?said = "\<lambda>lr. \<exists>k. derived_for km good target k \<and> yields (body k (synth_request req (orig_args req) target)) (Inr lr)"
  have "holds (provider_invariant km ok good) (body k (synth_request req (orig_args req) target)) (on_ok ?said)"
    if "derived_for km good target k" for k
    by (rule holds_conseq [OF holds_yields [OF body]]) (use that in \<open>auto simp: on_ok_def split: sum.split\<close>)
  from holds_ebind [OF derived_invariant this]
  have "holds (provider_invariant km ok good) (handler (synth_request req (orig_args req) target)) (on_ok ?said)"
    by (simp add: through_provider_synth [OF assms(1)])
  then show ?thesis
    unfolding callOneTarget_def by (rule holds_pbind) (clarsimp simp: reported_by_def split: sum.split; blast)
qed

lemma fanout_invariant:
  assumes "through_provider km resolver handler body"
    and "\<And>k req. holds (provider_invariant km ok good) (body k req) (\<lambda>_. True)"
  shows "holds (provider_invariant km ok good) (runFanOut et sched handler req targets)
    (fanout_reported body (derived_for km good) req)"
proof -
  have "pool_holds (provider_invariant km ok good) (map (callOneTarget et handler req (orig_args req)) targets)
      (\<lambda>_. reported_by body (derived_for km good) req)"
    by (simp add: pool_holds_def one_target_invariant [OF assms])
  from holds_par [OF this] show ?thesis
    unfolding runFanOut_def by (rule holds_pbind) (simp add: fanout_reported_def list_all_length)
qed

lemma wrapped_invariant:
  assumes "through_provider km resolver handler body"
    and "\<And>k req. holds (provider_invariant km ok good) (body k req) (\<lambda>_. True)"
  shows "holds (provider_invariant km ok good) (wrapped_handler et sched handler resolver readOnly req)
    (on_ok (fanout_reported body (derived_for km good) req))"
proof -
  let ?ok = "on_ok (fanout_reported body (derived_for km good) req)"
  have run: "holds (provider_invariant km ok good) (pbind (runFanOut et sched handler req targets) (\<lambda>out. Done (Inr out))) ?ok" for targets
    by (rule holds_pbind [OF fanout_invariant [OF assms]]) simp
  have listed: "holds (provider_invariant km ok good) (listKnownClusters resolver) (\<lambda>_. True)"
    unfolding listKnownClusters_def by (rule holds_ebind_True [OF list_invariant]) simp
  have select: "holds (provider_invariant km ok good) (ResolveClusterPatterns ps (listKnownClusters resolver) strict) (\<lambda>_. True)" for ps strict
    unfolding ResolveClusterPatterns_def Let_def by (auto intro!: holds_ebind_True listed split: sum.split)
  show ?thesis
    unfolding wrapped_handler_def
    by (auto intro!: run holds_pbind [OF select] holds_ebind_any [OF list_invariant] split: sum.split option.split
        simp: fanout_reported_def errorResult_def)
qed

end

text \<open>The tool server is such a resolver.\<close>

lemma list_promise: "holds (resolver_ok ts) (ListTargets ts) (\<lambda>_. True)"
proof (cases "names_ok ts")
  case True
  then show ?thesis using holds_True [OF keeps_ListTargets [of ts]] by (simp add: resolver_ok_def [abs_def] names_ok_def)
next
  case False
  then show ?thesis by (simp add: resolver_ok_def [abs_def] holds_any)
qed

interpretation server_fanout: fanout_resolver "server_resolver ts" "resolver_ok ts" "resolver_good ts" for ts
  by unfold_locales (simp_all add: server_resolver_def list_promise framed_managers framed_ListTargets)

subsection \<open>Everything at once\<close>

datatype ('f, 'x) embedded_request = Provider_Call "'f provider_request" | Mounted_Call "nat list" "'x tool_request"

datatype 'g embedded_response = Provided "'g provider_response" | Fanned_Out "fanout_result res"

text \<open>One handler stands for all mounted tools; it and \<open>readOnly\<close> go by the name of the tool.\<close>

fun embedded_serve ::
    "('c, 'w, ('f, 'g, 'm) embedding_ext) tools \<Rightarrow> ('w, 'r, 'cc, 'f, 'g, 'k) kmcp
     \<Rightarrow> (('w, 'f, 'g, 'm) embedding_scheme, 'x) tool_handler \<Rightarrow> (string \<Rightarrow> bool) \<Rightarrow> ('f, 'x) embedded_request
     \<Rightarrow> (('w, 'f, 'g, 'm) embedding_scheme, 'g embedded_response) prog" where
  "embedded_serve ts km handler readOnly (Provider_Call req) = pbind (provide ts km req) (\<lambda>r. Done (Provided r))"
| "embedded_serve ts km handler readOnly (Mounted_Call sched req) =
     pbind (wrapped_handler (error_text ts) sched handler (server_resolver ts) (readOnly (rq_Name req)) req)
       (\<lambda>r. Done (Fanned_Out r))"

fun embedded_ok ::
    "('c, 'w, 'm) tools \<Rightarrow> ('w, 'r, 'cc, 'f, 'g, 'k) kmcp \<Rightarrow> ('k, 's, 'x) tool_body
     \<Rightarrow> ('f, 'x) embedded_request \<Rightarrow> 'g embedded_response \<Rightarrow> bool" where
  "embedded_ok ts km body (Provider_Call req) (Provided r) = provided_ok ts km req r"
| "embedded_ok ts km body (Mounted_Call sched req) (Fanned_Out r) =
     on_ok (fanout_reported body (derived_for km (resolver_good ts)) req) r"
| "embedded_ok ts km body _ _ = False"

text \<open>The tools of the library change the outside world, not the caches and managers.\<close>

definition leaves_memory :: "('k, ('w, 'f, 'g, 'm) embedding_scheme, 'x) tool_body \<Rightarrow> bool" where
  "leaves_memory body \<longleftrightarrow> (\<forall>k req. preserves (\<lambda>s. (cache_store s, managers s)) (body k req))"

lemma leaves_memory_keeps:
  "leaves_memory body \<Longrightarrow> holds (provider_invariant km (resolver_ok ts) good) (body k req) (\<lambda>_. True)"
  using preserves_holds [of "\<lambda>s. (cache_store s, managers s)" "body k req"
      "\<lambda>(c, ms). (names_ok ts \<longrightarrow> caches_genuine ts c) \<and> managers_for km good ms"]
  by (simp add: leaves_memory_def provider_invariant_def [abs_def] resolver_ok_def)

lemma embedded_serve_keeps:
  assumes "names_ok ts" "through_provider km (server_resolver ts) handler body" "leaves_memory body"
  shows "holds (provider_invariant km (resolver_ok ts) (resolver_good ts)) (embedded_serve ts km handler readOnly c)
    (embedded_ok ts km body c)"
proof (cases c)
  case (Provider_Call req)
  then show ?thesis by (auto intro: holds_pbind [OF provide_keeps_invariant [OF assms(1)]])
next
  case (Mounted_Call sched req)
  then show ?thesis
    by (auto intro!: holds_pbind [OF server_fanout.wrapped_invariant [OF assms(2) leaves_memory_keeps [OF assms(3)]]])
qed



definition pods_body :: "(unit, (unit, unit, string) embedding, unit) tool_body" where
  "pods_body k req = api (\<lambda>w. (Inr \<lparr>lr_Content = [Text_Content ''web-0 Running''], lr_IsError = False\<rparr>, w))"

definition pods_handler :: "((unit, unit, string) embedding, unit) tool_handler" where
  "pods_handler req =
     (case unmarshal_object (rq_Arguments req) of
        Inl e \<Rightarrow> Done (Inl e)
      | Inr args \<Rightarrow>
          (case map_of args targetParameterName of
             Some (J_Str t) \<Rightarrow> ebind (GetDerivedKubernetes sample_kmcp (server_resolver embedded_tools) t) (\<lambda>k. pods_body k req)
           | _ \<Rightarrow> Done (Inl refused)))"

definition pods_call :: "unit tool_request" where
  "pods_call = \<lparr>rq_Context = (), rq_Name = ''pods_list'',
     rq_Arguments = Value (J_Obj [(''clusters'', J_Arr [J_Str ''prod/admin/team/web''])])\<rparr>"

definition pods_result :: per_cluster_tool_result where
  "pods_result = \<lparr>pt_Cluster = ''prod/admin/team/web'', pt_Text = ''web-0 Running'', pt_IsError = False, pt_Error = ''''\<rparr>"

lemma pods_through_provider: "through_provider sample_kmcp (server_resolver embedded_tools) pods_handler pods_body"
  by (simp add: through_provider_def pods_handler_def)

lemma pods_leave_memory: "leaves_memory pods_body"
  by (simp add: leaves_memory_def pods_body_def api_def preserves_call)

lemma pods_call_runs:
  "fst (run (embedded_serve embedded_tools sample_kmcp pods_handler (\<lambda>_. False) (Mounted_Call [] pods_call))
     (sample_embedding\<lparr>cache_store := NewStore 300 60\<rparr>)) =
   Fanned_Out (Inr \<lparr>fo_Content = Fan_Results [pods_result], fo_IsError = False\<rparr>)"
proof -
  let ?s = "sample_embedding\<lparr>cache_store := NewStore 300 60\<rparr>"
  let ?t = "''prod/admin/team/web''"
  obtain s1 where mgr: "run (managerForTarget sample_kmcp (server_resolver embedded_tools) ?t) ?s = (Inr ''kc'', s1)"
    using embedded_fresh_manager by (cases "run (managerForTarget sample_kmcp (server_resolver embedded_tools) ?t) ?s") (simp add: run_pbind)
  have derived: "km_derived sample_kmcp g = (\<lambda>w. (Inr (), w))" for g by (simp add: sample_kmcp_def)
  have args: "unmarshal_object (rq_Arguments pods_call) = Inr [(''clusters'', J_Arr [J_Str ?t])]" "rq_Arguments pods_call \<noteq> Absent"
    by (simp_all add: pods_call_def unmarshal_object_def last_values_def)
  have "fst (run (runFanOut (error_text embedded_tools) [] pods_handler pods_call [?t]) ?s) =
      \<lparr>fo_Content = Fan_Results [pods_result], fo_IsError = False\<rparr>"
    by (simp add: runFanOut_def callOneTarget_def through_provider_synth [OF pods_through_provider] GetDerivedKubernetes_def
        run_pbind run_ebind mgr derived pods_body_def firstText_def pt_failed_def pods_result_def)
  moreover have "ResolveClusterPatterns [?t] (listKnownClusters (server_resolver embedded_tools)) True = Done (Inr (first_seen [?t]))"
    by (rule resolve_strict(1)) (simp add: full_path_def)
  ultimately show ?thesis
    by (simp add: wrapped_handler_def run_pbind args unmarshal_strings_def clustersParameterName_def unmarshal_string_def
        first_seen_def split_beta)
qed


end
