(* ===== verification/Json.thy ===== *)
theory Json
  imports Prelude
begin

text \<open>
  The part of \<open>encoding/json\<close> that writes results: \<open>json.MarshalIndent(v, "", "  ")\<close> on
  strings, integers, booleans, slices, and structs and maps as lists of members. Strings are
  written as the package does: quotes, backslashes, control characters and the characters <,
  > and & are escaped, bytes that are not UTF-8 become the replacement character. A text can
  be read in one way only.
\<close>

subsection \<open>UTF-8\<close>

definition byte :: "char \<Rightarrow> nat" where
  "byte c = of_char c"

definition continues :: "char \<Rightarrow> bool" where
  "continues c \<longleftrightarrow> 128 \<le> byte c \<and> byte c \<le> 191"

text \<open>The number of bytes of the first character, 0 when the string does not start with one.\<close>

fun rune_len :: "string \<Rightarrow> nat" where
  "rune_len [] = 0"
| "rune_len (a # s) =
     (if byte a < 128 then 1
      else if 194 \<le> byte a \<and> byte a \<le> 223 then
        (case s of b # _ \<Rightarrow> if continues b then 2 else 0 | [] \<Rightarrow> 0)
      else if 224 \<le> byte a \<and> byte a \<le> 239 then
        (case s of
           b # c # _ \<Rightarrow>
             if continues b \<and> continues c \<and> \<not> (byte a = 224 \<and> byte b < 160) \<and> \<not> (byte a = 237 \<and> byte b > 159)
             then 3 else 0
         | _ \<Rightarrow> 0)
      else if 240 \<le> byte a \<and> byte a \<le> 244 then
        (case s of
           b # c # d # _ \<Rightarrow>
             if continues b \<and> continues c \<and> continues d \<and> \<not> (byte a = 240 \<and> byte b < 144) \<and> \<not> (byte a = 244 \<and> byte b > 143)
             then 4 else 0
         | _ \<Rightarrow> 0)
      else 0)"

lemma rune_len_le: "rune_len s \<le> length s"
  by (cases s rule: rune_len.cases) (auto split: list.split)

function valid_utf8 :: "string \<Rightarrow> bool" where
  "valid_utf8 s = (if s = [] then True else if rune_len s = 0 then False else valid_utf8 (drop (rune_len s) s))"
  by auto
termination
  by (relation "measure length") auto

declare valid_utf8.simps [simp del]

lemma valid_utf8_Nil [simp]: "valid_utf8 []"
  by (simp add: valid_utf8.simps)

subsection \<open>Strings\<close>

definition hex_digit :: "nat \<Rightarrow> char" where
  "hex_digit n = ''0123456789abcdef'' ! n"

definition escape_ascii :: "char \<Rightarrow> string" where
  "escape_ascii c =
     (if c = CHR 0x22 then [CHR 0x5C, CHR 0x22]
      else if c = CHR 0x5C then [CHR 0x5C, CHR 0x5C]
      else if c = CHR 0x08 then [CHR 0x5C, CHR ''b'']
      else if c = CHR 0x0C then [CHR 0x5C, CHR ''f'']
      else if c = CHR 0x0A then [CHR 0x5C, CHR ''n'']
      else if c = CHR 0x0D then [CHR 0x5C, CHR ''r'']
      else if c = CHR 0x09 then [CHR 0x5C, CHR ''t'']
      else if byte c < 32 \<or> c \<in> {CHR ''<'', CHR ''>'', CHR ''&''} then
        [CHR 0x5C, CHR ''u'', CHR ''0'', CHR ''0'', hex_digit (byte c div 16), hex_digit (byte c mod 16)]
      else [c])"

definition line_separator :: string where
  "line_separator = map char_of [226, 128, 168 :: nat]"

definition paragraph_separator :: string where
  "paragraph_separator = map char_of [226, 128, 169 :: nat]"

definition escape_rune :: "string \<Rightarrow> string" where
  "escape_rune r =
     (if r = line_separator then CHR 0x5C # ''u2028''
      else if r = paragraph_separator then CHR 0x5C # ''u2029''
      else if length r = 1 then escape_ascii (hd r)
      else r)"

function string_body :: "string \<Rightarrow> string" where
  "string_body s =
     (if s = [] then []
      else if rune_len s = 0 then CHR 0x5C # ''ufffd'' @ string_body (tl s)
      else escape_rune (take (rune_len s) s) @ string_body (drop (rune_len s) s))"
  by auto
termination
  by (relation "measure length") auto

declare string_body.simps [simp del]

definition json_string :: "string \<Rightarrow> string" where
  "json_string s = CHR 0x22 # string_body s @ [CHR 0x22]"

text \<open>How a client reads a string literal (RFC 8259), from behind the opening quote.\<close>

definition unhex :: "char \<Rightarrow> nat" where
  "unhex c = (if byte c \<le> 57 then byte c - 48 else byte c - 87)"

definition utf8_encode :: "nat \<Rightarrow> string" where
  "utf8_encode n =
     (if n < 128 then [char_of n]
      else if n < 2048 then [char_of (192 + n div 64), char_of (128 + n mod 64)]
      else [char_of (224 + n div 4096), char_of (128 + n div 64 mod 64), char_of (128 + n mod 64)])"

definition unescape :: "char \<Rightarrow> char" where
  "unescape c =
     (if c = CHR ''b'' then CHR 0x08 else if c = CHR ''f'' then CHR 0x0C else if c = CHR ''n'' then CHR 0x0A
      else if c = CHR ''r'' then CHR 0x0D else if c = CHR ''t'' then CHR 0x09 else c)"

definition push :: "string \<Rightarrow> (string \<times> string) option \<Rightarrow> (string \<times> string) option" where
  "push xs r = map_option (\<lambda>(s, rest). (xs @ s, rest)) r"

fun read_string :: "string \<Rightarrow> (string \<times> string) option" where
  "read_string [] = None"
| "read_string (c # s) =
     (if c = CHR 0x22 then Some ([], s)
      else if c \<noteq> CHR 0x5C then push [c] (read_string s)
      else (case s of
              [] \<Rightarrow> None
            | e # s1 \<Rightarrow>
                if e \<noteq> CHR ''u'' then push [unescape e] (read_string s1)
                else (case s1 of
                        h1 # h2 # h3 # h4 # s2 \<Rightarrow>
                          push (utf8_encode (((unhex h1 * 16 + unhex h2) * 16 + unhex h3) * 16 + unhex h4)) (read_string s2)
                      | _ \<Rightarrow> None)))"

lemma push_simps [simp]: "push [] r = r" "push xs (push ys r) = push (xs @ ys) r" "push xs (Some (s, x)) = Some (xs @ s, x)"
  by (cases r; force simp: push_def)+

lemma unhex_hex: "n < 16 \<Longrightarrow> unhex (hex_digit n) = n"
proof -
  have "\<forall>n < 16. unhex (hex_digit n) = n" by code_simp
  then show "n < 16 \<Longrightarrow> unhex (hex_digit n) = n" by blast
qed

lemma char_of_byte [simp]: "char_of (byte c) = c"
  by (simp add: byte_def)

lemma read_escape_ascii:
  assumes "byte c < 128"
  shows "read_string (escape_ascii c @ r) = push [c] (read_string r)"
proof -
  have "unhex (CHR ''0'') = 0" by (simp add: unhex_def byte_def)
  moreover have "(byte c div 16) * 16 + byte c mod 16 = byte c" by simp
  moreover have "utf8_encode (byte c) = [c]" using assms by (simp add: utf8_encode_def)
  ultimately show ?thesis
    using assms by (auto simp: escape_ascii_def unescape_def unhex_hex)
qed

lemma read_raw:
  "\<forall>c \<in> set xs. 128 \<le> byte c \<Longrightarrow> read_string (xs @ r) = push xs (read_string r)"
proof (induction xs)
  case (Cons c xs)
  then have "c \<noteq> CHR 0x22" "c \<noteq> CHR 0x5C" by (auto simp: byte_def)
  with Cons show ?case by simp
qed simp

lemma rune_bytes:
  assumes "rune_len s > 1"
  shows "\<forall>c \<in> set (take (rune_len s) s). 128 \<le> byte c"
proof -
  from assms obtain a s' where s: "s = a # s'" "128 \<le> byte a" by (cases s) (auto split: if_splits)
  with assms consider b r where "s' = b # r" "rune_len s = 2" "continues b"
    | b c r where "s' = b # c # r" "rune_len s = 3" "continues b" "continues c"
    | b c d r where "s' = b # c # d # r" "rune_len s = 4" "continues b" "continues c" "continues d"
    by (simp split: if_splits list.splits)
  then show ?thesis
    by cases (use s in \<open>auto simp: continues_def numeral_eq_Suc\<close>)
qed

lemma read_escape_rune:
  assumes "rune_len s \<noteq> 0"
  shows "read_string (escape_rune (take (rune_len s) s) @ r) = push (take (rune_len s) s) (read_string r)"
proof (cases "rune_len s = 1")
  case True
  then obtain c s' where s: "s = c # s'" "byte c < 128"
    by (cases s rule: rune_len.cases) (auto split: list.splits if_splits)
  with True read_escape_ascii [OF s(2)] show ?thesis
    by (simp add: escape_rune_def line_separator_def paragraph_separator_def)
next
  case False
  with assms have raw: "\<forall>c \<in> set (take (rune_len s) s). 128 \<le> byte c" using rune_bytes [of s] by simp
  have "length (take (rune_len s) s) \<noteq> 1" using False rune_len_le [of s] by simp
  moreover have "utf8_encode (((unhex (CHR ''2'') * 16 + unhex (CHR ''0'')) * 16 + unhex (CHR ''2'')) * 16 + unhex (CHR ''8'')) = line_separator"
    "utf8_encode (((unhex (CHR ''2'') * 16 + unhex (CHR ''0'')) * 16 + unhex (CHR ''2'')) * 16 + unhex (CHR ''9'')) = paragraph_separator"
    by (simp_all add: utf8_encode_def unhex_def byte_def line_separator_def paragraph_separator_def)
  ultimately show ?thesis
    using read_raw [OF raw, of r] by (simp add: escape_rune_def)
qed

lemma read_json_string: "valid_utf8 s \<Longrightarrow> read_string (string_body s @ CHR 0x22 # r) = Some (s, r)"
proof (induction s rule: valid_utf8.induct)
  case (1 s)
  show ?case
  proof (cases "s = []")
    case False
    with "1.prems" have len: "rune_len s \<noteq> 0" and rest: "valid_utf8 (drop (rune_len s) s)"
      by (simp_all add: valid_utf8.simps [of s] split: if_splits)
    from "1.IH" [OF False len] rest
    have "read_string (string_body (drop (rune_len s) s) @ CHR 0x22 # r) = Some (drop (rune_len s) s, r)" by simp
    with read_escape_rune [OF len] False len show ?thesis by (simp add: string_body.simps [of s])
  qed (simp add: string_body.simps)
qed

lemma json_string_unique:
  assumes "valid_utf8 s" "valid_utf8 t" "json_string s @ x = json_string t @ y"
  shows "s = t \<and> x = y"
proof -
  have "string_body s @ CHR 0x22 # x = string_body t @ CHR 0x22 # y" using assms(3) by (simp add: json_string_def)
  then have "Some (s, x) = Some (t, y)"
    using read_json_string [OF assms(1), of x] read_json_string [OF assms(2), of y] by metis
  then show ?thesis by blast
qed

subsection \<open>Values\<close>

datatype doc =
    D_Null
  | D_True
  | D_Int int
  | D_Str string
  | D_Arr "doc list"
  | D_Obj "(string \<times> doc) list"

definition new_line :: "nat \<Rightarrow> string" where
  "new_line d = CHR 0x0A # replicate (2 * d) (CHR '' '')"

definition block :: "nat \<Rightarrow> char \<Rightarrow> char \<Rightarrow> string list \<Rightarrow> string" where
  "block d l r items =
     (if items = [] then [l, r]
      else l # new_line (d + 1) @ go_join ('','' @ new_line (d + 1)) items @ new_line d @ [r])"

fun MarshalIndent :: "nat \<Rightarrow> doc \<Rightarrow> string" where
  "MarshalIndent d D_Null = ''null''"
| "MarshalIndent d D_True = ''true''"
| "MarshalIndent d (D_Int i) = itoa i"
| "MarshalIndent d (D_Str s) = json_string s"
| "MarshalIndent d (D_Arr xs) = block d (CHR ''['') (CHR '']'') (map (MarshalIndent (d + 1)) xs)"
| "MarshalIndent d (D_Obj kvs) =
     block d (CHR ''{'') (CHR ''}'') (map (\<lambda>(k, v). json_string k @ '': '' @ MarshalIndent (d + 1) v) kvs)"

text \<open>All strings of a value are UTF-8.\<close>

fun utf8_doc :: "doc \<Rightarrow> bool" where
  "utf8_doc (D_Str s) = valid_utf8 s"
| "utf8_doc (D_Arr xs) = list_all utf8_doc xs"
| "utf8_doc (D_Obj kvs) = list_all (\<lambda>(k, v). valid_utf8 k \<and> utf8_doc v) kvs"
| "utf8_doc _ = True"

subsection \<open>A text can be read in one way only\<close>

definition no_digit :: "string \<Rightarrow> bool" where
  "no_digit x \<longleftrightarrow> (\<forall>c \<in> set (take 1 x). \<not> is_digit c)"

lemma no_digit_simps [simp]: "no_digit []" "no_digit (c # x) = (\<not> is_digit c)"
  by (simp_all add: no_digit_def)

lemma digits_unique:
  assumes "digits10 m @ x = digits10 n @ y" "no_digit x" "no_digit y"
  shows "m = n \<and> x = y"
proof -
  have "takeWhile is_digit (digits10 k @ z) = digits10 k" if "no_digit z" for k z
    using that digits10_digits [of _ k] by (cases z) (simp_all add: takeWhile_append)
  with assms have "digits10 m = digits10 n" by metis
  with assms(1) show ?thesis by (simp add: digits10_inj)
qed

lemma minus_no_digit: "CHR ''-'' # z \<noteq> digits10 n @ y"
  using digits10_digits [of "CHR ''-''" n] by (cases "digits10 n") (auto simp: is_digit_def)

lemma itoa_unique:
  assumes "itoa i @ x = itoa j @ y" "no_digit x" "no_digit y"
  shows "i = j \<and> x = y"
proof (cases "i < 0"; cases "j < 0")
  assume "i < 0" "j < 0"
  with assms digits_unique [of "nat (- i)" x "nat (- j)" y] show ?thesis by (auto simp: itoa_def)
next
  assume "i < 0" "\<not> j < 0"
  with assms(1) minus_no_digit [of "digits10 (nat (- i)) @ x" "nat j" y] show ?thesis by (simp add: itoa_def)
next
  assume "\<not> i < 0" "j < 0"
  with assms(1) minus_no_digit [of "digits10 (nat (- j)) @ y" "nat i" x] show ?thesis by (simp add: itoa_def)
next
  assume "\<not> i < 0" "\<not> j < 0"
  with assms digits_unique [of "nat i" x "nat j" y] show ?thesis by (auto simp: itoa_def)
qed

text \<open>The items of an array or an object, up to the closing bracket.\<close>

definition reads_once :: "('x \<Rightarrow> string) \<Rightarrow> ('x \<Rightarrow> bool) \<Rightarrow> 'x \<Rightarrow> bool" where
  "reads_once g ok v \<longleftrightarrow>
     (\<forall>w x y. ok v \<longrightarrow> ok w \<longrightarrow> no_digit x \<longrightarrow> no_digit y \<longrightarrow> g v @ x = g w @ y \<longrightarrow> v = w \<and> x = y)"

lemma reads_onceI:
  assumes "\<And>w x y. ok v \<Longrightarrow> ok w \<Longrightarrow> no_digit x \<Longrightarrow> no_digit y \<Longrightarrow> g v @ x = g w @ y \<Longrightarrow> v = w \<and> x = y"
  shows "reads_once g ok v"
  using assms unfolding reads_once_def by blast

text \<open>What follows an item: the end of the block, or a comma and the other items.\<close>

definition tail :: "nat \<Rightarrow> string list \<Rightarrow> string \<Rightarrow> string" where
  "tail d items x = (if items = [] then CHR 0x0A # x else CHR '','' # new_line d @ go_join ('','' @ new_line d) items @ CHR 0x0A # x)"

lemma join_tail: "go_join ('','' @ new_line d) (a # items) @ CHR 0x0A # x = a @ tail d items x"
  by (simp add: tail_def go_join_Cons)

lemma no_digit_tail: "no_digit (tail d items x)"
  by (simp add: tail_def is_digit_def)

lemma tail_eq:
  "tail d items x = tail d items' y \<Longrightarrow>
   (items = [] \<and> items' = [] \<and> x = y) \<or> (items \<noteq> [] \<and> items' \<noteq> []
     \<and> go_join ('','' @ new_line d) items @ CHR 0x0A # x = go_join ('','' @ new_line d) items' @ CHR 0x0A # y)"
  by (auto simp: tail_def split: if_splits)

lemma items_unique:
  assumes "\<forall>v \<in> set vs. reads_once g ok v" "list_all ok vs" "list_all ok ws" "vs \<noteq> []" "ws \<noteq> []"
    and "go_join ('','' @ new_line d) (map g vs) @ CHR 0x0A # x = go_join ('','' @ new_line d) (map g ws) @ CHR 0x0A # y"
  shows "vs = ws \<and> x = y"
  using assms
proof (induction vs arbitrary: ws)
  case (Cons v vs)
  obtain w ws' where ws: "ws = w # ws'" using Cons.prems(5) by (cases ws) auto
  have "g v @ tail d (map g vs) x = g w @ tail d (map g ws') y"
    using Cons.prems(6) unfolding ws list.map join_tail .
  with Cons.prems(1-3) ws no_digit_tail have "v = w" "tail d (map g vs) x = tail d (map g ws') y"
    unfolding reads_once_def by (simp_all, blast+)
  from tail_eq [OF this(2)] Cons.IH [of ws'] Cons.prems(1-3) ws \<open>v = w\<close> show ?case by auto
qed simp

lemma block_unique:
  assumes "\<forall>v \<in> set vs. reads_once g ok v" "list_all ok vs" "list_all ok ws"
    and eq: "block d l r (map g vs) @ x = block d l r (map g ws) @ y" and r: "r \<noteq> CHR 0x0A"
  shows "vs = ws \<and> x = y"
proof (cases "vs = [] \<or> ws = []")
  case True
  with eq r show ?thesis by (auto simp: block_def new_line_def split: if_splits)
next
  case False
  with eq have "go_join ('','' @ new_line (d + 1)) (map g vs) @ CHR 0x0A # replicate (2 * d) (CHR '' '') @ r # x =
      go_join ('','' @ new_line (d + 1)) (map g ws) @ CHR 0x0A # replicate (2 * d) (CHR '' '') @ r # y"
    by (simp add: block_def new_line_def)
  from items_unique [OF assms(1-3) _ _ this] False show ?thesis by simp
qed

lemma itoa_first: "\<exists>c cs. itoa i = c # cs \<and> (is_digit c \<or> c = CHR ''-'')"
  using digits10_digits [of "hd (digits10 (nat i))" "nat i"] by (cases "digits10 (nat i)") (auto simp: itoa_def)

lemma first_chars [simp]:
  "\<not> is_digit (CHR ''n'')" "\<not> is_digit (CHR ''t'')" "\<not> is_digit (CHR 0x22)" "\<not> is_digit (CHR ''['')" "\<not> is_digit (CHR ''{'')"
  by (simp_all add: is_digit_def)

lemma new_line_eq [simp]: "new_line d @ x = new_line d @ y \<longleftrightarrow> x = y"
  by (simp add: new_line_def)

text \<open>What a value starts with decides its kind.\<close>

lemma kinds:
  assumes "MarshalIndent d v @ x = MarshalIndent d w @ y"
  shows "(v = D_Null \<longleftrightarrow> w = D_Null) \<and> (v = D_True \<longleftrightarrow> w = D_True) \<and> ((\<exists>i. v = D_Int i) \<longleftrightarrow> (\<exists>i. w = D_Int i))
    \<and> ((\<exists>s. v = D_Str s) \<longleftrightarrow> (\<exists>s. w = D_Str s)) \<and> ((\<exists>xs. v = D_Arr xs) \<longleftrightarrow> (\<exists>xs. w = D_Arr xs))
    \<and> ((\<exists>kvs. v = D_Obj kvs) \<longleftrightarrow> (\<exists>kvs. w = D_Obj kvs))"
proof -
  define lead where "lead v = (case v of D_Null \<Rightarrow> 0 | D_True \<Rightarrow> 1 | D_Int _ \<Rightarrow> 2 | D_Str _ \<Rightarrow> 3 | D_Arr _ \<Rightarrow> 4 | D_Obj _ \<Rightarrow> (5 :: nat))" for v
  define code where "code c = (if c = CHR ''n'' then 0 else if c = CHR ''t'' then 1 else if c = CHR 0x22 then 3
      else if c = CHR ''['' then 4 else if c = CHR ''{'' then 5 else (2 :: nat))" for c
  have "\<exists>c cs. MarshalIndent d v = c # cs \<and> code c = lead v" for v
  proof (cases v)
    case (D_Int i)
    obtain c cs where c: "itoa i = c # cs" "is_digit c \<or> c = CHR ''-''" using itoa_first by blast
    from c(2) have "code c = 2" by (auto simp: code_def)
    with c(1) D_Int show ?thesis by (simp add: lead_def)
  qed (simp_all add: lead_def code_def json_string_def block_def)
  from this [of v] this [of w] assms have "lead v = lead w" by auto
  then show ?thesis by (cases v; cases w) (simp_all add: lead_def)
qed

lemma member_reads_once:
  assumes "reads_once (MarshalIndent d) utf8_doc v"
  shows "reads_once (\<lambda>(k, v). json_string k @ '': '' @ MarshalIndent d v) (\<lambda>(k, v). valid_utf8 k \<and> utf8_doc v) (k, v)"
  unfolding reads_once_def
proof (clarsimp, goal_cases)
  case (1 k' v' x y)
  then have "k = k' \<and> MarshalIndent d v @ x = MarshalIndent d v' @ y"
    using json_string_unique [of k k'] by fastforce
  with 1 assms show ?case by (auto simp: reads_once_def)
qed

lemma members_read_once:
  assumes "\<And>k v. (k, v) \<in> set kvs \<Longrightarrow> reads_once (MarshalIndent d) utf8_doc v"
  shows "\<forall>m \<in> set kvs. reads_once (\<lambda>(k, v). json_string k @ '': '' @ MarshalIndent d v) (\<lambda>(k, v). valid_utf8 k \<and> utf8_doc v) m"
  using assms member_reads_once by fast

lemma array_reads_once:
  assumes "\<forall>v \<in> set xs. reads_once (MarshalIndent (d + 1)) utf8_doc v"
  shows "reads_once (MarshalIndent d) utf8_doc (D_Arr xs)"
proof (rule reads_onceI)
  fix w x y
  assume ok: "utf8_doc (D_Arr xs)" "utf8_doc w" and eq: "MarshalIndent d (D_Arr xs) @ x = MarshalIndent d w @ y"
  from kinds [OF eq] obtain ys where w: "w = D_Arr ys" by auto
  have "list_all utf8_doc xs" "list_all utf8_doc ys"
    and "block d (CHR ''['') (CHR '']'') (map (MarshalIndent (d + 1)) xs) @ x =
      block d (CHR ''['') (CHR '']'') (map (MarshalIndent (d + 1)) ys) @ y"
    using ok eq w by simp_all
  from block_unique [OF assms this] have "xs = ys \<and> x = y" by simp
  with w show "D_Arr xs = w \<and> x = y" by simp
qed

lemma object_reads_once:
  assumes "\<And>k v. (k, v) \<in> set kvs \<Longrightarrow> reads_once (MarshalIndent (d + 1)) utf8_doc v"
  shows "reads_once (MarshalIndent d) utf8_doc (D_Obj kvs)"
proof (rule reads_onceI)
  fix w x y
  assume ok: "utf8_doc (D_Obj kvs)" "utf8_doc w" and eq: "MarshalIndent d (D_Obj kvs) @ x = MarshalIndent d w @ y"
  from kinds [OF eq] obtain kvs' where w: "w = D_Obj kvs'" by auto
  have "kvs = kvs' \<and> x = y"
    by (rule block_unique [OF members_read_once [OF assms], where r = "CHR ''}''" and l = "CHR ''{''" and d = d])
       (use ok eq w in simp, use ok eq w in simp, use ok eq w in simp, use eq w in simp, simp)
  with w show "D_Obj kvs = w \<and> x = y" by simp
qed

text \<open>Different values have different texts, and none is the beginning of another.\<close>

lemma marshal_reads_once: "reads_once (MarshalIndent d) utf8_doc v"
proof (induction v arbitrary: d)
  case (D_Arr xs)
  then show ?case by (intro array_reads_once) blast
next
  case (D_Obj kvs)
  then show ?case by (intro object_reads_once) fastforce
next
  case (D_Int i)
  show ?case
  proof (rule reads_onceI)
    fix w x y
    assume "no_digit x" "no_digit y" and eq: "MarshalIndent d (D_Int i) @ x = MarshalIndent d w @ y"
    moreover from kinds [OF eq] obtain j where "w = D_Int j" by auto
    ultimately show "D_Int i = w \<and> x = y" using itoa_unique [of i x j y] by simp
  qed
next
  case (D_Str s)
  show ?case
  proof (rule reads_onceI)
    fix w x y
    assume ok: "utf8_doc (D_Str s)" "utf8_doc w" and eq: "MarshalIndent d (D_Str s) @ x = MarshalIndent d w @ y"
    from kinds [OF eq] obtain t where w: "w = D_Str t" by auto
    with ok eq have "s = t \<and> x = y" by (intro json_string_unique) simp_all
    with w show "D_Str s = w \<and> x = y" by simp
  qed
next
  case D_Null
  show ?case unfolding reads_once_def using kinds [of d D_Null] by fastforce
next
  case D_True
  show ?case unfolding reads_once_def using kinds [of d D_True] by fastforce
qed

lemma MarshalIndent_inj:
  "utf8_doc v \<Longrightarrow> utf8_doc w \<Longrightarrow> MarshalIndent d v = MarshalIndent d w \<Longrightarrow> v = w"
  using marshal_reads_once [of d v] unfolding reads_once_def by (metis append_Nil2 no_digit_simps(1))

end
