(* ===== verification/Wire.thy ===== *)
theory Wire
  imports Fanout Json
begin

text \<open>
  The texts of the tools' answers: what \<open>json.MarshalIndent\<close> makes of the results of
  \<open>internal/server/tools.go\<close> and \<open>internal/embed/fanout.go\<close>, with the member names and the
  \<open>omitempty\<close> options of the struct tags. Different results have different texts, as long as
  all strings are UTF-8; bytes that are not are lost.
\<close>

subsection \<open>Values of the results\<close>

definition omit_empty :: "string \<Rightarrow> string \<Rightarrow> (string \<times> doc) list" where
  "omit_empty k s = (if s = '''' then [] else [(k, D_Str s)])"

definition or_null :: "('a \<Rightarrow> doc) \<Rightarrow> 'a option \<Rightarrow> doc" where
  "or_null f x = (case x of None \<Rightarrow> D_Null | Some a \<Rightarrow> f a)"

text \<open>Maps are written in the order of their keys.\<close>

definition string_map_doc :: "string gomap \<Rightarrow> doc" where
  "string_map_doc m = D_Obj (map (\<lambda>k. (k, D_Str (the (map_of m k)))) (sort (map fst m)))"

definition cluster_members :: "capi_cluster \<Rightarrow> (string \<times> doc) list" where
  "cluster_members c =
     [(''kubeconfig'', D_Str (KubeconfigName c)), (''context'', D_Str (Context c)),
      (''namespace'', D_Str (Namespace c)), (''name'', D_Str (Name c))]
     @ (if CustomFields c = [] then [] else [(''custom_fields'', string_map_doc (CustomFields c))])"

definition entry_doc :: "list_clusters_entry \<Rightarrow> doc" where
  "entry_doc e = D_Obj (cluster_members (le_Cluster e) @ [(''target'', D_Str (le_Target e))])"

definition kubeconfig_doc :: "kubeconfig_result \<Rightarrow> doc" where
  "kubeconfig_doc r =
     D_Obj ((''cluster'', D_Str (kr_Cluster r)) # omit_empty ''kubeconfig'' (kr_Kubeconfig r) @ omit_empty ''error'' (kr_Error r))"

definition id_doc :: "cluster_id \<Rightarrow> doc" where
  "id_doc i =
     D_Obj [(''kubeconfig'', D_Str (id_Kubeconfig i)), (''context'', D_Str (id_Context i)),
            (''namespace'', D_Str (id_Namespace i)), (''name'', D_Str (id_Name i))]"

definition exec_doc :: "cluster_exec_result \<Rightarrow> doc" where
  "exec_doc r =
     D_Obj [(''cluster'', id_doc (cx_Cluster r)), (''stdout'', or_null D_Str (cx_Stdout r)),
            (''stderr'', or_null D_Str (cx_Stderr r)), (''exit_code'', or_null D_Int (cx_ExitCode r)),
            (''error'', or_null D_Str (cx_Error r))]"

definition tool_result_doc :: "per_cluster_tool_result \<Rightarrow> doc" where
  "tool_result_doc r =
     D_Obj ((''cluster'', D_Str (pt_Cluster r)) # omit_empty ''text'' (pt_Text r)
            @ (if pt_IsError r then [(''is_error'', D_True)] else []) @ omit_empty ''error'' (pt_Error r))"

subsection \<open>Texts of the answers\<close>

primrec payload_docs :: "payload \<Rightarrow> doc list" where
  "payload_docs (Plain t) = []"
| "payload_docs (Cluster_Entries es) = map entry_doc es"
| "payload_docs (Kubeconfig_Results rs) = map kubeconfig_doc rs"
| "payload_docs (Exec_Results rs) = map exec_doc rs"

definition payload_text :: "payload \<Rightarrow> string" where
  "payload_text p = (case p of Plain t \<Rightarrow> t | _ \<Rightarrow> MarshalIndent 0 (D_Arr (payload_docs p)))"

definition fanout_text :: "fanout_payload \<Rightarrow> string" where
  "fanout_text p = (case p of Fan_Text t \<Rightarrow> t | Fan_Results rs \<Rightarrow> MarshalIndent 0 (D_Arr (map tool_result_doc rs)))"

subsection \<open>Results are determined by their values\<close>

definition same_cluster :: "capi_cluster \<Rightarrow> capi_cluster \<Rightarrow> bool" where
  "same_cluster c d \<longleftrightarrow>
     c\<lparr>CustomFields := []\<rparr> = d\<lparr>CustomFields := []\<rparr> \<and> map_of (CustomFields c) = map_of (CustomFields d)"

definition same_entry :: "list_clusters_entry \<Rightarrow> list_clusters_entry \<Rightarrow> bool" where
  "same_entry e f \<longleftrightarrow> same_cluster (le_Cluster e) (le_Cluster f) \<and> le_Target e = le_Target f"

lemma string_map_doc_eq:
  assumes "string_map_doc m = string_map_doc n"
  shows "map_of m = map_of n"
proof
  fix k
  have lookup: "map_of (map (\<lambda>k. (k, D_Str (the (map_of l k)))) (sort (map fst l))) k = map_option D_Str (map_of l k)" for l :: "string gomap"
    using map_of_eq_None_iff [of l k] by (cases "map_of l k") (auto simp: map_of_map_restrict restrict_map_def)
  from assms have "map_option D_Str (map_of m k) = map_option D_Str (map_of n k)"
    unfolding lookup [symmetric] by (simp add: string_map_doc_def)
  then show "map_of m k = map_of n k" by (cases "map_of m k"; cases "map_of n k") simp_all
qed

lemma entry_doc_eq: "entry_doc e = entry_doc f \<Longrightarrow> same_entry e f"
  by (auto simp: entry_doc_def cluster_members_def same_entry_def same_cluster_def dest: string_map_doc_eq split: if_splits)

lemma kubeconfig_doc_eq [simp]: "kubeconfig_doc r = kubeconfig_doc s \<longleftrightarrow> r = s"
  by (auto simp: kubeconfig_doc_def omit_empty_def split: if_splits)

lemma or_null_eq [simp]: "or_null D_Str x = or_null D_Str y \<longleftrightarrow> x = y" "or_null D_Int i = or_null D_Int j \<longleftrightarrow> i = j"
  by (simp_all add: or_null_def split: option.split)

lemma exec_doc_eq [simp]: "exec_doc r = exec_doc s \<longleftrightarrow> r = s"
  by (auto simp: exec_doc_def id_doc_def intro!: cluster_exec_result.equality cluster_id.equality)

lemma tool_result_doc_eq [simp]: "tool_result_doc r = tool_result_doc s \<longleftrightarrow> r = s"
  by (auto simp: tool_result_doc_def omit_empty_def split: if_splits)


subsection \<open>Texts that can be read back\<close>

fun same_results :: "payload \<Rightarrow> payload \<Rightarrow> bool" where
  "same_results (Plain t) (Plain u) = (t = u)"
| "same_results (Cluster_Entries es) (Cluster_Entries fs) = list_all2 same_entry es fs"
| "same_results (Kubeconfig_Results rs) (Kubeconfig_Results ss) = (rs = ss)"
| "same_results (Exec_Results rs) (Exec_Results ss) = (rs = ss)"
| "same_results p q = (payload_docs p = [] \<and> payload_docs q = [])"

definition from_plain :: "payload \<Rightarrow> bool" where
  "from_plain p \<longleftrightarrow> (\<exists>t. p = Plain t)"

text \<open>The first members tell the kinds of results apart.\<close>

lemma kinds_of_results [simp]:
  "entry_doc e \<noteq> kubeconfig_doc k" "entry_doc e \<noteq> exec_doc x" "kubeconfig_doc k \<noteq> exec_doc x"
  "kubeconfig_doc k \<noteq> entry_doc e" "exec_doc x \<noteq> entry_doc e" "exec_doc x \<noteq> kubeconfig_doc k"
  by (auto simp: entry_doc_def cluster_members_def kubeconfig_doc_def exec_doc_def id_doc_def)

lemma map_docs_disjoint:
  "(\<And>x y. f x \<noteq> g y) \<Longrightarrow> map f xs = map g ys \<longleftrightarrow> xs = [] \<and> ys = []"
  by (cases xs; cases ys) auto

lemma map_docs_eq: "(\<And>x y. f x = f y \<longleftrightarrow> x = y) \<Longrightarrow> map f xs = map f ys \<longleftrightarrow> xs = ys"
  by (metis injI inj_map_eq_map)

lemma entries_eq: "map entry_doc es = map entry_doc fs \<Longrightarrow> list_all2 same_entry es fs"
  by (induction es arbitrary: fs) (auto simp: entry_doc_eq Cons_eq_map_conv)

lemma same_docs:
  "payload_docs p = payload_docs q \<Longrightarrow> \<not> from_plain p \<Longrightarrow> \<not> from_plain q \<Longrightarrow> same_results p q"
  by (cases p; cases q)
     (simp_all add: from_plain_def entries_eq map_docs_disjoint map_docs_eq)

lemma payload_text_docs:
  assumes "payload_text p = payload_text q" "\<not> from_plain p" "\<not> from_plain q"
    and "list_all utf8_doc (payload_docs p)" "list_all utf8_doc (payload_docs q)"
  shows "payload_docs p = payload_docs q"
proof -
  have "payload_text r = MarshalIndent 0 (D_Arr (payload_docs r))" if "\<not> from_plain r" for r
    using that by (cases r) (simp_all add: payload_text_def from_plain_def)
  with assms MarshalIndent_inj [of "D_Arr (payload_docs p)" "D_Arr (payload_docs q)" 0] show ?thesis by simp
qed

text \<open>
  C21: what a tool answers can be read back from its text: two answers of results in UTF-8
  with the same text hold the same results (custom fields as maps), whatever the strings in
  them contain; only empty lists do not show which tool they come from. The same goes for
  the texts of fan-outs of embedded tools.
\<close>

theorem answers_can_be_read:
  assumes "list_all utf8_doc (payload_docs p)" "list_all utf8_doc (payload_docs q)" "\<not> from_plain p" "\<not> from_plain q"
    and "list_all (utf8_doc \<circ> tool_result_doc) rs" "list_all (utf8_doc \<circ> tool_result_doc) ss"
  shows "(payload_text p = payload_text q \<longrightarrow> same_results p q)
    \<and> (fanout_text (Fan_Results rs) = fanout_text (Fan_Results ss) \<longrightarrow> rs = ss)"
proof (intro conjI impI)
  assume "payload_text p = payload_text q"
  with assms(1-4) payload_text_docs same_docs show "same_results p q" by blast
next
  assume "fanout_text (Fan_Results rs) = fanout_text (Fan_Results ss)"
  with assms(5, 6) have "map tool_result_doc rs = map tool_result_doc ss"
    using MarshalIndent_inj [of "D_Arr (map tool_result_doc rs)" "D_Arr (map tool_result_doc ss)" 0]
    by (simp add: fanout_text_def list.pred_map)
  then show "rs = ss" by (simp add: map_docs_eq)
qed

definition told :: "string \<Rightarrow> payload" where
  "told out = Exec_Results [\<lparr>cx_Cluster = \<lparr>id_Kubeconfig = ''prod'', id_Context = ''admin'', id_Namespace = ''team'', id_Name = ''web''\<rparr>,
     cx_Stdout = Some out, cx_Stderr = None, cx_ExitCode = Some (- 1), cx_Error = None\<rparr>]"

definition fanned :: "string \<Rightarrow> per_cluster_tool_result list" where
  "fanned t = [\<lparr>pt_Cluster = ''prod/admin/team/web'', pt_Text = t, pt_IsError = True, pt_Error = ''''\<rparr>]"

theorem answers_can_be_read_witness:
  "payload_text (told ''say \"hi\" & <go>'') \<noteq> payload_text (told ''say hi'') \<and>
   fanout_text (Fan_Results (fanned '''')) \<noteq> fanout_text (Fan_Results (fanned ''null''))"
proof -
  have ascii: "valid_utf8 s" if "\<forall>c \<in> set s. byte c < 128" for s
    using that by (induction s) (simp_all add: valid_utf8.simps)
  have told: "list_all utf8_doc (payload_docs (told s))" "list_all (utf8_doc \<circ> tool_result_doc) (fanned s)"
    if "\<forall>c \<in> set s. byte c < 128" for s
    by (simp_all add: told_def fanned_def exec_doc_def id_doc_def tool_result_doc_def omit_empty_def or_null_def ascii that)
       (simp_all add: ascii byte_def)
  have "\<not> from_plain (told s)" for s by (simp add: told_def from_plain_def)
  moreover have "\<not> same_results (told ''say \"hi\" & <go>'') (told ''say hi'')" "fanned '''' \<noteq> fanned ''null''"
    by (simp_all add: told_def fanned_def)
  ultimately show ?thesis
    using answers_can_be_read [of "told ''say \"hi\" & <go>''" "told ''say hi''" "fanned ''''" "fanned ''null''"] told
    by (simp add: byte_def)
qed

text \<open>A command that prints bytes which are not UTF-8 is not reported faithfully.\<close>

lemma invalid_bytes_lost:
  "\<exists>r s. r \<noteq> s \<and> payload_text (Exec_Results [r]) = payload_text (Exec_Results [s])"
proof -
  define printed where "printed b = \<lparr>cx_Cluster = \<lparr>id_Kubeconfig = ''prod'', id_Context = ''admin'', id_Namespace = ''team'', id_Name = ''web''\<rparr>,
    cx_Stdout = Some [char_of b], cx_Stderr = None, cx_ExitCode = Some 0, cx_Error = None\<rparr>" for b :: nat
  have "string_body [char_of (128 :: nat)] = string_body [char_of (129 :: nat)]"
    by (simp add: string_body.simps byte_def)
  then have "payload_text (Exec_Results [printed 128]) = payload_text (Exec_Results [printed 129])"
    by (simp add: payload_text_def exec_doc_def printed_def or_null_def json_string_def id_doc_def)
  moreover have "printed 128 \<noteq> printed 129" by (simp add: printed_def)
  ultimately show ?thesis by blast
qed


end
