(* ===== verification/Http.thy ===== *)
theory Http
  imports Fanout Overlap
begin

text \<open>
  \<open>internal/httpserver\<close>: the HTTP front end. \<open>middleware.go\<close> checks the Host header,
  \<open>notify.go\<close> reports to systemd, \<open>server.go\<close> starts and stops the server.

  The state \<open>process\<close> extends that of the daemon with what it has written to stderr.
  Listening and the graceful shutdown of \<open>net/http\<close>, and the sessions of the MCP library,
  are parameters; the requests that a running server handles are the interleavings of the
  theories before.
\<close>

subsection \<open>State and surroundings\<close>

record ('w, 'f, 'g) process = "('w, 'f, 'g) embedding" +
  stderr_lines :: "string list"

record ('w, 's) front_end =
  fe_exec :: "string \<Rightarrow> string list \<Rightarrow> exec_options \<Rightarrow> 'w host \<Rightarrow> exec_output res \<times> 'w host"
  fe_getenv :: "string \<Rightarrow> string"
  fe_listen :: "string \<Rightarrow> 'w host \<Rightarrow> int res \<times> 'w host"
  fe_shutdown :: "'w host \<Rightarrow> unit res \<times> 'w host"
  fe_sessions :: "'s \<Rightarrow> nat"
  fe_error_text :: "goerr \<Rightarrow> string"

subsection \<open>The Host header\<close>

record http_response =
  hs_Status :: nat
  hs_ContentType :: string
  hs_Body :: string

definition loopback :: string where
  "loopback = ''127.0.0.1''"

definition with_port :: "int \<Rightarrow> string" where
  "with_port port = ''127.0.0.1:'' @ itoa port"

definition hostCheckMiddleware ::
    "int \<Rightarrow> ('q \<Rightarrow> ('s, http_response) prog) \<Rightarrow> string \<Rightarrow> 'q \<Rightarrow> ('s, http_response) prog" where
  "hostCheckMiddleware port handler host req =
     (if host \<noteq> loopback \<and> host \<noteq> with_port port then
        Done \<lparr>hs_Status = 421, hs_ContentType = ''text/plain'', hs_Body = ''Misdirected Request''\<rparr>
      else handler req)"

lemma with_port_inj: "with_port p = with_port q \<longleftrightarrow> p = q"
  by (simp add: with_port_def itoa_inj)

lemma with_port_loopback: "with_port p \<noteq> loopback"
  by (simp add: with_port_def loopback_def)

text \<open>
  A request reaches the handler exactly when its Host header is the literal loopback address,
  alone or with the port of this server; the name "localhost" and every other port are refused.
\<close>

lemma host_check_exact:
  "hostCheckMiddleware port handler host req =
     (if host \<in> {loopback, with_port port} then handler req
      else Done \<lparr>hs_Status = 421, hs_ContentType = ''text/plain'', hs_Body = ''Misdirected Request''\<rparr>)
   \<and> ''localhost'' \<notin> {loopback, with_port port}
   \<and> (with_port port' \<in> {loopback, with_port port} \<longleftrightarrow> port' = port)"
proof (intro conjI)
  show "''localhost'' \<notin> {loopback, with_port port}" by (simp add: loopback_def with_port_def)
qed (auto simp: hostCheckMiddleware_def with_port_inj with_port_loopback)

subsection \<open>Reports to systemd\<close>

definition zero_options :: exec_options where
  "zero_options = \<lparr>Env = [], Input = '''', MaxOutputBytes = 0\<rparr>"

definition notifySystemd :: "('w, 's) front_end \<Rightarrow> string list \<Rightarrow> (('w, 'f, 'g, 'm) process_scheme, unit) prog" where
  "notifySystemd fe args =
     (if fe_getenv fe ''NOTIFY_SOCKET'' = '''' then Done ()
      else pbind (call (on_host (fe_exec fe ''systemd-notify'' args zero_options))) (\<lambda>r.
        case r of
          Inr _ \<Rightarrow> Done ()
        | Inl e \<Rightarrow>
            call (\<lambda>s. ((), s\<lparr>stderr_lines := stderr_lines s @
              [''systemd-notify '' @ go_join '' '' args @ '' failed: '' @ fe_error_text fe e]\<rparr>))))"

subsection \<open>Starting and stopping\<close>

text \<open>
  A running server: the address it listens on, and its route, which is the middleware for the
  actual port around the library's handler.
\<close>

record ('s, 'q) http_server =
  hv_Addr :: string
  hv_Path :: string
  hv_Handler :: "string \<Rightarrow> 'q \<Rightarrow> ('s, http_response) prog"

definition sessionCount :: "('w, 's) front_end \<Rightarrow> 's \<Rightarrow> nat" where
  "sessionCount fe s = fe_sessions fe s"

definition Start ::
    "('w, ('w, 'f, 'g, 'm) process_scheme) front_end \<Rightarrow> ('q \<Rightarrow> (('w, 'f, 'g, 'm) process_scheme, http_response) prog) \<Rightarrow> int
     \<Rightarrow> (('w, 'f, 'g, 'm) process_scheme, (('w, 'f, 'g, 'm) process_scheme, 'q) http_server res) prog" where
  "Start fe handler port =
     ebind (wrap_err [Txt ''httpserver: listening on 127.0.0.1:'', Txt (itoa port), Txt '': '']
              (call (on_host (fe_listen fe (with_port port))))) (\<lambda>actualPort.
     let addr = with_port actualPort in
     pbind (call (\<lambda>s. (sessionCount fe s, s))) (\<lambda>n.
     pbind (notifySystemd fe [''--ready'', ''--status=listening on '' @ addr @ '', sessions='' @ itoa (int n)]) (\<lambda>_.
     Done (Inr \<lparr>hv_Addr = addr, hv_Path = ''/mcp'', hv_Handler = hostCheckMiddleware actualPort handler\<rparr>))))"

definition Addr :: "('s, 'q) http_server \<Rightarrow> string" where
  "Addr srv = hv_Addr srv"

definition http_Close :: "('w, 's) front_end \<Rightarrow> (('w, 'f, 'g, 'm) process_scheme, unit res) prog" where
  "http_Close fe =
     pbind (call (on_host (fe_shutdown fe))) (\<lambda>err.
     pbind (notifySystemd fe [''--stopping'', ''--status=shutting down'']) (\<lambda>_.
     Done err))"

subsection \<open>A started server\<close>

text \<open>What a server that listens on a port does with a request, by its Host header.\<close>

definition guarded_server ::
    "('q \<Rightarrow> ('s, http_response) prog) \<Rightarrow> int \<Rightarrow> ('s, 'q) http_server \<Rightarrow> bool" where
  "guarded_server handler port srv \<longleftrightarrow>
     Addr srv = with_port port \<and> hv_Path srv = ''/mcp''
     \<and> (\<forall>host req. hv_Handler srv host req =
          (if host = ''127.0.0.1'' \<or> host = Addr srv then handler req
           else Done \<lparr>hs_Status = 421, hs_ContentType = ''text/plain'', hs_Body = ''Misdirected Request''\<rparr>))"

text \<open>
  C35: starting fails exactly when listening fails, with the address in the message and
  without a report to systemd; a report that fails never stops the start. A started server
  serves only requests whose Host header is the loopback address or the very address it
  advertises, with the port it really listens on; it answers all others itself.
\<close>

theorem started_server_guarded:
  "(case fst (run (Start fe handler port) s) of
      Inr srv \<Rightarrow> (\<exists>actual. fst (fe_listen fe (with_port port) (machine s)) = Inr actual \<and> guarded_server handler actual srv)
    | Inl e \<Rightarrow> (\<exists>e0. fst (fe_listen fe (with_port port) (machine s)) = Inl e0
        \<and> e = Wrapf [Txt ''httpserver: listening on 127.0.0.1:'', Txt (itoa port), Txt '': ''] e0
        \<and> snd (run (Start fe handler port) s) = snd (on_host (fe_listen fe (with_port port)) s)))"
proof -
  obtain r h where listen: "fe_listen fe (with_port port) (machine s) = (r, h)" by force
  then show ?thesis
    by (cases r)
       (auto simp: Start_def Let_def run_ebind run_pbind run_wrap_err on_host_def guarded_server_def Addr_def
          hostCheckMiddleware_def loopback_def fun_eq_iff split: prod.split)
qed

end
