(* ===== verification/Daemon.thy ===== *)
theory Daemon
  imports Http
begin

text \<open>
  \<open>cmd/capi-shell-mcp/main.go\<close>: the start and the end of the daemon.

  \<open>go_run\<close> loads the configuration, builds the parts, mounts the embedded tools, listens,
  waits for a signal and shuts down. What happens between the start and the signal, which is
  the subject of the theories before, is the parameter \<open>pf_until_signal\<close>.
\<close>

subsection \<open>Surroundings\<close>

record ('c, 'w, 'f, 'g, 't, 'x, 'p, 'q) platform =
  pf_os :: "'w host os"
  pf_kube :: "('c, 'w) kube"
  pf_proxy :: "('w, ('w, 'f, 'g) process) tunnel_deps"
  pf_unmarshal :: "string \<Rightarrow> yaml gomap res"
  pf_front :: "('w, ('w, 'f, 'g) process) front_end"
  pf_mount :: "('t, ('w, 'f, 'g) process, 'x, 'p) mount_lib"
  pf_library_cfg :: 'f
  pf_handler :: "'q \<Rightarrow> (('w, 'f, 'g) process, http_response) prog"
  pf_until_signal :: "('w, 'f, 'g) process \<Rightarrow> ('w, 'f, 'g) process"

subsection \<open>Building the parts\<close>

definition NewToolServer ::
    "app_config \<Rightarrow> 'w host os \<Rightarrow> ('c, 'w) kube
     \<Rightarrow> (string \<Rightarrow> string list \<Rightarrow> exec_options \<Rightarrow> 'w host \<Rightarrow> exec_output res \<times> 'w host)
     \<Rightarrow> ('w, 's) tunnel_deps \<Rightarrow> ('c, 'w, 's) tool_server" where
  "NewToolServer cfg os K ex px = \<lparr>ts_cfg = cfg, ts_os = os, ts_kube = K, ts_execer = ex, ts_proxy = px\<rparr>"

definition daemon_tools ::
    "('c, 'w, 'f, 'g, 't, 'x, 'p, 'q) platform \<Rightarrow> app_config \<Rightarrow> ('c, 'w, ('w, 'f, 'g) process) tool_server" where
  "daemon_tools pf cfg = NewToolServer cfg (pf_os pf) (pf_kube pf) (fe_exec (pf_front pf)) (pf_proxy pf)"

definition load_config ::
    "('c, 'w, 'f, 'g, 't, 'x, 'p, 'q) platform \<Rightarrow> ('w, 'f, 'g) process \<Rightarrow> app_config res \<times> ('w, 'f, 'g) process" where
  "load_config pf s =
     (Load (\<lambda>path. os_ReadFile (lift_os (pf_os pf)) path s) (pf_unmarshal pf) (fe_getenv (pf_front pf)) (k_oor (pf_kube pf)), s)"

definition new_state ::
    "('c, 'w, 'f, 'g, 't, 'x, 'p, 'q) platform \<Rightarrow> app_config \<Rightarrow> ('w, 'f, 'g) process \<Rightarrow> unit \<times> ('w, 'f, 'g) process" where
  "new_state pf cfg s =
     ((), newCapiProvider (pf_library_cfg pf)
            (s\<lparr>cache_store := NewStore (seconds_duration (ClusterListTTLSeconds (cfg_Cache cfg))) (seconds_duration (KubeconfigTTLSeconds (cfg_Cache cfg))),
                processEntries := []\<rparr>))"

definition defaultPort :: int where
  "defaultPort = 4737"

definition listen_port :: "(string \<Rightarrow> string) \<Rightarrow> int res" where
  "listen_port getenv =
     (let p = getenv ''CAPI_SHELL_MCP_PORT'' in
      if p = '''' then Inr defaultPort
      else wrap_res [Txt ''invalid CAPI_SHELL_MCP_PORT '', Quo p, Txt '': ''] (Atoi p))"

definition serve_http ::
    "('c, 'w, 'f, 'g, 't, 'x, 'p, 'q) platform \<Rightarrow> app_config \<Rightarrow> (('w, 'f, 'g) process, unit res) prog" where
  "serve_http pf cfg =
     ebind (Done (wrap_res [Txt ''mounting kubernetes-mcp-server tools: '']
              (fst (MountTools (pf_mount pf) (fe_error_text (pf_front pf)) (server_resolver (daemon_tools pf cfg)))))) (\<lambda>_.
     ebind (Done (listen_port (fe_getenv (pf_front pf)))) (\<lambda>port.
     ebind (wrap_err [Txt ''starting HTTP server: ''] (Start (pf_front pf) (pf_handler pf) port)) (\<lambda>_.
     pbind (call (\<lambda>s. ((), pf_until_signal pf s))) (\<lambda>_.
     http_Close (pf_front pf)))))"

definition go_run :: "('c, 'w, 'f, 'g, 't, 'x, 'p, 'q) platform \<Rightarrow> (('w, 'f, 'g) process, unit res) prog" where
  "go_run pf =
     ebind (wrap_err [Txt ''loading config: ''] (call (load_config pf))) (\<lambda>cfg.
     pbind (call (new_state pf cfg)) (\<lambda>_.
     pbind (serve_http pf cfg) (\<lambda>r.
     pbind KillAllProcessProxies (\<lambda>_.
     Done r))))"

text \<open>The exit status of the process.\<close>

definition go_main :: "('c, 'w, 'f, 'g, 't, 'x, 'p, 'q) platform \<Rightarrow> (('w, 'f, 'g) process, int) prog" where
  "go_main pf =
     pbind (go_run pf) (\<lambda>r.
     case r of
       Inr _ \<Rightarrow> Done 0
     | Inl e \<Rightarrow> pbind (call (\<lambda>s. ((), s\<lparr>stderr_lines := stderr_lines s @ [fe_error_text (pf_front pf) e]\<rparr>))) (\<lambda>_. Done 1))"

subsection \<open>The port\<close>

text \<open>
  A port setting that is a number written in decimal is read back as this number when it
  fits into 64 bits, and stops the start with a range error otherwise. Without the setting
  the port is 4737.
\<close>

theorem port_setting_roundtrip:
  "listen_port (getenv(''CAPI_SHELL_MCP_PORT'' := itoa i)) =
     (if - (2 ^ 63) \<le> i \<and> i < 2 ^ 63 then Inr i
      else Inl (Wrapf [Txt ''invalid CAPI_SHELL_MCP_PORT '', Quo (itoa i), Txt '': '']
        (Errorf [Txt ''strconv.Atoi: parsing '', Quo (itoa i), Txt '': value out of range''])))
   \<and> listen_port (getenv(''CAPI_SHELL_MCP_PORT'' := '''')) = Inr 4737"
proof (cases "- (2 ^ 63) \<le> i \<and> i < 2 ^ 63")
  case True
  then show ?thesis using Atoi_itoa [of i] by (simp add: listen_port_def Let_def itoa_nonempty defaultPort_def)
next
  case False
  then have "Atoi (itoa i) = Inl (Errorf [Txt ''strconv.Atoi: parsing '', Quo (itoa i), Txt '': value out of range''])"
    by (intro Atoi_itoa_overflow) linarith
  with False show ?thesis by (auto simp: listen_port_def Let_def itoa_nonempty defaultPort_def)
qed

subsection \<open>Shutting down\<close>

text \<open>No call of the HTTP front end starts a tunnel.\<close>

definition quiet_front :: "('w, 's) front_end \<Rightarrow> ('w host \<Rightarrow> nat set) \<Rightarrow> bool" where
  "quiet_front fe running \<longleftrightarrow>
     (\<forall>h. (\<forall>file args opts. running (snd (fe_exec fe file args opts h)) \<subseteq> running h)
        \<and> (\<forall>addr. running (snd (fe_listen fe addr h)) \<subseteq> running h)
        \<and> running (snd (fe_shutdown fe h)) \<subseteq> running h)"

definition all_accounted :: "('w host \<Rightarrow> nat set) \<Rightarrow> ('w, 'm) daemon_scheme \<Rightarrow> bool" where
  "all_accounted running s \<longleftrightarrow> table_ok s \<and> (\<forall>pid. accounted running pid s)"

lemma all_accounted_on_host:
  assumes "\<And>h. running (snd (f h)) \<subseteq> running h" "all_accounted running s"
  shows "all_accounted running (snd (on_host f s))"
proof -
  have "harmless running s (snd (on_host f s))" by (simp add: harmless_def assms(1))
  from harmlessD(2,3) [OF this] assms(2) show ?thesis by (auto simp: all_accounted_def)
qed

lemma all_accounted_stderr [simp]:
  "all_accounted running (s\<lparr>stderr_lines := l\<rparr> :: ('w, 'f, 'g, 'm) process_scheme) = all_accounted running s"
  by (simp add: all_accounted_def table_ok_def accounted_def tracked_def machine_def)

lemma holds_notifySystemd:
  "quiet_front fe running \<Longrightarrow> holds (all_accounted running) (notifySystemd fe args) (\<lambda>_. True)"
  unfolding notifySystemd_def
  by (auto intro!: holds_pbind_True holds_call simp: all_accounted_on_host quiet_front_def split: sum.split)

lemma holds_serve_http:
  assumes "quiet_front (pf_front pf) running"
    and "\<And>s. all_accounted running s \<Longrightarrow> all_accounted running (pf_until_signal pf s)"
  shows "holds (all_accounted running) (serve_http pf cfg) (\<lambda>_. True)"
proof -
  have quiet: "running (snd (fe_listen (pf_front pf) a h)) \<subseteq> running h" "running (snd (fe_shutdown (pf_front pf) h)) \<subseteq> running h" for a h
    using assms(1) by (simp_all add: quiet_front_def)
  show ?thesis
    unfolding serve_http_def Start_def http_Close_def Let_def
    by (auto intro!: holds_pbind_True holds_ebind_True holds_wrap_err_True holds_notifySystemd [OF assms(1)] holds_call
        simp: assms(2) all_accounted_on_host quiet)
qed

text \<open>
  C10: however the daemon ends (a signal, a failure to mount, a bad port, a port that is
  taken, an error while shutting down), every sshuttle process that it started and that is
  still alive at its end was sent SIGTERM, and the table is empty. Between the start and the
  signal any calls, timer callbacks and exits may overlap; the calls must have ended when
  the shutdown begins (\<open>shutdown_race\<close> shows what happens otherwise).
\<close>

theorem no_tunnel_outlives_daemon:
  assumes "lawful_processes (pf_proxy pf) running" "\<not> px_under_systemd (pf_proxy pf)" "quiet_front (pf_front pf) running"
    and "\<And>s1. \<exists>tasks rs. one_flight tasks \<and> (world_step (around_tunnels running))\<^sup>*\<^sup>*
          (s1, map (perform (pf_proxy pf) running) tasks) (pf_until_signal pf s1, map Done rs)"
    and "running (machine s) = {}" "run (go_run pf) s = (r, s')"
  shows "running (machine s') \<subseteq> set (terminated s') \<and> (processEntries s' = [] \<or> s' = s)"
proof (cases "fst (load_config pf s)")
  case (Inl e)
  with assms(5,6) show ?thesis by (auto simp: go_run_def run_ebind run_wrap_err load_config_def)
next
  case (Inr cfg)
  let ?s0 = "snd (new_state pf cfg s)"
  obtain r1 s1 where body: "run (serve_http pf cfg) ?s0 = (r1, s1)" by force
  have until: "all_accounted running (pf_until_signal pf s2)" if ok: "all_accounted running s2" for s2
  proof -
    obtain tasks rs where "one_flight tasks" and steps: "(world_step (around_tunnels running))\<^sup>*\<^sup>*
        (s2, map (perform (pf_proxy pf) running) tasks) (pf_until_signal pf s2, map Done rs)"
      using assms(4) by blast
    from tasks_account [OF assms(1,2) this(1) _ _ steps] ok show ?thesis by (simp add: all_accounted_def)
  qed
  have "all_accounted running ?s0"
    using assms(5) by (simp add: all_accounted_def new_state_def newCapiProvider_def table_ok_def gomap_ok_def accounted_def machine_def)
  from holds_run [OF holds_serve_http [OF assms(3) until, where cfg = cfg] this] body
  have s1: "all_accounted running s1" by simp
  have s': "s' = snd (run KillAllProcessProxies s1)"
    using assms(6) Inr body by (auto simp: go_run_def run_ebind run_pbind run_wrap_err load_config_def split: prod.splits)
  have "gomap_ok (processEntries s1)" using s1 by (simp add: all_accounted_def table_ok_def)
  then have "machine s' = machine s1" "processEntries s' = []" by (simp_all add: s' run_KillAll machine_def)
  moreover have "pid \<in> set (terminated s')" if "pid \<in> running (machine s1)" for pid
    unfolding s' by (rule shutdown_signals) (use s1 that in \<open>simp_all add: all_accounted_def\<close>)
  ultimately show ?thesis by auto
qed


definition sample_front :: "(nat set, (nat set, unit, string) process) front_end" where
  "sample_front = \<lparr>fe_exec = (\<lambda>_ _ _ h. (Inl refused, h)), fe_getenv = (\<lambda>k. if k = ''CAPI_SHELL_MCP_CONFIG'' then ''/config'' else ''''),
     fe_listen = (\<lambda>_ h. (Inr 4737, h)), fe_shutdown = (\<lambda>h. (Inr (), h)), fe_sessions = (\<lambda>_. 0), fe_error_text = (\<lambda>_. ''error'')\<rparr>"

text \<open>Before the signal one tunnel is started.\<close>

definition sample_platform :: "(unit, nat set, unit, string, nat, unit, unit, unit) platform" where
  "sample_platform = \<lparr>pf_os = sample_os, pf_kube = offline_kube, pf_proxy = counting_deps,
     pf_unmarshal = (\<lambda>_. Inr [(''kubeconfigs'', Y_Map [(''prod'', Y_Map [(''path'', Y_Str ''/kc'')])])]),
     pf_front = sample_front,
     pf_mount = \<lparr>ml_new_server = Inr (), ml_toolsets = [], ml_target_list = (\<lambda>_. False), ml_mutate = (\<lambda>_ _ _ t. t),
       ml_convert = (\<lambda>_. Inl refused), ml_cluster_aware = (\<lambda>_. True), ml_read_only_hint = (\<lambda>_. None), ml_name = (\<lambda>_. '''')\<rparr>,
     pf_library_cfg = (), pf_handler = (\<lambda>_. Done \<lparr>hs_Status = 200, hs_ContentType = '''', hs_Body = ''''\<rparr>),
     pf_until_signal = (\<lambda>s. snd (run (perform counting_deps outside (Tunnel_Calls ''a'' ''1'' [(''h'', 60)])) s))\<rparr>"

definition sample_process :: "(nat set, unit, string) process" where
  "sample_process =
     \<lparr>files = [''/config'' \<mapsto> (''doc'', 0)], outside = {}, now = 0, processEntries = [],
      entry_at = (\<lambda>_. \<lparr>pe_process = 0, pe_timer = 0\<rparr>), armed = Map.empty, next_ref = 0, terminated = [],
      cache_store = NewStore 0 0, managers = [], provider_cfg = (), stderr_lines = []\<rparr>"

lemma sample_until_signal:
  "\<exists>tasks rs. one_flight tasks \<and> (world_step (around_tunnels outside))\<^sup>*\<^sup>*
     (s1, map (perform (pf_proxy sample_platform) outside) tasks) (pf_until_signal sample_platform s1, map Done rs)"
proof -
  let ?task = "Tunnel_Calls ''a'' ''1'' [(''h'', 60)]"
  let ?out = "run (perform counting_deps outside ?task) s1"
  have "?out = (fst ?out, snd ?out)" by simp
  from world_of_pool [OF pool_steps_run_head [OF this]]
  have "(world_step (around_tunnels outside))\<^sup>*\<^sup>* (s1, map (perform (pf_proxy sample_platform) outside) [?task])
      (pf_until_signal sample_platform s1, map Done [fst ?out])"
    by (simp add: sample_platform_def)
  moreover have "one_flight [?task]" by (simp add: one_flight_def)
  ultimately show ?thesis by blast
qed

theorem no_tunnel_outlives_daemon_witness:
  "outside (snd (run (go_run sample_platform) sample_process)) \<subseteq> set (terminated (snd (run (go_run sample_platform) sample_process)))"
proof -
  have "run (go_run sample_platform) sample_process =
      (fst (run (go_run sample_platform) sample_process), snd (run (go_run sample_platform) sample_process))"
    by simp
  from no_tunnel_outlives_daemon [OF _ _ _ sample_until_signal _ this]
  have "outside (machine (snd (run (go_run sample_platform) sample_process)))
      \<subseteq> set (terminated (snd (run (go_run sample_platform) sample_process)))"
    by (simp add: sample_platform_def counting_lawful quiet_front_def sample_front_def sample_process_def machine_def
        counting_deps_def [THEN arg_cong [of _ _ px_under_systemd]])
  then show ?thesis by (simp add: machine_def)
qed

subsection \<open>The loaded configuration\<close>


text \<open>
  C34: the tool server of a started daemon has the names it relies on: every loaded entry
  carries the name it is configured under, so that the only condition left for the promises
  about the caches is that no entry has a colon in its name.
\<close>

theorem loaded_names_well_formed:
  assumes "fst (load_config pf s) = Inr cfg"
  shows "config_names_ok (daemon_tools pf cfg) \<longleftrightarrow> (\<forall>(n, src) \<in> set (cfg_Kubeconfigs cfg). colon_free n)"
proof -
  from assms have named: "src_Name src = n" if "(n, src) \<in> set (cfg_Kubeconfigs cfg)" for n src
    using that by (auto simp: load_config_def Load_def res_bind_eq_Inr list_all_iff dest!: LoadConfig_names)
  have "ts_cfg (daemon_tools pf cfg) = cfg" by (simp add: daemon_tools_def NewToolServer_def)
  moreover have "\<exists>src'. map_of (cfg_Kubeconfigs cfg) n = Some src'" if "(n, src) \<in> set (cfg_Kubeconfigs cfg)" for n src
    using that by (rule weak_map_of_SomeI)
  ultimately show ?thesis
    using named unfolding config_names_ok_def by (fastforce dest: map_of_SomeD)
qed

lemma sample_load:
  "\<exists>cfg src. fst (load_config sample_platform sample_process) = Inr cfg \<and> cfg_Kubeconfigs cfg = [(''prod'', src)]"
proof -
  obtain srcs where srcs: "res_map_list (parse_entry (fe_getenv sample_front)) [(''prod'', Y_Map [(''path'', Y_Str ''/kc'')])] = Inr srcs"
    using parse_entries_ok_iff [of "fe_getenv sample_front" "[(''prod'', Y_Map [(''path'', Y_Str ''/kc'')])]"]
    by (auto simp: entry_ok_def)
  then obtain src where "srcs = [(''prod'', src)]"
    by (auto simp: res_bind_eq_Inr parse_entry_def as_map_def as_str_def)
  with srcs show ?thesis
    by (simp add: load_config_def Load_def configPath_def LoadConfig_def as_map_def os_ReadFile_def lift_os_def
        sample_platform_def sample_process_def sample_os_def machine_def sample_front_def)
qed

theorem loaded_names_well_formed_witness:
  "\<exists>cfg. fst (load_config sample_platform sample_process) = Inr cfg \<and> config_names_ok (daemon_tools sample_platform cfg)"
proof -
  obtain cfg src where "fst (load_config sample_platform sample_process) = Inr cfg" "cfg_Kubeconfigs cfg = [(''prod'', src)]"
    using sample_load by blast
  with loaded_names_well_formed [of sample_platform sample_process cfg] show ?thesis
    by (auto simp: colon_free_def)
qed

end
